(* ===== verification/Prelude.thy ===== *)
theory Prelude
  imports
    Main
    "HOL-Library.Finite_Map"
    "HOL-Library.Multiset"
    "HOL-Library.List_Lexorder"
    "HOL-Library.Char_ord"
    "HOL-Library.Word"
begin

text \<open>
  What the components share: the Go values the sources compute with (wrapping
  64-bit integers, instants and durations, byte strings, maps read with a zero
  default), the stable sort of the standard library with its contract, and the
  unspecified iteration order of Go maps.

  \<^item> \<open>int64\<close> and \<open>int\<close> (64 bits on the supported targets) are \<open>int\<close>, with \<open>i64\<close> the
    two's-complement wrap applied where the source adds or subtracts; \<open>uint64\<close> is
    \<open>64 word\<close>.
  \<^item> \<open>time.Time\<close> is the number of nanoseconds since the zero time, so \<open>time.Time{}\<close> is
    \<open>0\<close>; \<open>time.Duration\<close> is a number of nanoseconds.
  \<^item> A string is the list of its bytes. \<open>strings.ToLower\<close> and \<open>strings.EqualFold\<close> are
    modelled on ASCII letters; other bytes are left as they are.
  \<^item> A Go map is an \<open>fmap\<close>; reading an absent key gives the zero value (\<open>fm_get\<close>).
\<close>

named_theorems go_simps \<open>unfolding rules of the Go helpers\<close>
named_theorems wo_intros \<open>rules that build strict weak orders from keys\<close>

section \<open>Integers\<close>

abbreviation (input) MaxInt64 :: int where
  "MaxInt64 \<equiv> 9223372036854775807"

abbreviation (input) MinInt64 :: int where
  "MinInt64 \<equiv> - 9223372036854775808"

definition i64 :: "int \<Rightarrow> int" where
  "i64 x = (x + 9223372036854775808) mod 18446744073709551616 - 9223372036854775808"

lemma i64_id: "MinInt64 \<le> x \<Longrightarrow> x \<le> MaxInt64 \<Longrightarrow> i64 x = x"
  by (simp add: i64_def)

lemma i64_bounds: "MinInt64 \<le> i64 x \<and> i64 x \<le> MaxInt64"
proof -
  have "(x + 9223372036854775808) mod 18446744073709551616 < 18446744073709551616"
    and "0 \<le> (x + 9223372036854775808) mod 18446744073709551616"
    by simp_all
  then show ?thesis by (simp add: i64_def)
qed

text \<open>Division and remainder truncate towards zero in Go.\<close>

definition quot :: "int \<Rightarrow> int \<Rightarrow> int" where
  "quot a b = (if (a < 0) = (b < 0) then \<bar>a\<bar> div \<bar>b\<bar> else - (\<bar>a\<bar> div \<bar>b\<bar>))"

definition remt :: "int \<Rightarrow> int \<Rightarrow> int" where
  "remt a b = a - quot a b * b"

lemma quot_nonneg [go_simps]: "0 \<le> a \<Longrightarrow> 0 < b \<Longrightarrow> quot a b = a div b"
  by (cases "a = 0") (simp_all add: quot_def)

lemma remt_nonneg [go_simps]: "0 \<le> a \<Longrightarrow> 0 < b \<Longrightarrow> remt a b = a mod b"
  by (simp add: remt_def quot_nonneg minus_div_mult_eq_mod)

section \<open>Time\<close>

type_synonym gotime = int
type_synonym duration = int

abbreviation (input) zero_time :: gotime where
  "zero_time \<equiv> 0"

abbreviation (input) second :: duration where
  "second \<equiv> 1000000000"

abbreviation (input) minute :: duration where
  "minute \<equiv> 60000000000"

abbreviation (input) hour :: duration where
  "hour \<equiv> 3600000000000"

definition IsZero :: "gotime \<Rightarrow> bool" where
  "IsZero t \<longleftrightarrow> t = 0"

definition After :: "gotime \<Rightarrow> gotime \<Rightarrow> bool" where
  "After t u \<longleftrightarrow> u < t"

definition Before :: "gotime \<Rightarrow> gotime \<Rightarrow> bool" where
  "Before t u \<longleftrightarrow> t < u"

definition Add :: "gotime \<Rightarrow> duration \<Rightarrow> gotime" where
  "Add t d = t + d"

text \<open>\<open>Time.Sub\<close> saturates at the extreme durations.\<close>

definition Sub :: "gotime \<Rightarrow> gotime \<Rightarrow> duration" where
  "Sub t u = max MinInt64 (min MaxInt64 (t - u))"

definition Milliseconds :: "duration \<Rightarrow> int" where
  "Milliseconds d = quot d 1000000"

lemmas time_defs [go_simps] = IsZero_def After_def Before_def Add_def

section \<open>Strings\<close>

definition HasSuffix :: "string \<Rightarrow> string \<Rightarrow> bool" where
  "HasSuffix s t \<longleftrightarrow> length t \<le> length s \<and> drop (length s - length t) s = t"

definition HasPrefix :: "string \<Rightarrow> string \<Rightarrow> bool" where
  "HasPrefix s t \<longleftrightarrow> take (length t) s = t"

definition TrimSuffix :: "string \<Rightarrow> string \<Rightarrow> string" where
  "TrimSuffix s t = (if HasSuffix s t then take (length s - length t) s else s)"

definition lower_char :: "char \<Rightarrow> char" where
  "lower_char c = (if 65 \<le> (of_char c :: int) \<and> (of_char c :: int) \<le> 90
     then char_of ((of_char c :: int) + 32) else c)"

definition ToLower :: "string \<Rightarrow> string" where
  "ToLower s = map lower_char s"

definition EqualFold :: "string \<Rightarrow> string \<Rightarrow> bool" where
  "EqualFold s t \<longleftrightarrow> map lower_char s = map lower_char t"

text \<open>
  The white space of \<open>unicode.IsSpace\<close>, each character as its UTF-8 bytes.
\<close>

definition space_strs :: "string list" where
  "space_strs = [
     [CHR 0x09], [CHR 0x0A], [CHR 0x0B], [CHR 0x0C], [CHR 0x0D], [CHR 0x20],
     [CHR 0xC2, CHR 0x85], [CHR 0xC2, CHR 0xA0], [CHR 0xE1, CHR 0x9A, CHR 0x80],
     [CHR 0xE2, CHR 0x80, CHR 0x80], [CHR 0xE2, CHR 0x80, CHR 0x81], [CHR 0xE2, CHR 0x80, CHR 0x82],
     [CHR 0xE2, CHR 0x80, CHR 0x83], [CHR 0xE2, CHR 0x80, CHR 0x84], [CHR 0xE2, CHR 0x80, CHR 0x85],
     [CHR 0xE2, CHR 0x80, CHR 0x86], [CHR 0xE2, CHR 0x80, CHR 0x87], [CHR 0xE2, CHR 0x80, CHR 0x88],
     [CHR 0xE2, CHR 0x80, CHR 0x89], [CHR 0xE2, CHR 0x80, CHR 0x8A], [CHR 0xE2, CHR 0x80, CHR 0xA8],
     [CHR 0xE2, CHR 0x80, CHR 0xA9], [CHR 0xE2, CHR 0x80, CHR 0xAF], [CHR 0xE2, CHR 0x81, CHR 0x9F],
     [CHR 0xE3, CHR 0x80, CHR 0x80]]"

lemma space_strs_nonempty: "w \<in> set space_strs \<Longrightarrow> w \<noteq> []"
  by (auto simp: space_strs_def)

fun trim_left :: "nat \<Rightarrow> string list \<Rightarrow> string \<Rightarrow> string" where
  "trim_left 0 ws s = s"
| "trim_left (Suc n) ws s =
     (case find (HasPrefix s) ws of None \<Rightarrow> s | Some w \<Rightarrow> trim_left n ws (drop (length w) s))"

definition TrimSpace :: "string \<Rightarrow> string" where
  "TrimSpace s =
     (let l = trim_left (length s) space_strs s
      in rev (trim_left (length l) (map rev space_strs) (rev l)))"

text \<open>
  The first argument of \<open>trim_left\<close> bounds the number of characters removed; the
  length of the string is enough, since every one removed is at least a byte long.
\<close>

lemma trim_left_enough:
  assumes "\<forall>w \<in> set ws. w \<noteq> []" and "length s \<le> n"
  shows "find (HasPrefix (trim_left n ws s)) ws = None"
  using assms(2)
proof (induction n arbitrary: s)
  case 0
  with assms(1) show ?case
    by (auto simp: find_None_iff HasPrefix_def)
next
  case (Suc n)
  show ?case
  proof (cases "find (HasPrefix s) ws")
    case None
    then show ?thesis by simp
  next
    case (Some w)
    then have "w \<in> set ws" and "HasPrefix s w"
      by (auto simp: find_Some_iff)
    with assms(1) have "w \<noteq> []" by blast
    then have "length (drop (length w) s) \<le> n"
      using Suc.prems by (cases w) simp_all
    with Some Suc.IH show ?thesis by simp
  qed
qed

text \<open>Trimming is idempotent and commutes with lower-casing, which fixes white space.\<close>

lemma trim_left_drop: "\<exists>k. trim_left n ws s = drop k s"
proof (induction n arbitrary: s)
  case 0
  then show ?case by (metis drop_0 trim_left.simps(1))
next
  case (Suc n)
  then show ?case by (auto split: option.split intro: exI[of _ 0]) (metis drop_drop)
qed

lemma trim_left_none: "find (HasPrefix s) ws = None \<Longrightarrow> trim_left n ws s = s"
  by (cases n) simp_all

lemma HasPrefix_append: "HasPrefix s w \<Longrightarrow> HasPrefix (s @ t) w"
  by (metis HasPrefix_def append_eq_conv_conj append_take_drop_id append.assoc)

lemma TrimSpace_idem [simp]: "TrimSpace (TrimSpace s) = TrimSpace s"
proof -
  define l where "l = trim_left (length s) space_strs s"
  define r where "r = trim_left (length l) (map rev space_strs) (rev l)"
  have ts: "TrimSpace s = rev r" by (simp add: TrimSpace_def l_def r_def Let_def)
  obtain k where "r = drop k (rev l)" using trim_left_drop r_def by blast
  then have pre: "l = rev r @ rev (take k (rev l))"
    by (metis append_take_drop_id rev_append rev_rev_ident)
  have "find (HasPrefix l) space_strs = None"
    unfolding l_def by (rule trim_left_enough) (auto dest: space_strs_nonempty)
  then have "find (HasPrefix (rev r)) space_strs = None"
    using pre by (auto simp: find_None_iff) (metis HasPrefix_append)
  then have left: "trim_left n space_strs (rev r) = rev r" for n by (rule trim_left_none)
  have "find (HasPrefix r) (map rev space_strs) = None"
    unfolding r_def by (rule trim_left_enough) (auto dest: space_strs_nonempty)
  then have "trim_left n (map rev space_strs) r = r" for n by (rule trim_left_none)
  with left have "TrimSpace (rev r) = rev r" unfolding TrimSpace_def Let_def by simp
  then show ?thesis by (simp only: ts)
qed

definition letter :: "char \<Rightarrow> bool" where
  "letter c \<longleftrightarrow> (65 \<le> (of_char c :: int) \<and> (of_char c :: int) \<le> 90) \<or>
     (97 \<le> (of_char c :: int) \<and> (of_char c :: int) \<le> 122)"

lemma lower_char_code:
  "(of_char (lower_char c) :: int) =
     (if 65 \<le> (of_char c :: int) \<and> (of_char c :: int) \<le> 90 then of_char c + 32 else of_char c)"
  by (auto simp: lower_char_def)

lemma lower_char_idem [simp]: "lower_char (lower_char c) = lower_char c"
  using lower_char_code[of c] by (subst lower_char_def) (auto split: if_splits)

lemma lower_char_eq_iff: "\<not> letter d \<Longrightarrow> lower_char c = d \<longleftrightarrow> c = d"
  using lower_char_code[of c] by (auto simp: letter_def lower_char_def split: if_splits)

lemma ToLower_idem [simp]: "ToLower (ToLower s) = ToLower s"
  by (simp add: ToLower_def comp_def)

lemma ToLower_eq_iff: "\<forall>d \<in> set w. \<not> letter d \<Longrightarrow> ToLower s = w \<longleftrightarrow> s = w"
proof (induction s arbitrary: w)
  case (Cons c s)
  then show ?case by (cases w) (auto simp: ToLower_def lower_char_eq_iff)
qed (auto simp: ToLower_def)

lemma HasPrefix_ToLower: "\<forall>d \<in> set w. \<not> letter d \<Longrightarrow> HasPrefix (ToLower s) w = HasPrefix s w"
  using ToLower_eq_iff[of w "take (length w) s"] by (simp add: HasPrefix_def ToLower_def take_map)

lemma trim_left_ToLower:
  assumes "\<forall>w \<in> set ws. \<forall>d \<in> set w. \<not> letter d"
  shows "trim_left n ws (ToLower s) = ToLower (trim_left n ws s)"
proof (induction n arbitrary: s)
  case (Suc n)
  have "find (HasPrefix (ToLower s)) ws = find (HasPrefix s) ws"
    by (rule find_cong) (use assms in \<open>auto simp: HasPrefix_ToLower\<close>)
  then show ?case
    using Suc[of "drop _ s"] by (auto simp: ToLower_def drop_map split: option.split)
qed simp

lemma space_strs_no_letter: "\<forall>w \<in> set space_strs. \<forall>d \<in> set w. \<not> letter d"
  by (simp add: space_strs_def letter_def)

lemma TrimSpace_ToLower: "TrimSpace (ToLower s) = ToLower (TrimSpace s)"
proof -
  have rv: "rev (ToLower t) = ToLower (rev t)" and ln: "length (ToLower t) = length t" for t
    by (simp_all add: ToLower_def rev_map)
  have "\<forall>w \<in> set (map rev space_strs). \<forall>d \<in> set w. \<not> letter d" using space_strs_no_letter by auto
  then show ?thesis
    by (simp add: TrimSpace_def Let_def ln rv trim_left_ToLower space_strs_no_letter)
qed

fun join :: "string \<Rightarrow> string list \<Rightarrow> string" where
  "join sep [] = []"
| "join sep [x] = x"
| "join sep (x # y # xs) = x @ sep @ join sep (y # xs)"

section \<open>Folds\<close>

lemma foldl_invariant:
  "I a \<Longrightarrow> (\<And>a x. x \<in> set xs \<Longrightarrow> I a \<Longrightarrow> I (f a x)) \<Longrightarrow> I (foldl f a xs)"
  by (induction xs arbitrary: a) auto

section \<open>Maps\<close>

definition fm_get :: "'v \<Rightarrow> ('k, 'v) fmap \<Rightarrow> 'k \<Rightarrow> 'v" where
  "fm_get z m k = (case fmlookup m k of None \<Rightarrow> z | Some v \<Rightarrow> v)"

definition fm_has :: "('k, 'v) fmap \<Rightarrow> 'k \<Rightarrow> bool" where
  "fm_has m k \<longleftrightarrow> fmlookup m k \<noteq> None"

definition fm_len :: "('k, 'v) fmap \<Rightarrow> nat" where
  "fm_len m = fcard (fmdom m)"

lemma fm_get_upd [simp]: "fm_get z (fmupd k v m) j = (if j = k then v else fm_get z m j)"
  by (simp add: fm_get_def)

lemma fm_get_empty [simp]: "fm_get z fmempty k = z"
  by (simp add: fm_get_def)

lemma fm_get_drop [simp]: "fm_get z (fmdrop k m) j = (if j = k then z else fm_get z m j)"
  by (simp add: fm_get_def)

lemma fm_get_Some: "fmlookup m k = Some v \<Longrightarrow> fm_get z m k = v"
  by (simp add: fm_get_def)

lemma fm_get_None: "fmlookup m k = None \<Longrightarrow> fm_get z m k = z"
  by (simp add: fm_get_def)

lemma fm_has_upd [simp]: "fm_has (fmupd k v m) j \<longleftrightarrow> j = k \<or> fm_has m j"
  by (simp add: fm_has_def)

lemma fm_has_empty [simp]: "\<not> fm_has fmempty j"
  by (simp add: fm_has_def)

lemma fm_has_drop [simp]: "fm_has (fmdrop k m) j \<longleftrightarrow> j \<noteq> k \<and> fm_has m j"
  by (simp add: fm_has_def)

lemma fm_has_fmdom: "fm_has m k \<longleftrightarrow> k |\<in>| fmdom m"
  by (simp add: fm_has_def fmlookup_dom_iff) 

lemma fm_len_empty [simp]: "fm_len fmempty = 0"
  by (simp add: fm_len_def)

lemma fm_len_upd: "fm_len (fmupd k v m) = (if fm_has m k then fm_len m else Suc (fm_len m))"
  by (simp add: fm_len_def fm_has_fmdom fcard_finsert_if)

lemma fm_len_drop: "fm_len (fmdrop k m) = (if fm_has m k then fm_len m - 1 else fm_len m)"
  by (auto simp: fm_len_def fm_has_fmdom fminus_triv fcard_fminus_fsingleton)

text \<open>
  Go leaves the order in which \<open>range\<close> visits a map open. A definition whose result
  depends on it takes the order as a function from the key set to a list of the keys;
  this is all the language promises of it.
\<close>

locale map_order =
  fixes iter :: "'k fset \<Rightarrow> 'k list"
  assumes iter_set: "set (iter ks) = fset ks"
    and iter_distinct: "distinct (iter ks)"
begin

lemma iter_length: "length (iter ks) = fcard ks"
  by (metis distinct_card fcard.rep_eq iter_distinct iter_set)

lemma iter_hd: "ks \<noteq> {||} \<Longrightarrow> hd (iter ks) |\<in>| ks"
  by (metis fset_simps(1) fset_inject iter_set list.set_sel(1) set_empty)

end

lemma sorted_list_of_fset_distinct: "distinct (sorted_list_of_fset ks)"
  by (simp add: sorted_list_of_fset.rep_eq)

interpretation sorted_order: map_order sorted_list_of_fset
  by unfold_locales (simp_all add: sorted_list_of_fset_distinct)

section \<open>Stable sorting\<close>

text \<open>
  \<open>sort.SliceStable\<close> promises the stable sorted permutation of its slice when \<open>lt\<close> is
  a strict weak order. That permutation is unique (\<open>stable_unique\<close>), so the
  insertion sort below is the function the library computes.
\<close>

fun insert_stable :: "('a \<Rightarrow> 'a \<Rightarrow> bool) \<Rightarrow> 'a \<Rightarrow> 'a list \<Rightarrow> 'a list" where
  "insert_stable lt x [] = [x]"
| "insert_stable lt x (y # ys) =
     (if lt y x then y # insert_stable lt x ys else x # y # ys)"

definition SliceStable :: "('a \<Rightarrow> 'a \<Rightarrow> bool) \<Rightarrow> 'a list \<Rightarrow> 'a list" where
  "SliceStable lt xs = foldr (insert_stable lt) xs []"

lemma SliceStable_Nil [simp]: "SliceStable lt [] = []"
  by (simp add: SliceStable_def)

lemma SliceStable_Cons [simp]:
  "SliceStable lt (x # xs) = insert_stable lt x (SliceStable lt xs)"
  by (simp add: SliceStable_def)

lemma mset_insert_stable [simp]: "mset (insert_stable lt x ys) = add_mset x (mset ys)"
  by (induction ys) auto

lemma mset_SliceStable [simp]: "mset (SliceStable lt xs) = mset xs"
  by (induction xs) auto

lemma set_SliceStable [simp]: "set (SliceStable lt xs) = set xs"
  by (metis mset_SliceStable set_mset_mset)

lemma length_SliceStable [simp]: "length (SliceStable lt xs) = length xs"
  by (metis mset_SliceStable size_mset)

lemma distinct_SliceStable [simp]: "distinct (map f (SliceStable lt xs)) = distinct (map f xs)"
  by (rule mset_eq_imp_distinct_iff) simp

locale weak_order =
  fixes lt :: "'a \<Rightarrow> 'a \<Rightarrow> bool"
  assumes irrefl: "\<not> lt x x"
    and trans: "lt x y \<Longrightarrow> lt y z \<Longrightarrow> lt x z"
    and incomp: "lt x z \<Longrightarrow> lt x y \<or> lt y z"
begin

abbreviation (input) same :: "'a \<Rightarrow> 'a \<Rightarrow> bool" where
  "same x y \<equiv> \<not> lt x y \<and> \<not> lt y x"

abbreviation (input) ordered :: "'a list \<Rightarrow> bool" where
  "ordered xs \<equiv> sorted_wrt (\<lambda>a b. \<not> lt b a) xs"

lemma ordered_insert: "ordered ys \<Longrightarrow> ordered (insert_stable lt x ys)"
proof (induction ys)
  case Nil
  then show ?case by simp
next
  case (Cons y ys)
  have "set (insert_stable lt x ys) = insert x (set ys)"
    by (metis mset_insert_stable set_mset_add_mset_insert set_mset_mset)
  with Cons show ?case
    by (auto dest: incomp trans simp: irrefl)
qed

lemma ordered_sort: "ordered (SliceStable lt xs)"
  by (induction xs) (simp_all add: ordered_insert)

lemma filter_insert_stable:
  "ordered ys \<Longrightarrow> filter (same p) (insert_stable lt x ys) = filter (same p) (x # ys)"
proof (induction ys)
  case Nil
  then show ?case by simp
next
  case (Cons y ys)
  then show ?case by (auto dest: incomp trans)
qed

lemma stable_sort: "filter (same p) (SliceStable lt xs) = filter (same p) xs"
  by (induction xs) (simp_all add: filter_insert_stable ordered_sort)

lemma ordered_eq:
  "ordered xs \<Longrightarrow> ordered ys \<Longrightarrow> (\<And>p. filter (same p) xs = filter (same p) ys) \<Longrightarrow> xs = ys"
proof (induction xs arbitrary: ys)
  case Nil
  show ?case
  proof (cases ys)
    case (Cons y ys')
    with Nil.prems(3)[of y] show ?thesis by (simp add: irrefl)
  qed simp
next
  case (Cons x xs)
  have "filter (same x) ys = x # filter (same x) xs"
    using Cons.prems(3)[of x] by (simp add: irrefl)
  then have x_ys: "x \<in> set ys"
    by (metis filter_is_subset list.set_intros(1) subsetD)
  then obtain y ys' where ys: "ys = y # ys'"
    by (cases ys) auto
  have "filter (same y) (x # xs) = y # filter (same y) ys'"
    using Cons.prems(3)[of y] by (simp add: ys irrefl)
  then have "y \<in> set (x # xs)"
    by (metis filter_is_subset list.set_intros(1) subsetD)
  with x_ys have "same x y"
    using Cons.prems(1,2) unfolding ys by (auto simp: irrefl)
  then have "x = y"
    using Cons.prems(3)[of x] unfolding ys by (simp add: irrefl)
  moreover have "xs = ys'"
  proof (rule Cons.IH)
    show "ordered xs" "ordered ys'" using Cons.prems(1,2) ys by auto
    show "filter (same p) xs = filter (same p) ys'" for p
      using Cons.prems(3)[of p] unfolding ys \<open>x = y\<close> by (cases "same p y") simp_all
  qed
  ultimately show ?case using ys by simp
qed

lemma stable_unique:
  assumes "ordered ys" and "\<And>p. filter (same p) ys = filter (same p) xs"
  shows "ys = SliceStable lt xs"
  by (rule ordered_eq) (simp_all add: assms ordered_sort stable_sort)

lemma filter_sort: "filter P (SliceStable lt xs) = SliceStable lt (filter P xs)"
proof (rule stable_unique)
  show "ordered (filter P (SliceStable lt xs))"
    by (rule sorted_wrt_filter[OF ordered_sort])
  have swap: "filter (same p) (filter P ys) = filter P (filter (same p) ys)" for p and ys :: "'a list"
    by (induction ys) simp_all
  show "filter (same p) (filter P (SliceStable lt xs)) = filter (same p) (filter P xs)" for p
    unfolding swap stable_sort ..
qed

lemma ordered_hd:
  "ordered xs \<Longrightarrow> x \<in> set xs \<Longrightarrow> \<not> lt x (hd xs)"
  by (cases xs) (auto simp: irrefl)

end

lemma weak_order_key [wo_intros]:
  fixes k :: "'a \<Rightarrow> 'b::linorder"
  shows "weak_order (\<lambda>a b. k a < k b)"
  by unfold_locales auto

lemma weak_order_key_desc [wo_intros]:
  fixes k :: "'a \<Rightarrow> 'b::linorder"
  shows "weak_order (\<lambda>a b. k a > k b)"
  by unfold_locales auto

lemma weak_order_lex [wo_intros]:
  fixes k :: "'a \<Rightarrow> 'b::linorder"
  assumes "weak_order r"
  shows "weak_order (\<lambda>a b. if k a \<noteq> k b then k a < k b else r a b)" (is "weak_order ?r")
proof -
  from assms have r: "\<not> r x x" "r x y \<Longrightarrow> r y z \<Longrightarrow> r x z" "r x z \<Longrightarrow> r x y \<or> r y z" for x y z
    by (simp_all add: weak_order_def)
  show ?thesis
  proof unfold_locales
    show "\<not> ?r x x" for x by (simp add: r(1))
    show "?r x z" if "?r x y" "?r y z" for x y z
      using that r(2)[of x y z] by (auto split: if_splits)
    show "?r x y \<or> ?r y z" if "?r x z" for x y z
      using that r(3)[of x z y] by (auto split: if_splits)
  qed
qed

lemma weak_order_lex_desc [wo_intros]:
  fixes k :: "'a \<Rightarrow> 'b::linorder"
  assumes "weak_order r"
  shows "weak_order (\<lambda>a b. if k a \<noteq> k b then k a > k b else r a b)" (is "weak_order ?r")
proof -
  from assms have r: "\<not> r x x" "r x y \<Longrightarrow> r y z \<Longrightarrow> r x z" "r x z \<Longrightarrow> r x y \<or> r y z" for x y z
    by (simp_all add: weak_order_def)
  show ?thesis
  proof unfold_locales
    show "\<not> ?r x x" for x by (simp add: r(1))
    show "?r x z" if "?r x y" "?r y z" for x y z
      using that r(2)[of x y z] by (auto split: if_splits)
    show "?r x y \<or> ?r y z" if "?r x z" for x y z
      using that r(3)[of x z y] by (auto split: if_splits)
  qed
qed

end
