(* ===== verification/Float64.thy ===== *)
theory Float64
  imports Complex_Main Prelude "HOL-Library.Log_Nat"
begin

text \<open>
  Go's \<open>float64\<close> arithmetic. A finite \<open>float64\<close> is the rational it denotes, and every
  operation is the exact one followed by \<open>fl64\<close>, the rounding of IEEE 754 binary64:
  to nearest, ties to even, 53 bits of precision, subnormals below \<open>2 ^ -1022\<close>. The
  exponent is not bounded above: the sources never come near \<open>2 ^ 1024\<close>. NaN and the
  infinities are values of \<open>gofloat\<close>, which the operations that test for them take.

  What the components use of rounding is the locale \<open>rounding\<close>: monotone, exact on the
  constants 0 and 1, odd. It is interpreted on \<open>fl64\<close>, and the moving average of the
  health manager is shown in it to stay between its old value and the sample.
\<close>

datatype gofloat = Fin rat | PosInf | NegInf | NaN

definition IsNaN :: "gofloat \<Rightarrow> bool" where
  "IsNaN x \<longleftrightarrow> x = NaN"

definition IsInf :: "gofloat \<Rightarrow> bool" where
  "IsInf x \<longleftrightarrow> x = PosInf \<or> x = NegInf"

section \<open>Rounding to binary64\<close>

definition rne :: "rat \<Rightarrow> int" where
  "rne x = (let f = \<lfloor>x\<rfloor>; d = x - of_int f in
     if d < 1 / 2 then f else if d > 1 / 2 then f + 1 else if even f then f else f + 1)"

definition ilog2 :: "rat \<Rightarrow> int" where
  "ilog2 x = (let (p, q) = quotient_of x; e = bitlen p - bitlen q in
     if power_int 2 e \<le> x then e else e - 1)"

definition ulp_exp :: "rat \<Rightarrow> int" where
  "ulp_exp x = max (ilog2 \<bar>x\<bar> - 52) (- 1074)"

definition fl64 :: "rat \<Rightarrow> rat" where
  "fl64 x = (if x = 0 then 0
     else of_int (rne (x / power_int 2 (ulp_exp x))) * power_int 2 (ulp_exp x))"

lemma rne_bounds: "x - 1 / 2 \<le> of_int (rne x) \<and> of_int (rne x) \<le> x + 1 / 2"
  by (auto simp: rne_def Let_def) linarith+

lemma rne_of_int [simp]: "rne (of_int n) = n"
  by (simp add: rne_def)

lemma rne_mono: "x \<le> y \<Longrightarrow> rne x \<le> rne y"
proof (cases "\<lfloor>x\<rfloor> = \<lfloor>y\<rfloor>")
  case True
  moreover assume "x \<le> y"
  ultimately show ?thesis by (auto simp: rne_def Let_def)
next
  case False
  assume "x \<le> y"
  with False have "\<lfloor>x\<rfloor> + 1 \<le> \<lfloor>y\<rfloor>"
    using floor_mono by fastforce
  moreover have "rne x \<le> \<lfloor>x\<rfloor> + 1" and "\<lfloor>y\<rfloor> \<le> rne y"
    by (simp_all add: rne_def Let_def)
  ultimately show ?thesis by linarith
qed

lemma floor_minus_frac: "x \<noteq> of_int \<lfloor>x\<rfloor> \<Longrightarrow> \<lfloor>- x\<rfloor> = - \<lfloor>x\<rfloor> - 1" for x :: rat
  by linarith

lemma rne_minus: "rne (- x) = - rne x"
proof (cases "x = of_int \<lfloor>x\<rfloor>")
  case True
  then show ?thesis by (metis of_int_minus rne_of_int)
next
  case False
  then show ?thesis
    by (auto simp: rne_def Let_def floor_minus_frac)
qed

subsection \<open>The exponent\<close>

lemma pow2_less: "a < b \<Longrightarrow> power_int 2 a < (power_int 2 b :: rat)"
  by (rule power_int_strict_increasing) simp_all

lemma pow2_less_iff: "power_int 2 a < (power_int 2 b :: rat) \<longleftrightarrow> a < b"
  by (metis linorder_neqE pow2_less order_less_asym order_less_irrefl)

lemma pow2_le_iff: "power_int 2 a \<le> (power_int 2 b :: rat) \<longleftrightarrow> a \<le> b"
  by (meson not_less pow2_less_iff)

lemma bitlen_pos_bounds:
  assumes "0 < p"
  shows "power_int 2 (bitlen p - 1) \<le> (of_int p :: rat)" and "(of_int p :: rat) < power_int 2 (bitlen p)"
proof -
  from assms have b: "0 \<le> bitlen p - 1" and b': "0 \<le> bitlen p"
    using bitlen_nonneg[of p] by (auto simp: bitlen_eq_zero_iff) (metis assms bitlen_eq_zero_iff bitlen_nonneg int_one_le_iff_zero_less less_le not_less)
  from bitlen_bounds[OF assms] have "2 ^ nat (bitlen p - 1) \<le> p" and "p < 2 ^ nat (bitlen p)"
    by auto
  then have "(of_int (2 ^ nat (bitlen p - 1)) :: rat) \<le> of_int p"
    and "(of_int p :: rat) < of_int (2 ^ nat (bitlen p))"
    by (simp_all only: of_int_le_iff of_int_less_iff)
  with b b' show "power_int 2 (bitlen p - 1) \<le> (of_int p :: rat)" and "(of_int p :: rat) < power_int 2 (bitlen p)"
    by (simp_all add: power_int_def)
qed

lemma ilog2_bounds:
  assumes "0 < x"
  shows "power_int 2 (ilog2 x) \<le> x" and "x < power_int 2 (ilog2 x + 1)"
proof -
  obtain p q where pq: "quotient_of x = (p, q)" by (cases "quotient_of x")
  then have q: "0 < q" by (rule quotient_of_denom_pos)
  have x: "x = of_int p / of_int q" using pq by (rule quotient_of_div)
  with assms q have p: "0 < p" by (simp add: zero_less_divide_iff)
  let ?e = "bitlen p - bitlen q"
  have up: "x < power_int 2 (?e + 1)"
  proof -
    have "of_int p < power_int 2 (?e + 1) * (power_int 2 (bitlen q - 1) :: rat)"
      using bitlen_pos_bounds(2)[OF p] by (simp flip: power_int_add)
    also have "\<dots> \<le> power_int 2 (?e + 1) * of_int q"
      using bitlen_pos_bounds(1)[OF q] by (intro mult_left_mono) simp_all
    finally show ?thesis using q by (simp add: x divide_less_eq)
  qed
  have low: "power_int 2 (?e - 1) \<le> x"
  proof -
    have "power_int 2 (?e - 1) * of_int q \<le> power_int 2 (?e - 1) * (power_int 2 (bitlen q) :: rat)"
      using bitlen_pos_bounds(2)[OF q] by (intro mult_left_mono) simp_all
    also have "\<dots> = power_int 2 (bitlen p - 1)"
      by (simp flip: power_int_add)
    also have "\<dots> \<le> of_int p" by (rule bitlen_pos_bounds(1)[OF p])
    finally show ?thesis using q by (simp add: x le_divide_eq)
  qed
  show "power_int 2 (ilog2 x) \<le> x" and "x < power_int 2 (ilog2 x + 1)"
    using up low by (auto simp: ilog2_def pq Let_def)
qed

lemma ilog2_unique:
  assumes "power_int 2 e \<le> x" and "x < power_int 2 (e + 1)"
  shows "ilog2 x = e"
proof -
  have "0 < (power_int 2 e :: rat)" by simp
  then have x: "0 < x" using assms(1) by (rule less_le_trans)
  note b = ilog2_bounds[OF x]
  have "power_int 2 (ilog2 x) < (power_int 2 (e + 1) :: rat)"
    using b(1) assms(2) by (rule le_less_trans)
  moreover have "power_int 2 e < (power_int 2 (ilog2 x + 1) :: rat)"
    using assms(1) b(2) by (rule le_less_trans)
  ultimately show ?thesis by (simp add: pow2_less_iff)
qed

lemma ilog2_mono: "0 < x \<Longrightarrow> x \<le> y \<Longrightarrow> ilog2 x \<le> ilog2 y"
proof -
  assume "0 < x" and xy: "x \<le> y"
  then have "power_int 2 (ilog2 x) < (power_int 2 (ilog2 y + 1) :: rat)"
    using ilog2_bounds[of x] ilog2_bounds[of y] by linarith
  then show ?thesis by (simp add: pow2_less_iff)
qed

lemma ulp_exp_mono: "0 < x \<Longrightarrow> x \<le> y \<Longrightarrow> ulp_exp x \<le> ulp_exp y"
  using ilog2_mono[of x y] by (simp add: ulp_exp_def)

lemma ulp_exp_minus [simp]: "ulp_exp (- x) = ulp_exp x"
  by (simp add: ulp_exp_def)

lemma fl64_0 [simp]: "fl64 0 = 0"
  by (simp add: fl64_def)

lemma fl64_minus: "fl64 (- x) = - fl64 x"
  by (simp add: fl64_def rne_minus)

subsection \<open>Exact values and monotonicity\<close>

text \<open>A multiple of the unit in the last place is not changed.\<close>

lemma fl64_multiple:
  assumes "x = of_int n * power_int 2 k" and "ulp_exp x \<le> k"
  shows "fl64 x = x"
proof (cases "x = 0")
  case False
  let ?e = "ulp_exp x"
  have "x / power_int 2 ?e = of_int n * (power_int 2 k * power_int 2 (- ?e))"
    by (simp add: assms(1) power_int_minus divide_inverse mult.assoc)
  also have "\<dots> = of_int n * power_int 2 (k - ?e)"
    by (simp flip: power_int_add)
  also have "\<dots> = of_int (n * 2 ^ nat (k - ?e))"
    using assms(2) by (simp add: power_int_def)
  finally have "x / power_int 2 ?e = of_int (n * 2 ^ nat (k - ?e))" .
  then have "of_int (rne (x / power_int 2 ?e)) = x / power_int 2 ?e"
    by (metis rne_of_int)
  with False show ?thesis by (simp add: fl64_def)
qed simp

lemma fl64_exact:
  assumes "x = of_int n * power_int 2 k" and "\<bar>n\<bar> < 2 ^ 53" and "- 1074 \<le> k"
  shows "fl64 x = x"
proof (cases "x = 0")
  case False
  have "\<bar>x\<bar> = of_int \<bar>n\<bar> * power_int 2 k"
    by (simp add: assms(1) abs_mult power_int_abs)
  also have "\<dots> < power_int 2 53 * power_int 2 k"
  proof (rule mult_strict_right_mono)
    have "(of_int \<bar>n\<bar> :: rat) < of_int (2 ^ 53)"
      using assms(2) by (simp only: of_int_less_iff)
    then show "(of_int \<bar>n\<bar> :: rat) < power_int 2 53"
      by (simp add: power_int_def)
  qed simp
  also have "\<dots> = power_int 2 (53 + k)"
    by (simp add: power_int_add)
  finally have "power_int 2 (ilog2 \<bar>x\<bar>) < (power_int 2 (53 + k) :: rat)"
    using ilog2_bounds(1)[of "\<bar>x\<bar>"] False by linarith
  then have "ulp_exp x \<le> k"
    using assms(3) by (simp add: ulp_exp_def pow2_less_iff)
  with assms(1) show ?thesis by (rule fl64_multiple)
qed simp

lemma fl64_pow2: "- 1074 \<le> k \<Longrightarrow> fl64 (power_int 2 k) = power_int 2 k"
  by (rule fl64_exact[of _ 1 k]) simp_all

lemma fl64_of_int: "\<bar>n\<bar> < 2 ^ 53 \<Longrightarrow> fl64 (of_int n) = of_int n"
  by (rule fl64_exact[of _ n 0]) simp_all

lemma fl64_nonneg: "0 \<le> x \<Longrightarrow> 0 \<le> fl64 x"
proof (cases "x = 0")
  case False
  assume "0 \<le> x"
  then have "rne 0 \<le> rne (x / power_int 2 (ulp_exp x))"
    by (intro rne_mono) simp
  then show ?thesis by (simp add: fl64_def rne_of_int[of 0, simplified])
qed simp

lemma fl64_same_exp:
  "x \<noteq> 0 \<Longrightarrow> y \<noteq> 0 \<Longrightarrow> x \<le> y \<Longrightarrow> ulp_exp x = ulp_exp y \<Longrightarrow> fl64 x \<le> fl64 y"
  by (auto simp: fl64_def intro!: mult_right_mono rne_mono divide_right_mono)

text \<open>Between two binades lies a power of two, which is exact.\<close>

lemma fl64_below_pow2:
  assumes "0 < x" and "x \<le> power_int 2 (ulp_exp x + 53)"
  shows "fl64 x \<le> power_int 2 (ulp_exp x + 53)"
proof -
  let ?e = "ulp_exp x"
  have "x / power_int 2 ?e \<le> power_int 2 (?e + 53) / power_int 2 ?e"
    using assms(2) by (rule divide_right_mono) simp
  also have "\<dots> = of_int (2 ^ 53)"
    by (simp add: power_int_add)
  finally have "rne (x / power_int 2 ?e) \<le> rne (of_int (2 ^ 53))"
    by (rule rne_mono)
  then have "rne (x / power_int 2 ?e) \<le> 2 ^ 53"
    by (simp only: rne_of_int)
  then have "(of_int (rne (x / power_int 2 ?e)) :: rat) \<le> of_int (2 ^ 53)"
    by (simp only: of_int_le_iff)
  then have "of_int (rne (x / power_int 2 ?e)) * power_int 2 ?e \<le> (of_int (2 ^ 53) * power_int 2 ?e :: rat)"
    by (rule mult_right_mono) simp
  with assms(1) show ?thesis by (simp add: fl64_def power_int_add mult.commute)
qed

lemma fl64_mono_nonneg:
  assumes "0 \<le> x" and "x \<le> y"
  shows "fl64 x \<le> fl64 y"
proof (cases "x = 0")
  case True
  with assms show ?thesis by (simp add: fl64_nonneg)
next
  case False
  with assms have x: "0 < x" and y: "0 < y" by simp_all
  show ?thesis
  proof (cases "ulp_exp x = ulp_exp y")
    case True
    with x y assms(2) show ?thesis by (intro fl64_same_exp) simp_all
  next
    case False
    with ulp_exp_mono[OF x assms(2)] have e: "ulp_exp x + 1 \<le> ulp_exp y" by simp
    then have y_e: "ulp_exp y = ilog2 y - 52" using y by (auto simp: ulp_exp_def)
    have "x < power_int 2 (ilog2 x + 1)" by (rule ilog2_bounds(2)[OF x])
    also have "\<dots> \<le> power_int 2 (ulp_exp x + 53)"
      using x by (simp add: pow2_le_iff ulp_exp_def)
    finally have "fl64 x \<le> power_int 2 (ulp_exp x + 53)"
      using x by (intro fl64_below_pow2) simp_all
    also have "\<dots> \<le> power_int 2 (ilog2 y)"
      using e y_e by (simp add: pow2_le_iff)
    also have "\<dots> \<le> fl64 y"
    proof -
      have "power_int 2 (ilog2 y) = of_int (2 ^ 52) * (power_int 2 (ulp_exp y) :: rat)"
        by (simp add: y_e power_int_diff)
      also have "\<dots> \<le> of_int (rne (y / power_int 2 (ulp_exp y))) * power_int 2 (ulp_exp y)"
      proof (rule mult_right_mono)
        have "of_int (2 ^ 52) \<le> y / power_int 2 (ulp_exp y)"
          using ilog2_bounds(1)[OF y] by (simp add: y_e power_int_diff le_divide_eq)
        then have "rne (of_int (2 ^ 52)) \<le> rne (y / power_int 2 (ulp_exp y))"
          by (rule rne_mono)
        then show "of_int (2 ^ 52) \<le> (of_int (rne (y / power_int 2 (ulp_exp y))) :: rat)"
          by (simp only: rne_of_int of_int_le_iff)
      qed simp
      finally show ?thesis using y by (simp add: fl64_def)
    qed
    finally show ?thesis .
  qed
qed

lemma fl64_mono: "x \<le> y \<Longrightarrow> fl64 x \<le> fl64 y"
proof -
  assume xy: "x \<le> y"
  consider "0 \<le> x" | "x < 0" "0 \<le> y" | "y < 0" by linarith
  then show ?thesis
  proof cases
    case 1
    then show ?thesis using xy by (rule fl64_mono_nonneg)
  next
    case 2
    then have "0 \<le> fl64 (- x)" and "0 \<le> fl64 y" by (auto intro: fl64_nonneg)
    then show ?thesis by (simp add: fl64_minus)
  next
    case 3
    then have "fl64 (- y) \<le> fl64 (- x)" using xy by (intro fl64_mono_nonneg) simp_all
    then show ?thesis by (simp add: fl64_minus)
  qed
qed

section \<open>The contract of rounding\<close>

locale rounding =
  fixes rnd :: "rat \<Rightarrow> rat"
  assumes rnd_mono: "x \<le> y \<Longrightarrow> rnd x \<le> rnd y"
    and rnd_0: "rnd 0 = 0"
    and rnd_1: "rnd 1 = 1"
    and rnd_odd: "rnd (- x) = - rnd x"
begin

lemma rnd_nonneg: "0 \<le> x \<Longrightarrow> 0 \<le> rnd x"
  using rnd_mono[of 0 x] by (simp add: rnd_0)

lemma rnd_le_1: "x \<le> 1 \<Longrightarrow> rnd x \<le> 1"
  using rnd_mono[of x 1] by (simp add: rnd_1)

lemma rnd_nonpos: "x \<le> 0 \<Longrightarrow> rnd x \<le> 0"
  using rnd_mono[of x 0] by (simp add: rnd_0)

text \<open>
  A sum that rounds above a fixed point of rounding is above it: no addition of a
  non-negative term can lose an exact value.
\<close>

lemma rnd_ge_exact: "rnd a = a \<Longrightarrow> a \<le> x \<Longrightarrow> a \<le> rnd x"
  using rnd_mono[of a x] by simp

lemma rnd_le_exact: "rnd a = a \<Longrightarrow> x \<le> a \<Longrightarrow> rnd x \<le> a"
  using rnd_mono[of x a] by simp

end

lemma fl64_1 [simp]: "fl64 1 = 1"
  using fl64_of_int[of 1] by simp

interpretation fl: rounding fl64
  by unfold_locales (simp_all add: fl64_mono fl64_minus)

lemma fl64_numeral: "numeral n < (2 ^ 53 :: int) \<Longrightarrow> fl64 (numeral n) = numeral n"
  using fl64_of_int[of "numeral n"] by simp

section \<open>Operations\<close>

definition fadd :: "rat \<Rightarrow> rat \<Rightarrow> rat" where
  "fadd x y = fl64 (x + y)"

definition fsub :: "rat \<Rightarrow> rat \<Rightarrow> rat" where
  "fsub x y = fl64 (x - y)"

definition fmul :: "rat \<Rightarrow> rat \<Rightarrow> rat" where
  "fmul x y = fl64 (x * y)"

definition fdiv :: "rat \<Rightarrow> rat \<Rightarrow> rat" where
  "fdiv x y = fl64 (x / y)"

definition float_of_int :: "int \<Rightarrow> rat" where
  "float_of_int n = fl64 (of_int n)"

lemma fadd_mono: "a \<le> b \<Longrightarrow> c \<le> d \<Longrightarrow> fadd a c \<le> fadd b d"
  by (simp add: fadd_def fl64_mono add_mono)

lemma fsub_mono: "a \<le> b \<Longrightarrow> d \<le> c \<Longrightarrow> fsub a c \<le> fsub b d"
  unfolding fsub_def by (rule fl64_mono) linarith

lemma fmul_mono: "0 \<le> c \<Longrightarrow> a \<le> b \<Longrightarrow> fmul a c \<le> fmul b c"
  by (simp add: fmul_def fl64_mono mult_right_mono)

lemma fmul_nonneg: "0 \<le> a \<Longrightarrow> 0 \<le> b \<Longrightarrow> 0 \<le> fmul a b"
  by (simp add: fmul_def fl.rnd_nonneg)

lemma fadd_nonneg: "0 \<le> a \<Longrightarrow> 0 \<le> b \<Longrightarrow> 0 \<le> fadd a b"
  by (simp add: fadd_def fl.rnd_nonneg)

lemma float_of_int_pos: "0 < n \<Longrightarrow> 1 \<le> float_of_int n"
  unfolding float_of_int_def by (rule fl.rnd_ge_exact) simp_all

lemma float_of_int_nonneg: "0 \<le> n \<Longrightarrow> 0 \<le> float_of_int n"
  by (simp add: float_of_int_def fl.rnd_nonneg)

text \<open>The moving average \<open>old*0.75 + sample*0.25\<close>.\<close>

definition ewma :: "rat \<Rightarrow> rat \<Rightarrow> rat" where
  "ewma old sample = fadd (fmul old (3 / 4)) (fmul sample (1 / 4))"

lemma fl64_quarter: "fl64 (1 / 4) = 1 / 4"
  by (rule fl64_exact[of _ 1 "- 2"]) (simp_all add: power_int_def power2_eq_square)

lemma fl64_three_quarters: "fl64 (3 / 4) = 3 / 4"
  by (rule fl64_exact[of _ 3 "- 2"]) (simp_all add: power_int_def power2_eq_square)

lemma ewma_nonneg: "0 \<le> old \<Longrightarrow> 0 \<le> sample \<Longrightarrow> 0 \<le> ewma old sample"
  by (simp add: ewma_def fadd_nonneg fmul_nonneg)

lemma ewma_le_1:
  assumes "old \<le> 1" and "sample \<le> 1"
  shows "ewma old sample \<le> 1"
proof -
  have "fmul old (3 / 4) \<le> 3 / 4"
    unfolding fmul_def by (rule fl.rnd_le_exact[OF fl64_three_quarters]) (use assms in simp)
  moreover have "fmul sample (1 / 4) \<le> 1 / 4"
    unfolding fmul_def by (rule fl.rnd_le_exact[OF fl64_quarter]) (use assms in simp)
  ultimately have "ewma old sample \<le> fadd (3 / 4) (1 / 4)"
    unfolding ewma_def by (rule fadd_mono)
  then show ?thesis by (simp add: fadd_def)
qed

section \<open>Float64 with its special values\<close>

text \<open>
  Prices and budgets are guarded against NaN and the infinities, so they are
  modelled on \<^typ>\<open>gofloat\<close>: a finite result is rounded by \<^const>\<open>fl64\<close> and
  overflows to an infinity at \<^term>\<open>2 ^ 1024\<close>.  Signed zeros are not
  distinguished.
\<close>

definition gofl :: "rat \<Rightarrow> gofloat" where
  "gofl r = (let x = fl64 r in
     if 2 ^ 1024 \<le> x then PosInf else if x \<le> - (2 ^ 1024) then NegInf else Fin x)"

fun gadd :: "gofloat \<Rightarrow> gofloat \<Rightarrow> gofloat" where
  "gadd (Fin a) (Fin b) = gofl (a + b)"
| "gadd NaN _ = NaN"
| "gadd _ NaN = NaN"
| "gadd PosInf NegInf = NaN"
| "gadd NegInf PosInf = NaN"
| "gadd PosInf _ = PosInf"
| "gadd NegInf _ = NegInf"
| "gadd (Fin _) y = y"

fun gneg :: "gofloat \<Rightarrow> gofloat" where
  "gneg (Fin a) = Fin (- a)"
| "gneg PosInf = NegInf"
| "gneg NegInf = PosInf"
| "gneg NaN = NaN"

definition gsub :: "gofloat \<Rightarrow> gofloat \<Rightarrow> gofloat" where
  "gsub x y = gadd x (gneg y)"

definition ginf :: "rat \<Rightarrow> gofloat" where
  "ginf s = (if s = 0 then NaN else if 0 < s then PosInf else NegInf)"

fun gsgn :: "gofloat \<Rightarrow> rat" where
  "gsgn (Fin a) = sgn a"
| "gsgn PosInf = 1"
| "gsgn NegInf = - 1"
| "gsgn NaN = 0"

fun gmul :: "gofloat \<Rightarrow> gofloat \<Rightarrow> gofloat" where
  "gmul (Fin a) (Fin b) = gofl (a * b)"
| "gmul NaN _ = NaN"
| "gmul _ NaN = NaN"
| "gmul x y = ginf (gsgn x * gsgn y)"

text \<open>Division by a finite non-zero constant, the only division on prices.\<close>

fun gdiv_const :: "gofloat \<Rightarrow> rat \<Rightarrow> gofloat" where
  "gdiv_const (Fin a) c = gofl (a / c)"
| "gdiv_const NaN c = NaN"
| "gdiv_const x c = ginf (gsgn x * sgn c)"

fun glt :: "gofloat \<Rightarrow> gofloat \<Rightarrow> bool" where
  "glt (Fin a) (Fin b) \<longleftrightarrow> a < b"
| "glt NaN _ \<longleftrightarrow> False"
| "glt _ NaN \<longleftrightarrow> False"
| "glt NegInf y \<longleftrightarrow> y \<noteq> NegInf"
| "glt PosInf _ \<longleftrightarrow> False"
| "glt (Fin _) y \<longleftrightarrow> y = PosInf"

definition gle :: "gofloat \<Rightarrow> gofloat \<Rightarrow> bool" where
  "gle x y \<longleftrightarrow> glt x y \<or> (x = y \<and> x \<noteq> NaN)"

primrec fin_val :: "gofloat \<Rightarrow> rat" where
  "fin_val (Fin a) = a"
| "fin_val PosInf = 0"
| "fin_val NegInf = 0"
| "fin_val NaN = 0"

definition gfloat_of_int :: "int \<Rightarrow> gofloat" where
  "gfloat_of_int n = gofl (of_int n)"

text \<open>The values that are numbers at least zero, infinity included.\<close>

definition gnonneg :: "gofloat \<Rightarrow> bool" where
  "gnonneg x \<longleftrightarrow> gle (Fin 0) x"

lemma gnonneg_simps [simp]:
  "gnonneg (Fin a) \<longleftrightarrow> 0 \<le> a" "gnonneg PosInf" "\<not> gnonneg NegInf" "\<not> gnonneg NaN"
  by (auto simp: gnonneg_def gle_def)

lemma gnonneg_cases:
  assumes "gnonneg x"
  obtains a where "x = Fin a" and "0 \<le> a" | "x = PosInf"
  using assms by (cases x) auto

lemma gofl_nonneg: "0 \<le> r \<Longrightarrow> gnonneg (gofl r)"
  using fl64_nonneg[of r] by (auto simp: gofl_def Let_def)

lemma gofl_cases: "gofl r = PosInf \<or> gofl r = NegInf \<or> gofl r = Fin (fl64 r)"
  by (simp add: gofl_def Let_def)

lemma gadd_nonneg: "gnonneg x \<Longrightarrow> gnonneg y \<Longrightarrow> gnonneg (gadd x y)"
  by (auto elim!: gnonneg_cases simp: gofl_nonneg)

lemma gdiv_const_nonneg: "gnonneg x \<Longrightarrow> 0 < c \<Longrightarrow> gnonneg (gdiv_const x c)"
  by (auto elim!: gnonneg_cases simp: gofl_nonneg ginf_def)

lemma gmul_fin_nonneg: "0 \<le> a \<Longrightarrow> 0 \<le> b \<Longrightarrow> gnonneg (gmul (Fin a) (Fin b))"
  by (simp add: gofl_nonneg)

text \<open>Monotonicity of the operations on non-negative values.\<close>

lemma gle_refl: "x \<noteq> NaN \<Longrightarrow> gle x x"
  by (simp add: gle_def)

lemma gle_simps [simp]: "gle (Fin a) (Fin b) \<longleftrightarrow> a \<le> b" "gle x PosInf \<longleftrightarrow> x \<noteq> NaN"
  by (auto simp: gle_def) (cases x; auto)+

lemma gle_PosInf_left: "gle PosInf y \<Longrightarrow> y = PosInf"
  by (cases y) (auto simp: gle_def)

lemma gofl_mono:
  assumes "a \<le> b" and "0 \<le> a"
  shows "gle (gofl a) (gofl b)"
  using fl64_mono[OF assms(1)] fl64_nonneg[OF assms(2)] by (auto simp: gofl_def Let_def)

lemma gle_nonneg_cases:
  assumes "gnonneg x" and "gle x y"
  obtains a b where "x = Fin a" and "y = Fin b" and "0 \<le> a" and "a \<le> b" | "y = PosInf"
  using assms by (cases x; cases y) (auto simp: gle_def)

lemma gadd_mono:
  assumes "gnonneg x" and "gle x x'" and "gnonneg y" and "gle y y'"
  shows "gle (gadd x y) (gadd x' y')"
proof -
  have xy': "gnonneg x'" "gnonneg y'"
    using assms by (auto elim!: gle_nonneg_cases)
  have pos: "gadd x y \<noteq> NaN" using gadd_nonneg[OF assms(1,3)] by auto
  show ?thesis
    using assms(1,2)
  proof (cases rule: gle_nonneg_cases)
    case (1 a a')
    show ?thesis using assms(3,4)
    proof (cases rule: gle_nonneg_cases)
      case (1 b b')
      with \<open>x = Fin a\<close> \<open>x' = Fin a'\<close> \<open>0 \<le> a\<close> \<open>a \<le> a'\<close> show ?thesis
        by (simp add: gofl_mono add_mono)
    next
      case 2
      with 1 pos show ?thesis by simp
    qed
  next
    case 2
    then show ?thesis using xy' pos by (auto elim!: gnonneg_cases)
  qed
qed

lemma gdiv_const_mono:
  assumes "gnonneg x" and "gle x y" and "0 < c"
  shows "gle (gdiv_const x c) (gdiv_const y c)"
  using assms(1,2)
proof (cases rule: gle_nonneg_cases)
  case (1 a b)
  then show ?thesis using assms(3) by (simp add: gofl_mono divide_right_mono)
next
  case 2
  have "gdiv_const x c \<noteq> NaN" using gdiv_const_nonneg[OF assms(1,3)] by auto
  then show ?thesis using 2 assms(3) by (simp add: ginf_def)
qed

end
