(* ===== verification/Health.thy ===== *)
theory Health
  imports Prelude Float64
begin

text \<open>
  The health manager (\<open>internal/health\<close>): one circuit breaker per deployment with
  per-capability scopes, one incident circuit per provider, moving averages and
  latency histograms.

  A \<open>Manager\<close> method is a function on the record \<open>Manager\<close>. The mutex makes each
  locked section atomic, so a method is its locked section; the three methods that
  release a read lock before taking the write lock (\<open>GetWithScopes\<close>,
  \<open>ProviderAvailable\<close>, \<open>Snapshot\<close>) are given by their two sections and their composition. The
  clock is an argument: one argument for each reading of \<open>m.now()\<close> that the method
  takes. Status strings are a datatype; \<open>NoStatus\<close> is the empty string of a zero
  \<open>State\<close>. A \<open>nil\<close> map or slice is the empty one.
\<close>

section \<open>Data\<close>

datatype Status = NoStatus | Unknown | Healthy | Degraded | HalfOpen | Cooldown | Retired

record ScopeState =
  ssStatus :: Status
  ssSuccesses :: int
  ssFailures :: int
  ssConsecutiveFailures :: int
  ssLastChecked :: gotime
  ssLastSuccess :: gotime
  ssLastFailure :: gotime
  ssLastError :: string
  ssCooldownUntil :: gotime

record ProviderState =
  psProvider :: string
  psStatus :: Status
  psEvidence :: int
  psLastChecked :: gotime
  psLastSuccess :: gotime
  psLastFailure :: gotime
  psLastError :: string
  psCooldownUntil :: gotime

record State =
  Deployment :: string
  hsStatus :: Status
  Successes :: int
  Failures :: int
  ConsecutiveFailures :: int
  EWMALatencyMS :: rat
  EWMATTFTMS :: rat
  EWMAFailureRate :: rat
  LastChecked :: gotime
  LastSuccess :: gotime
  LastFailure :: gotime
  LastError :: string
  LastErrorClass :: string
  CooldownUntil :: gotime
  NextRetryAt :: gotime
  RecoveryFailures :: int
  RecoverySuccesses :: int
  LastProbeDurationMS :: int
  Scopes :: "(string, ScopeState) fmap"

definition zero_ScopeState :: ScopeState where
  "zero_ScopeState = \<lparr>ssStatus = NoStatus, ssSuccesses = 0, ssFailures = 0,
     ssConsecutiveFailures = 0, ssLastChecked = 0, ssLastSuccess = 0, ssLastFailure = 0,
     ssLastError = [], ssCooldownUntil = 0\<rparr>"

definition zero_ProviderState :: ProviderState where
  "zero_ProviderState = \<lparr>psProvider = [], psStatus = NoStatus, psEvidence = 0,
     psLastChecked = 0, psLastSuccess = 0, psLastFailure = 0, psLastError = [],
     psCooldownUntil = 0\<rparr>"

definition zero_State :: State where
  "zero_State = \<lparr>Deployment = [], hsStatus = NoStatus, Successes = 0, Failures = 0,
     ConsecutiveFailures = 0, EWMALatencyMS = 0, EWMATTFTMS = 0, EWMAFailureRate = 0,
     LastChecked = 0, LastSuccess = 0, LastFailure = 0, LastError = [], LastErrorClass = [],
     CooldownUntil = 0, NextRetryAt = 0, RecoveryFailures = 0, RecoverySuccesses = 0,
     LastProbeDurationMS = 0, Scopes = fmempty\<rparr>"

subsection \<open>Histograms\<close>

record Histogram =
  Buckets :: "64 word list"
  SumMS :: rat
  Count :: "64 word"

record deploymentHistograms =
  Latency :: Histogram
  TTFT :: Histogram

definition LatencyHistogramBoundsMS :: "rat list" where
  "LatencyHistogramBoundsMS =
     [5, 10, 25, 50, 100, 250, 500, 1000, 2000, 4000, 8000, 16000, 32000, 64000]"

definition zero_Histogram :: Histogram where
  "zero_Histogram = \<lparr>Buckets = [], SumMS = 0, Count = 0\<rparr>"

definition zero_histograms :: deploymentHistograms where
  "zero_histograms = \<lparr>Latency = zero_Histogram, TTFT = zero_Histogram\<rparr>"

text \<open>The binary search of \<open>sort.Search\<close>, on the half-open range from \<open>i\<close> to \<open>j\<close>.\<close>

function search_range :: "(nat \<Rightarrow> bool) \<Rightarrow> nat \<Rightarrow> nat \<Rightarrow> nat" where
  "search_range f i j =
     (if i < j then
        let h = (i + j) div 2
        in if \<not> f h then search_range f (Suc h) j else search_range f i h
      else i)"
  by pat_completeness auto
termination
  by (relation "measure (\<lambda>(f, i, j). j - i)") auto

declare search_range.simps [simp del]

definition Search :: "nat \<Rightarrow> (nat \<Rightarrow> bool) \<Rightarrow> nat" where
  "Search n f = search_range f 0 n"

definition Observe :: "rat \<Rightarrow> Histogram \<Rightarrow> Histogram" where
  "Observe ms0 h =
     (let ms = (if ms0 < 0 then 0 else ms0);
          bs = (if Buckets h = [] then replicate (length LatencyHistogramBoundsMS + 1) 0
                else Buckets h);
          i = Search (length LatencyHistogramBoundsMS) (\<lambda>i. ms \<le> LatencyHistogramBoundsMS ! i)
      in h\<lparr>Buckets := bs[i := bs ! i + 1], SumMS := fadd (SumMS h) ms, Count := Count h + 1\<rparr>)"

fun cumulate :: "64 word \<Rightarrow> nat \<Rightarrow> 64 word list \<Rightarrow> 64 word list" where
  "cumulate run 0 bs = []"
| "cumulate run (Suc n) bs =
     (let run' = (case bs of [] \<Rightarrow> run | b # _ \<Rightarrow> run + b)
      in run' # cumulate run' n (tl bs))"

definition Cumulative :: "Histogram \<Rightarrow> 64 word list" where
  "Cumulative h = cumulate 0 (length LatencyHistogramBoundsMS) (Buckets h) @ [Count h]"

subsection \<open>The manager\<close>

record Manager =
  mThreshold :: int
  mCooldown :: duration
  mScopeThreshold :: int
  mScopeCooldown :: duration
  mProviderThreshold :: int
  mProviderWindow :: duration
  mProviderCooldown :: duration
  mStates :: "(string, State) fmap"
  mProviders :: "(string, ProviderState) fmap"
  mProviderEvidence :: "(string, (string, gotime) fmap) fmap"
  mHistograms :: "(string, deploymentHistograms) fmap"

definition New :: "int \<Rightarrow> duration \<Rightarrow> Manager" where
  "New threshold cooldown = \<lparr>
     mThreshold = (if threshold < 1 then 1 else threshold),
     mCooldown = (if cooldown \<le> 0 then hour else cooldown),
     mScopeThreshold = 2, mScopeCooldown = 5 * minute,
     mProviderThreshold = 3, mProviderWindow = 20 * second, mProviderCooldown = 30 * second,
     mStates = fmempty, mProviders = fmempty, mProviderEvidence = fmempty,
     mHistograms = fmempty\<rparr>"

text \<open>\<open>m.states[id]\<close> read and written.\<close>

definition state_of :: "Manager \<Rightarrow> string \<Rightarrow> State" where
  "state_of m did = fm_get zero_State (mStates m) did"

definition put_state :: "string \<Rightarrow> State \<Rightarrow> Manager \<Rightarrow> Manager" where
  "put_state did s m = m\<lparr>mStates := fmupd did s (mStates m)\<rparr>"

definition provider_of :: "Manager \<Rightarrow> string \<Rightarrow> ProviderState" where
  "provider_of m did = fm_get zero_ProviderState (mProviders m) did"

definition put_provider :: "string \<Rightarrow> ProviderState \<Rightarrow> Manager \<Rightarrow> Manager" where
  "put_provider did st m = m\<lparr>mProviders := fmupd did st (mProviders m)\<rparr>"

definition histogramsFor :: "Manager \<Rightarrow> string \<Rightarrow> deploymentHistograms" where
  "histogramsFor m did = fm_get zero_histograms (mHistograms m) did"

definition observe_latency :: "string \<Rightarrow> rat \<Rightarrow> Manager \<Rightarrow> Manager" where
  "observe_latency did ms m =
     (let h = histogramsFor m did
      in m\<lparr>mHistograms := fmupd did (h\<lparr>Latency := Observe ms (Latency h)\<rparr>) (mHistograms m)\<rparr>)"

definition observe_ttft :: "string \<Rightarrow> rat \<Rightarrow> Manager \<Rightarrow> Manager" where
  "observe_ttft did ms m =
     (let h = histogramsFor m did
      in m\<lparr>mHistograms := fmupd did (h\<lparr>TTFT := Observe ms (TTFT h)\<rparr>) (mHistograms m)\<rparr>)"

definition Histograms :: "string \<Rightarrow> Manager \<Rightarrow> (Histogram \<times> Histogram) option" where
  "Histograms did m = map_option (\<lambda>h. (Latency h, TTFT h)) (fmlookup (mHistograms m) did)"

section \<open>Operations\<close>

subsection \<open>Normalisation and reads\<close>

definition cooldown_over :: "Status \<Rightarrow> gotime \<Rightarrow> gotime \<Rightarrow> bool" where
  "cooldown_over st until now \<longleftrightarrow> st = Cooldown \<and> \<not> IsZero until \<and> After now until"

definition normalizeGlobal :: "State \<Rightarrow> gotime \<Rightarrow> State" where
  "normalizeGlobal s now =
     (if cooldown_over (hsStatus s) (CooldownUntil s) now
      then s\<lparr>hsStatus := HalfOpen, ConsecutiveFailures := 0, RecoveryFailures := 0,
             LastError := [], CooldownUntil := 0\<rparr>
      else s)"

definition normalizeScope :: "gotime \<Rightarrow> ScopeState \<Rightarrow> ScopeState" where
  "normalizeScope now st =
     (if cooldown_over (ssStatus st) (ssCooldownUntil st) now
      then st\<lparr>ssStatus := Unknown, ssConsecutiveFailures := 0, ssLastError := [],
              ssCooldownUntil := 0\<rparr>
      else st)"

definition normalizeScopes :: "State \<Rightarrow> gotime \<Rightarrow> State" where
  "normalizeScopes s now = s\<lparr>Scopes := fmmap (normalizeScope now) (Scopes s)\<rparr>"

definition stateNeedsNormalization :: "State \<Rightarrow> gotime \<Rightarrow> bool" where
  "stateNeedsNormalization s now \<longleftrightarrow>
     cooldown_over (hsStatus s) (CooldownUntil s) now \<or>
     fBex (fmran (Scopes s)) (\<lambda>st. cooldown_over (ssStatus st) (ssCooldownUntil st) now)"

definition scopesReadyState :: "State \<Rightarrow> string list \<Rightarrow> bool" where
  "scopesReadyState s scopes \<longleftrightarrow>
     list_all (\<lambda>scope. case fmlookup (Scopes s) scope of
                 Some st \<Rightarrow> ssStatus st \<noteq> Cooldown | None \<Rightarrow> True) scopes"

definition unknown_state :: "string \<Rightarrow> State" where
  "unknown_state did = zero_State\<lparr>Deployment := did, hsStatus := Unknown\<rparr>"

text \<open>
  \<open>GetWithScopes\<close> answers under the read lock when nothing has to be normalised
  (\<open>Some\<close>); otherwise it releases the lock and runs its second section under the write
  lock, on whatever state the manager has by then.
\<close>

definition GetWithScopes_read ::
    "string \<Rightarrow> string list \<Rightarrow> gotime \<Rightarrow> Manager \<Rightarrow> (State \<times> bool) option" where
  "GetWithScopes_read did scopes now m =
     (case fmlookup (mStates m) did of
        None \<Rightarrow> Some (unknown_state did, True)
      | Some s \<Rightarrow>
          if \<not> stateNeedsNormalization s now then Some (s, scopesReadyState s scopes) else None)"

definition GetWithScopes_write ::
    "string \<Rightarrow> string list \<Rightarrow> gotime \<Rightarrow> Manager \<Rightarrow> (State \<times> bool) \<times> Manager" where
  "GetWithScopes_write did scopes now m =
     (case fmlookup (mStates m) did of
        None \<Rightarrow> ((unknown_state did, True), m)
      | Some s0 \<Rightarrow>
          let s = normalizeScopes (normalizeGlobal s0 now) now
          in ((s, scopesReadyState s scopes), put_state did s m))"

definition GetWithScopes ::
    "string \<Rightarrow> string list \<Rightarrow> gotime \<Rightarrow> Manager \<Rightarrow> (State \<times> bool) \<times> Manager" where
  "GetWithScopes did scopes now m =
     (case GetWithScopes_read did scopes now m of
        Some r \<Rightarrow> (r, m)
      | None \<Rightarrow> GetWithScopes_write did scopes now m)"

definition Get :: "string \<Rightarrow> gotime \<Rightarrow> Manager \<Rightarrow> State \<times> Manager" where
  "Get did now m = (let ((s, _), m') = GetWithScopes did [] now m in (s, m'))"

definition ScopesReady :: "string \<Rightarrow> string list \<Rightarrow> gotime \<Rightarrow> Manager \<Rightarrow> bool \<times> Manager" where
  "ScopesReady did scopes now m =
     (if scopes = [] then (True, m)
      else let ((_, ready), m') = GetWithScopes did scopes now m in (ready, m'))"

subsection \<open>Moving averages\<close>

definition updateEWMA :: "State \<Rightarrow> duration \<Rightarrow> State" where
  "updateEWMA s latency =
     (let ms = float_of_int (Milliseconds latency)
      in if ms \<le> 0 then s
         else if EWMALatencyMS s = 0 then s\<lparr>EWMALatencyMS := ms\<rparr>
         else s\<lparr>EWMALatencyMS := ewma (EWMALatencyMS s) ms\<rparr>)"

definition updateFailureEWMA :: "State \<Rightarrow> bool \<Rightarrow> State" where
  "updateFailureEWMA s failed =
     (let sample = (if failed then 1 else 0)
      in if i64 (Successes s + Failures s) \<le> 1 then s\<lparr>EWMAFailureRate := sample\<rparr>
         else s\<lparr>EWMAFailureRate := ewma (EWMAFailureRate s) sample\<rparr>)"

subsection \<open>Deployment observations\<close>

definition RecordTTFT :: "string \<Rightarrow> duration \<Rightarrow> Manager \<Rightarrow> Manager" where
  "RecordTTFT did ttft m =
     (let ms = float_of_int (Milliseconds ttft)
      in if ms \<le> 0 then m
         else
           let st = (state_of m did)\<lparr>Deployment := did\<rparr>;
               st = (if EWMATTFTMS st = 0 then st\<lparr>EWMATTFTMS := ms\<rparr>
                     else st\<lparr>EWMATTFTMS := ewma (EWMATTFTMS st) ms\<rparr>)
           in observe_ttft did ms (put_state did st m))"

definition RecordSuccess :: "string \<Rightarrow> duration \<Rightarrow> gotime \<Rightarrow> Manager \<Rightarrow> Manager" where
  "RecordSuccess did latency now m0 =
     (let s = (state_of m0 did)\<lparr>Deployment := did\<rparr>;
          s = s\<lparr>Successes := i64 (Successes s + 1), LastChecked := now, LastSuccess := now\<rparr>;
          s = updateEWMA s latency;
          m = observe_latency did (float_of_int (Milliseconds latency)) m0;
          s = updateFailureEWMA s False
      in if hsStatus s = Retired then put_state did s m
         else if hsStatus s = Cooldown \<and> \<not> IsZero (CooldownUntil s) \<and>
                 Before (LastChecked s) (CooldownUntil s)
         then put_state did s m
         else put_state did
           (s\<lparr>ConsecutiveFailures := 0, RecoveryFailures := 0, RecoverySuccesses := 0,
              hsStatus := Healthy, LastError := [], LastErrorClass := [], CooldownUntil := 0,
              NextRetryAt := 0, LastProbeDurationMS := Milliseconds latency\<rparr>) m)"

definition RecordFailure ::
    "string \<Rightarrow> string \<Rightarrow> duration \<Rightarrow> gotime \<Rightarrow> gotime \<Rightarrow> Manager \<Rightarrow> Manager" where
  "RecordFailure did errMsg latency now now' m0 =
     (let s = (state_of m0 did)\<lparr>Deployment := did\<rparr>
      in if hsStatus s = Retired then put_state did s m0
         else
           let s = s\<lparr>Failures := i64 (Failures s + 1)\<rparr>;
               s = updateFailureEWMA s True;
               s = s\<lparr>ConsecutiveFailures := i64 (ConsecutiveFailures s + 1),
                     LastChecked := now, LastFailure := now, LastError := errMsg\<rparr>;
               s = updateEWMA s latency;
               m = observe_latency did (float_of_int (Milliseconds latency)) m0
           in if hsStatus s = Cooldown \<and> \<not> IsZero (CooldownUntil s) \<and>
                 Before (LastChecked s) (CooldownUntil s)
              then put_state did s m
              else if hsStatus s = HalfOpen \<or> ConsecutiveFailures s \<ge> mThreshold m
              then put_state did (s\<lparr>hsStatus := Cooldown, CooldownUntil := Add now' (mCooldown m)\<rparr>) m
              else put_state did (s\<lparr>hsStatus := Degraded, CooldownUntil := 0\<rparr>) m)"

definition Quarantine ::
    "string \<Rightarrow> string \<Rightarrow> duration \<Rightarrow> gotime \<Rightarrow> Manager \<Rightarrow> Manager" where
  "Quarantine did reason latency now m =
     (let s = (state_of m did)\<lparr>Deployment := did\<rparr>
      in if hsStatus s = Retired then put_state did s m
         else
           let s = s\<lparr>Failures := i64 (Failures s + 1)\<rparr>;
               s = updateFailureEWMA s True;
               s = s\<lparr>ConsecutiveFailures := i64 (ConsecutiveFailures s + 1),
                     RecoveryFailures := 0, hsStatus := Degraded, LastChecked := now,
                     LastFailure := now, LastError := reason, CooldownUntil := 0\<rparr>
           in put_state did (updateEWMA s latency) m)"

definition RecordProbeFailure ::
    "string \<Rightarrow> string \<Rightarrow> string \<Rightarrow> duration \<Rightarrow> gotime \<Rightarrow> Manager \<Rightarrow> Manager" where
  "RecordProbeFailure did reason cls latency now m =
     (let s = (state_of m did)\<lparr>Deployment := did\<rparr>
      in if hsStatus s = Retired then put_state did s m
         else
           let s = s\<lparr>Failures := i64 (Failures s + 1)\<rparr>;
               s = updateFailureEWMA s True;
               s = s\<lparr>ConsecutiveFailures := i64 (ConsecutiveFailures s + 1),
                     RecoveryFailures := i64 (RecoveryFailures s + 1), hsStatus := Degraded,
                     LastChecked := now, LastFailure := now, LastError := reason\<rparr>;
               s = (if cls \<noteq> [] then s\<lparr>LastErrorClass := cls\<rparr> else s);
               s = s\<lparr>CooldownUntil := 0, NextRetryAt := 0,
                     LastProbeDurationMS := Milliseconds latency\<rparr>
           in put_state did (updateEWMA s latency) m)"

definition RecordRecoveryFailure ::
    "string \<Rightarrow> string \<Rightarrow> duration \<Rightarrow> gotime \<Rightarrow> Manager \<Rightarrow> Manager" where
  "RecordRecoveryFailure did reason latency now m = RecordProbeFailure did reason [] latency now m"

definition RecordRecoverySuccess :: "string \<Rightarrow> duration \<Rightarrow> gotime \<Rightarrow> Manager \<Rightarrow> Manager" where
  "RecordRecoverySuccess did latency now m =
     (let s = (state_of m did)\<lparr>Deployment := did\<rparr>
      in if hsStatus s = Retired \<or> hsStatus s = Healthy then put_state did s m
         else
           let s = s\<lparr>Successes := i64 (Successes s + 1),
                     RecoverySuccesses := i64 (RecoverySuccesses s + 1),
                     LastChecked := now, LastSuccess := now,
                     LastProbeDurationMS := Milliseconds latency\<rparr>;
               s = updateEWMA s latency;
               s = updateFailureEWMA s False;
               s = (if hsStatus s \<noteq> HalfOpen then s\<lparr>hsStatus := HalfOpen\<rparr> else s)
           in put_state did (s\<lparr>LastError := [], LastErrorClass := [], NextRetryAt := 0\<rparr>) m)"

definition SetNextRetry :: "string \<Rightarrow> gotime \<Rightarrow> Manager \<Rightarrow> Manager" where
  "SetNextRetry did t m =
     (let s = state_of m did
      in if hsStatus s = Retired then put_state did s m
         else put_state did (s\<lparr>Deployment := did, NextRetryAt := t\<rparr>) m)"

definition SetErrorClass :: "string \<Rightarrow> string \<Rightarrow> Manager \<Rightarrow> Manager" where
  "SetErrorClass did cls m =
     (if cls = [] then m
      else let s = state_of m did
           in if hsStatus s = Retired then put_state did s m
              else put_state did (s\<lparr>Deployment := did, LastErrorClass := cls\<rparr>) m)"

definition EnterCooldown ::
    "string \<Rightarrow> string \<Rightarrow> duration \<Rightarrow> gotime \<Rightarrow> gotime \<Rightarrow> Manager \<Rightarrow> Manager" where
  "EnterCooldown did reason d0 now now' m =
     (if hsStatus (state_of m did) = Retired then m
      else
        let d = (if d0 \<le> 0 then mCooldown m else d0);
            s = (state_of m did)\<lparr>Deployment := did, hsStatus := Cooldown, LastChecked := now,
                  LastError := reason, CooldownUntil := Add now' d\<rparr>
        in put_state did s m)"

definition ForceCooldown ::
    "string \<Rightarrow> string \<Rightarrow> duration \<Rightarrow> gotime \<Rightarrow> gotime \<Rightarrow> Manager \<Rightarrow> Manager" where
  "ForceCooldown did reason d0 now now' m =
     (if hsStatus (state_of m did) = Retired then m
      else
        let d = (if d0 \<le> 0 then mCooldown m else d0);
            s = (state_of m did)\<lparr>Deployment := did\<rparr>;
            s = s\<lparr>Failures := i64 (Failures s + 1)\<rparr>;
            s = updateFailureEWMA s True;
            s = s\<lparr>ConsecutiveFailures := i64 (ConsecutiveFailures s + 1), hsStatus := Cooldown,
                  LastChecked := now, LastFailure := now, LastError := reason,
                  CooldownUntil := Add now' d\<rparr>
        in put_state did s m)"

definition Retire :: "string \<Rightarrow> string \<Rightarrow> string \<Rightarrow> gotime \<Rightarrow> Manager \<Rightarrow> Manager" where
  "Retire did reason errorClass now m =
     (let s = state_of m did
      in put_state did
           (s\<lparr>Deployment := did, hsStatus := Retired, Failures := i64 (Failures s + 1),
              ConsecutiveFailures := i64 (ConsecutiveFailures s + 1), LastChecked := now,
              LastFailure := now, LastError := reason, LastErrorClass := errorClass,
              CooldownUntil := 0, RecoveryFailures := 0\<rparr>) m)"

definition ApplySharedCooldown ::
    "string \<Rightarrow> gotime \<Rightarrow> string \<Rightarrow> gotime \<Rightarrow> Manager \<Rightarrow> bool \<times> Manager" where
  "ApplySharedCooldown did until reason now m =
     (if did = [] \<or> IsZero until then (False, m)
      else if \<not> After until now then (False, m)
      else
        let s = state_of m did
        in if hsStatus s = Retired then (False, m)
           else if hsStatus s = Cooldown \<and> \<not> After until (CooldownUntil s) then (False, m)
           else (True, put_state did
                  (s\<lparr>Deployment := did, hsStatus := Cooldown, LastChecked := now,
                     LastError := reason, CooldownUntil := until\<rparr>) m))"

subsection \<open>Capability scopes\<close>

definition scope_success :: "gotime \<Rightarrow> ScopeState \<Rightarrow> ScopeState" where
  "scope_success now st =
     st\<lparr>ssStatus := Healthy, ssSuccesses := i64 (ssSuccesses st + 1),
        ssConsecutiveFailures := 0, ssLastChecked := now, ssLastSuccess := now,
        ssLastError := [], ssCooldownUntil := 0\<rparr>"

fun scope_successes ::
    "gotime \<Rightarrow> string list \<Rightarrow> (string, ScopeState) fmap \<Rightarrow> (string, ScopeState) fmap" where
  "scope_successes now [] scs = scs"
| "scope_successes now (scope # rest) scs =
     (if scope = [] then scope_successes now rest scs
      else scope_successes now rest
             (fmupd scope (scope_success now (fm_get zero_ScopeState scs scope)) scs))"

definition RecordScopeSuccess :: "string \<Rightarrow> string list \<Rightarrow> gotime \<Rightarrow> Manager \<Rightarrow> Manager" where
  "RecordScopeSuccess did scopes now m =
     (if scopes = [] then m
      else let s = (state_of m did)\<lparr>Deployment := did\<rparr>
           in put_state did (s\<lparr>Scopes := scope_successes now scopes (Scopes s)\<rparr>) m)"

definition scope_failure :: "int \<Rightarrow> duration \<Rightarrow> string \<Rightarrow> gotime \<Rightarrow> ScopeState \<Rightarrow> ScopeState" where
  "scope_failure scopeThreshold scopeCooldown reason now st0 =
     (let st = st0\<lparr>ssFailures := i64 (ssFailures st0 + 1),
                   ssConsecutiveFailures := i64 (ssConsecutiveFailures st0 + 1),
                   ssLastChecked := now, ssLastFailure := now, ssLastError := reason\<rparr>
      in if ssConsecutiveFailures st \<ge> scopeThreshold
         then st\<lparr>ssStatus := Cooldown, ssCooldownUntil := Add now scopeCooldown\<rparr>
         else st\<lparr>ssStatus := Degraded\<rparr>)"

fun scope_failures ::
    "int \<Rightarrow> duration \<Rightarrow> string \<Rightarrow> gotime \<Rightarrow> string list \<Rightarrow> (string, ScopeState) fmap
       \<Rightarrow> (string, ScopeState) fmap" where
  "scope_failures th cd reason now [] scs = scs"
| "scope_failures th cd reason now (scope # rest) scs =
     (if scope = [] then scope_failures th cd reason now rest scs
      else scope_failures th cd reason now rest
             (fmupd scope (scope_failure th cd reason now (fm_get zero_ScopeState scs scope)) scs))"

definition RecordScopeFailure ::
    "string \<Rightarrow> string list \<Rightarrow> string \<Rightarrow> gotime \<Rightarrow> Manager \<Rightarrow> Manager" where
  "RecordScopeFailure did scopes reason now m =
     (if scopes = [] then m
      else let s = (state_of m did)\<lparr>Deployment := did\<rparr>
           in put_state did
                (s\<lparr>Scopes := scope_failures (mScopeThreshold m) (mScopeCooldown m) reason now
                               scopes (Scopes s)\<rparr>) m)"

subsection \<open>Provider incident circuits\<close>

definition normalizeProviderState :: "ProviderState \<Rightarrow> gotime \<Rightarrow> ProviderState" where
  "normalizeProviderState st now =
     (if cooldown_over (psStatus st) (psCooldownUntil st) now
      then st\<lparr>psStatus := HalfOpen, psEvidence := 0, psLastError := [], psCooldownUntil := 0\<rparr>
      else st)"

definition ProviderAvailable_read :: "string \<Rightarrow> gotime \<Rightarrow> Manager \<Rightarrow> bool option" where
  "ProviderAvailable_read did now m =
     (case fmlookup (mProviders m) did of
        None \<Rightarrow> Some True
      | Some st \<Rightarrow>
          if psStatus st \<noteq> Cooldown \<or> IsZero (psCooldownUntil st) \<or>
             Before now (psCooldownUntil st)
          then Some (psStatus st \<noteq> Cooldown) else None)"

definition ProviderAvailable_write :: "string \<Rightarrow> gotime \<Rightarrow> Manager \<Rightarrow> bool \<times> Manager" where
  "ProviderAvailable_write did now m =
     (case fmlookup (mProviders m) did of
        None \<Rightarrow> (True, m)
      | Some st0 \<Rightarrow>
          let st = normalizeProviderState st0 now
          in (psStatus st \<noteq> Cooldown, put_provider did st m))"

definition ProviderAvailable :: "string \<Rightarrow> gotime \<Rightarrow> Manager \<Rightarrow> bool \<times> Manager" where
  "ProviderAvailable did now m =
     (if did = [] then (True, m)
      else case ProviderAvailable_read did now m of
             Some b \<Rightarrow> (b, m)
           | None \<Rightarrow> ProviderAvailable_write did now m)"

definition RecordProviderFailure ::
    "string \<Rightarrow> string \<Rightarrow> string \<Rightarrow> gotime \<Rightarrow> Manager \<Rightarrow> Manager" where
  "RecordProviderFailure providerID deploymentID0 reason now m =
     (if providerID = [] then m
      else
        let deploymentID = (if deploymentID0 = [] then providerID else deploymentID0);
            st = normalizeProviderState (provider_of m providerID) now;
            st = st\<lparr>psProvider := providerID, psLastChecked := now, psLastFailure := now,
                    psLastError := reason\<rparr>
        in if psStatus st = Cooldown \<and> \<not> IsZero (psCooldownUntil st) \<and>
              Before now (psCooldownUntil st)
           then put_provider providerID st m
           else if psStatus st = HalfOpen
           then put_provider providerID
                  (st\<lparr>psStatus := Cooldown, psEvidence := 1,
                      psCooldownUntil := Add now (mProviderCooldown m)\<rparr>)
                  (m\<lparr>mProviderEvidence :=
                       fmupd providerID (fmupd deploymentID now fmempty) (mProviderEvidence m)\<rparr>)
           else
             let ev0 = fm_get fmempty (mProviderEvidence m) providerID;
                 ev1 = fmfilter (\<lambda>did. \<not> Sub now (fm_get 0 ev0 did) > mProviderWindow m) ev0;
                 ev = fmupd deploymentID now ev1;
                 st = st\<lparr>psEvidence := int (fm_len ev)\<rparr>;
                 st = (if psEvidence st \<ge> mProviderThreshold m
                       then st\<lparr>psStatus := Cooldown,
                               psCooldownUntil := Add now (mProviderCooldown m)\<rparr>
                       else st\<lparr>psStatus := Degraded, psCooldownUntil := 0\<rparr>)
             in put_provider providerID st
                  (m\<lparr>mProviderEvidence := fmupd providerID ev (mProviderEvidence m)\<rparr>))"

definition RecordProviderSuccess :: "string \<Rightarrow> gotime \<Rightarrow> Manager \<Rightarrow> Manager" where
  "RecordProviderSuccess providerID now m =
     (if providerID = [] then m
      else
        let st = (provider_of m providerID)\<lparr>psProvider := providerID, psLastChecked := now,
                   psLastSuccess := now\<rparr>
        in if psStatus st = Cooldown \<and> \<not> IsZero (psCooldownUntil st) \<and>
              Before now (psCooldownUntil st)
           then put_provider providerID st m
           else put_provider providerID
                  (st\<lparr>psStatus := Healthy, psEvidence := 0, psLastError := [],
                      psCooldownUntil := 0\<rparr>)
                  (m\<lparr>mProviderEvidence := fmdrop providerID (mProviderEvidence m)\<rparr>))"

subsection \<open>Snapshots, retention and configuration\<close>

definition ProviderSnapshot ::
    "(string fset \<Rightarrow> string list) \<Rightarrow> gotime \<Rightarrow> Manager \<Rightarrow> ProviderState list \<times> Manager" where
  "ProviderSnapshot iter now m =
     (let ps = fmmap (\<lambda>st. normalizeProviderState st now) (mProviders m)
      in (map (fm_get zero_ProviderState ps) (iter (fmdom ps)), m\<lparr>mProviders := ps\<rparr>))"

text \<open>\<open>Snapshot\<close> reads the clock again in its second section.\<close>

definition Snapshot_read :: "(string fset \<Rightarrow> string list) \<Rightarrow> gotime \<Rightarrow> Manager \<Rightarrow> State list option" where
  "Snapshot_read iter now m =
     (if \<not> fBex (fmran (mStates m)) (\<lambda>s. stateNeedsNormalization s now)
      then Some (map (state_of m) (iter (fmdom (mStates m)))) else None)"

definition Snapshot_write :: "(string fset \<Rightarrow> string list) \<Rightarrow> gotime \<Rightarrow> Manager \<Rightarrow> State list \<times> Manager" where
  "Snapshot_write iter now m =
     (let m' = m\<lparr>mStates := fmmap (\<lambda>s. normalizeScopes (normalizeGlobal s now) now) (mStates m)\<rparr>
      in (map (state_of m') (iter (fmdom (mStates m'))), m'))"

definition Snapshot ::
    "(string fset \<Rightarrow> string list) \<Rightarrow> gotime \<Rightarrow> gotime \<Rightarrow> Manager \<Rightarrow> State list \<times> Manager" where
  "Snapshot iter now now' m =
     (case Snapshot_read iter now m of
        Some out \<Rightarrow> (out, m)
      | None \<Rightarrow> Snapshot_write iter now' m)"

lemmas Snapshot_sections = Snapshot_def Snapshot_read_def Snapshot_write_def

definition Invalidate :: "string \<Rightarrow> Manager \<Rightarrow> Manager" where
  "Invalidate did m = put_state did (unknown_state did) m"

definition Retain :: "string fset \<Rightarrow> Manager \<Rightarrow> Manager" where
  "Retain valid m = m\<lparr>mStates := fmfilter (\<lambda>did. did |\<in>| valid) (mStates m)\<rparr>"

definition RetainProviders :: "string fset \<Rightarrow> Manager \<Rightarrow> Manager" where
  "RetainProviders valid m =
     m\<lparr>mProviders := fmfilter (\<lambda>did. did |\<in>| valid) (mProviders m),
       mProviderEvidence :=
         fmfilter (\<lambda>did. \<not> (fm_has (mProviders m) did \<and> did |\<notin>| valid)) (mProviderEvidence m)\<rparr>"

definition InvalidateProvider :: "string \<Rightarrow> Manager \<Rightarrow> Manager" where
  "InvalidateProvider did m =
     (if did = [] then m
      else m\<lparr>mProviders := fmdrop did (mProviders m),
             mProviderEvidence := fmdrop did (mProviderEvidence m)\<rparr>)"

definition ConfigureAdvanced ::
    "int \<Rightarrow> duration \<Rightarrow> int \<Rightarrow> duration \<Rightarrow> Manager \<Rightarrow> Manager" where
  "ConfigureAdvanced threshold cooldown scopeThreshold scopeCooldown m =
     m\<lparr>mThreshold := (if threshold < 1 then 1 else threshold),
       mCooldown := (if cooldown \<le> 0 then hour else cooldown),
       mScopeThreshold := (if scopeThreshold < 1 then 2 else scopeThreshold),
       mScopeCooldown := (if scopeCooldown \<le> 0 then 5 * minute else scopeCooldown)\<rparr>"

definition Configure :: "int \<Rightarrow> duration \<Rightarrow> Manager \<Rightarrow> Manager" where
  "Configure threshold cooldown m =
     ConfigureAdvanced threshold cooldown (mScopeThreshold m) (mScopeCooldown m) m"

definition ConfigureProviderIncidents :: "int \<Rightarrow> duration \<Rightarrow> duration \<Rightarrow> Manager \<Rightarrow> Manager" where
  "ConfigureProviderIncidents threshold window cooldown m =
     m\<lparr>mProviderThreshold := (if threshold < 2 then 2 else threshold),
       mProviderWindow := (if window \<le> 0 then 20 * second else window),
       mProviderCooldown := (if cooldown \<le> 0 then 30 * second else cooldown)\<rparr>"

subsection \<open>The admin vocabulary\<close>

definition CircuitStateFor :: "Status \<Rightarrow> string" where
  "CircuitStateFor s =
     (case s of Cooldown \<Rightarrow> ''OPEN'' | Retired \<Rightarrow> ''OPEN'' | HalfOpen \<Rightarrow> ''HALF_OPEN''
      | _ \<Rightarrow> ''CLOSED'')"

definition RichStateFor :: "State \<Rightarrow> string" where
  "RichStateFor st =
     (case hsStatus st of
        Healthy \<Rightarrow> ''HEALTHY'' | Degraded \<Rightarrow> ''DEGRADED'' | HalfOpen \<Rightarrow> ''RECOVERING''
      | Cooldown \<Rightarrow> ''COOLDOWN'' | Retired \<Rightarrow> ''DISABLED''
      | _ \<Rightarrow> if IsZero (LastChecked st) then ''UNKNOWN'' else ''CHECKING'')"

end
