(* ===== verification/HealthInvariant.thy ===== *)
theory HealthInvariant
  imports Health
begin

text \<open>
  The invariant of the health manager. The manager's methods are the constructors of
  \<open>health_op\<close>; \<open>health_step\<close> is one method call at a later clock reading, and
  \<open>health_reachable\<close> the states any interleaving of calls can produce. The invariant
  \<open>wf_manager\<close> holds in all of them (\<open>reachable_wf\<close>).
\<close>

section \<open>Method calls as steps\<close>

datatype health_op =
    OpGetWithScopes string "string list"
  | OpProviderAvailable string
  | OpRecordTTFT string duration
  | OpRecordSuccess string duration
  | OpRecordFailure string string duration
  | OpQuarantine string string duration
  | OpRecordProbeFailure string string string duration
  | OpRecordRecoverySuccess string duration
  | OpSetNextRetry string gotime
  | OpSetErrorClass string string
  | OpEnterCooldown string string duration
  | OpForceCooldown string string duration
  | OpRetire string string string
  | OpApplySharedCooldown string gotime string
  | OpRecordScopeSuccess string "string list"
  | OpRecordScopeFailure string "string list" string
  | OpRecordProviderFailure string string string
  | OpRecordProviderSuccess string
  | OpSnapshot
  | OpProviderSnapshot
  | OpInvalidate string
  | OpRetain "string fset"
  | OpRetainProviders "string fset"
  | OpInvalidateProvider string
  | OpConfigureAdvanced int duration int duration
  | OpConfigureProviderIncidents int duration duration

text \<open>
  The effect of a call that reads the clock at \<open>t\<close> and, where the method reads it twice,
  again at \<open>t'\<close>. The order in which a snapshot lists the states does not change the
  manager, so any order will do here.
\<close>

fun health_apply :: "gotime \<Rightarrow> gotime \<Rightarrow> health_op \<Rightarrow> Manager \<Rightarrow> Manager" where
  "health_apply t t' (OpGetWithScopes d scs) m = snd (GetWithScopes d scs t m)"
| "health_apply t t' (OpProviderAvailable p) m = snd (ProviderAvailable p t m)"
| "health_apply t t' (OpRecordTTFT d l) m = RecordTTFT d l m"
| "health_apply t t' (OpRecordSuccess d l) m = RecordSuccess d l t m"
| "health_apply t t' (OpRecordFailure d e l) m = RecordFailure d e l t t' m"
| "health_apply t t' (OpQuarantine d e l) m = Quarantine d e l t m"
| "health_apply t t' (OpRecordProbeFailure d e c l) m = RecordProbeFailure d e c l t m"
| "health_apply t t' (OpRecordRecoverySuccess d l) m = RecordRecoverySuccess d l t m"
| "health_apply t t' (OpSetNextRetry d u) m = SetNextRetry d u m"
| "health_apply t t' (OpSetErrorClass d c) m = SetErrorClass d c m"
| "health_apply t t' (OpEnterCooldown d e l) m = EnterCooldown d e l t t' m"
| "health_apply t t' (OpForceCooldown d e l) m = ForceCooldown d e l t t' m"
| "health_apply t t' (OpRetire d e c) m = Retire d e c t m"
| "health_apply t t' (OpApplySharedCooldown d u r) m = snd (ApplySharedCooldown d u r t m)"
| "health_apply t t' (OpRecordScopeSuccess d scs) m = RecordScopeSuccess d scs t m"
| "health_apply t t' (OpRecordScopeFailure d scs r) m = RecordScopeFailure d scs r t m"
| "health_apply t t' (OpRecordProviderFailure p d r) m = RecordProviderFailure p d r t m"
| "health_apply t t' (OpRecordProviderSuccess p) m = RecordProviderSuccess p t m"
| "health_apply t t' OpSnapshot m = snd (Snapshot sorted_list_of_fset t t' m)"
| "health_apply t t' OpProviderSnapshot m = snd (ProviderSnapshot sorted_list_of_fset t m)"
| "health_apply t t' (OpInvalidate d) m = Invalidate d m"
| "health_apply t t' (OpRetain v) m = Retain v m"
| "health_apply t t' (OpRetainProviders v) m = RetainProviders v m"
| "health_apply t t' (OpInvalidateProvider p) m = InvalidateProvider p m"
| "health_apply t t' (OpConfigureAdvanced a b c d) m = ConfigureAdvanced a b c d m"
| "health_apply t t' (OpConfigureProviderIncidents a b c) m = ConfigureProviderIncidents a b c m"

inductive health_step :: "gotime \<times> Manager \<Rightarrow> gotime \<times> Manager \<Rightarrow> bool" where
  call: "now \<le> t \<Longrightarrow> t \<le> t' \<Longrightarrow> health_step (now, m) (t', health_apply t t' op m)"

inductive_cases health_stepE: "health_step (now, m) (now', m')"

inductive health_reachable :: "gotime \<times> Manager \<Rightarrow> bool" where
  start: "0 < now \<Longrightarrow> health_reachable (now, New threshold cooldown)"
| step: "health_reachable s \<Longrightarrow> health_step s s' \<Longrightarrow> health_reachable s'"

section \<open>Frame lemmas\<close>

lemma state_of_put [simp]: "state_of (put_state d s m) e = (if e = d then s else state_of m e)"
  by (simp add: state_of_def put_state_def)

lemma put_state_put [simp]: "put_state d s (put_state d s' m) = put_state d s m"
  by (simp add: put_state_def fmap_ext)

lemma state_of_observe [simp]:
  "state_of (observe_latency d ms m) e = state_of m e"
  "state_of (observe_ttft d ms m) e = state_of m e"
  by (simp_all add: state_of_def observe_latency_def observe_ttft_def Let_def)

lemma mStates_put [simp]: "mStates (put_state d s m) = fmupd d s (mStates m)"
  by (simp add: put_state_def)

lemma put_state_frame [simp]:
  "mThreshold (put_state d s m) = mThreshold m"
  "mCooldown (put_state d s m) = mCooldown m"
  "mScopeThreshold (put_state d s m) = mScopeThreshold m"
  "mScopeCooldown (put_state d s m) = mScopeCooldown m"
  "mProviderThreshold (put_state d s m) = mProviderThreshold m"
  "mProviderWindow (put_state d s m) = mProviderWindow m"
  "mProviderCooldown (put_state d s m) = mProviderCooldown m"
  "mProviders (put_state d s m) = mProviders m"
  "mProviderEvidence (put_state d s m) = mProviderEvidence m"
  "mHistograms (put_state d s m) = mHistograms m"
  by (simp_all add: put_state_def)

lemma put_provider_frame [simp]:
  "mThreshold (put_provider p st m) = mThreshold m"
  "mCooldown (put_provider p st m) = mCooldown m"
  "mScopeThreshold (put_provider p st m) = mScopeThreshold m"
  "mScopeCooldown (put_provider p st m) = mScopeCooldown m"
  "mProviderThreshold (put_provider p st m) = mProviderThreshold m"
  "mProviderWindow (put_provider p st m) = mProviderWindow m"
  "mProviderCooldown (put_provider p st m) = mProviderCooldown m"
  "mStates (put_provider p st m) = mStates m"
  "mProviders (put_provider p st m) = fmupd p st (mProviders m)"
  "mProviderEvidence (put_provider p st m) = mProviderEvidence m"
  "mHistograms (put_provider p st m) = mHistograms m"
  by (simp_all add: put_provider_def)

lemma provider_of_put [simp]:
  "provider_of (put_provider p st m) q = (if q = p then st else provider_of m q)"
  by (simp add: provider_of_def)

lemma provider_of_evidence [simp]:
  "provider_of (m\<lparr>mProviderEvidence := ev\<rparr>) q = provider_of m q"
  by (simp add: provider_of_def)

lemma observe_frame [simp]:
  "mThreshold (observe_latency d ms m) = mThreshold m"
  "mCooldown (observe_latency d ms m) = mCooldown m"
  "mScopeThreshold (observe_latency d ms m) = mScopeThreshold m"
  "mScopeCooldown (observe_latency d ms m) = mScopeCooldown m"
  "mProviderThreshold (observe_latency d ms m) = mProviderThreshold m"
  "mProviderWindow (observe_latency d ms m) = mProviderWindow m"
  "mProviderCooldown (observe_latency d ms m) = mProviderCooldown m"
  "mStates (observe_latency d ms m) = mStates m"
  "mProviders (observe_latency d ms m) = mProviders m"
  "mProviderEvidence (observe_latency d ms m) = mProviderEvidence m"
  "mThreshold (observe_ttft d ms m) = mThreshold m"
  "mCooldown (observe_ttft d ms m) = mCooldown m"
  "mScopeThreshold (observe_ttft d ms m) = mScopeThreshold m"
  "mScopeCooldown (observe_ttft d ms m) = mScopeCooldown m"
  "mProviderThreshold (observe_ttft d ms m) = mProviderThreshold m"
  "mProviderWindow (observe_ttft d ms m) = mProviderWindow m"
  "mProviderCooldown (observe_ttft d ms m) = mProviderCooldown m"
  "mStates (observe_ttft d ms m) = mStates m"
  "mProviders (observe_ttft d ms m) = mProviders m"
  "mProviderEvidence (observe_ttft d ms m) = mProviderEvidence m"
  by (simp_all add: observe_latency_def observe_ttft_def Let_def)

lemma updateEWMA_frame [simp]:
  "Deployment (updateEWMA s l) = Deployment s"
  "hsStatus (updateEWMA s l) = hsStatus s"
  "Successes (updateEWMA s l) = Successes s"
  "Failures (updateEWMA s l) = Failures s"
  "ConsecutiveFailures (updateEWMA s l) = ConsecutiveFailures s"
  "EWMAFailureRate (updateEWMA s l) = EWMAFailureRate s"
  "EWMATTFTMS (updateEWMA s l) = EWMATTFTMS s"
  "LastChecked (updateEWMA s l) = LastChecked s"
  "CooldownUntil (updateEWMA s l) = CooldownUntil s"
  "RecoverySuccesses (updateEWMA s l) = RecoverySuccesses s"
  "RecoveryFailures (updateEWMA s l) = RecoveryFailures s"
  "LastErrorClass (updateEWMA s l) = LastErrorClass s"
  "Scopes (updateEWMA s l) = Scopes s"
  by (simp_all add: updateEWMA_def Let_def)

lemma updateFailureEWMA_frame [simp]:
  "Deployment (updateFailureEWMA s b) = Deployment s"
  "hsStatus (updateFailureEWMA s b) = hsStatus s"
  "Successes (updateFailureEWMA s b) = Successes s"
  "Failures (updateFailureEWMA s b) = Failures s"
  "ConsecutiveFailures (updateFailureEWMA s b) = ConsecutiveFailures s"
  "EWMALatencyMS (updateFailureEWMA s b) = EWMALatencyMS s"
  "EWMATTFTMS (updateFailureEWMA s b) = EWMATTFTMS s"
  "LastChecked (updateFailureEWMA s b) = LastChecked s"
  "CooldownUntil (updateFailureEWMA s b) = CooldownUntil s"
  "RecoverySuccesses (updateFailureEWMA s b) = RecoverySuccesses s"
  "RecoveryFailures (updateFailureEWMA s b) = RecoveryFailures s"
  "LastErrorClass (updateFailureEWMA s b) = LastErrorClass s"
  "Scopes (updateFailureEWMA s b) = Scopes s"
  by (simp_all add: updateFailureEWMA_def Let_def)

section \<open>Well-formed states\<close>

definition wf_scope :: "ScopeState \<Rightarrow> bool" where
  "wf_scope st \<longleftrightarrow> (ssStatus st = Cooldown \<longrightarrow> 0 < ssCooldownUntil st)"

definition wf_core :: "State \<Rightarrow> bool" where
  "wf_core s \<longleftrightarrow>
     (hsStatus s = Cooldown \<longrightarrow> 0 < CooldownUntil s) \<and>
     (hsStatus s \<noteq> Cooldown \<and> hsStatus s \<noteq> HalfOpen \<longrightarrow> CooldownUntil s = 0) \<and>
     0 \<le> EWMALatencyMS s \<and> 0 \<le> EWMATTFTMS s \<and>
     0 \<le> EWMAFailureRate s \<and> EWMAFailureRate s \<le> 1 \<and>
     fmpred (\<lambda>_. wf_scope) (Scopes s)"

definition wf_state :: "string \<Rightarrow> State \<Rightarrow> bool" where
  "wf_state did s \<longleftrightarrow> Deployment s = did \<and> wf_core s"

definition wf_provider :: "string \<Rightarrow> ProviderState \<Rightarrow> bool" where
  "wf_provider p st \<longleftrightarrow> psProvider st = p \<and>
     (psStatus st = Cooldown \<longrightarrow> 0 < psCooldownUntil st) \<and>
     (psStatus st \<noteq> Cooldown \<longrightarrow> psCooldownUntil st = 0)"

definition wf_histogram :: "Histogram \<Rightarrow> bool" where
  "wf_histogram h \<longleftrightarrow>
     (Buckets h = [] \<or> length (Buckets h) = length LatencyHistogramBoundsMS + 1) \<and>
     sum_list (Buckets h) = Count h"

definition wf_histograms :: "deploymentHistograms \<Rightarrow> bool" where
  "wf_histograms h \<longleftrightarrow> wf_histogram (Latency h) \<and> wf_histogram (TTFT h)"

definition wf_config :: "Manager \<Rightarrow> bool" where
  "wf_config m \<longleftrightarrow> 1 \<le> mThreshold m \<and> 0 < mCooldown m \<and> 1 \<le> mScopeThreshold m \<and>
     0 < mScopeCooldown m \<and> 2 \<le> mProviderThreshold m \<and> 0 < mProviderWindow m \<and>
     0 < mProviderCooldown m"

definition wf_manager :: "Manager \<Rightarrow> bool" where
  "wf_manager m \<longleftrightarrow> wf_config m \<and> fmpred wf_state (mStates m) \<and>
     fmpred wf_provider (mProviders m) \<and> fmpred (\<lambda>_. wf_histograms) (mHistograms m)"

subsection \<open>Histograms\<close>

text \<open>
  \<open>sort.Search\<close> on a monotone predicate finds the least index where it holds.
\<close>

lemma search_range_least:
  "i \<le> j \<Longrightarrow> j \<le> n \<Longrightarrow> \<forall>a b. a \<le> b \<longrightarrow> b < n \<longrightarrow> f a \<longrightarrow> f b \<Longrightarrow>
     i \<le> search_range f i j \<and> search_range f i j \<le> j \<and>
     (\<forall>k. i \<le> k \<and> k < search_range f i j \<longrightarrow> \<not> f k) \<and>
     (search_range f i j < j \<longrightarrow> f (search_range f i j))"
proof (induction f i j rule: search_range.induct)
  case (1 f i j)
  show ?case
  proof (cases "i < j")
    case False
    then have "search_range f i j = i" by (simp add: search_range.simps[of f i j])
    with 1(3) False show ?thesis by auto
  next
    case True
    define h where "h = (i + j) div 2"
    with True have h: "i \<le> h" "h < j" by auto
    show ?thesis
    proof (cases "f h")
      case True
      then have eq: "search_range f i j = search_range f i h"
        using \<open>i < j\<close> by (simp add: search_range.simps[of f i j] flip: h_def)
      have "i \<le> search_range f i h \<and> search_range f i h \<le> h \<and>
        (\<forall>k. i \<le> k \<and> k < search_range f i h \<longrightarrow> \<not> f k) \<and>
        (search_range f i h < h \<longrightarrow> f (search_range f i h))"
        using True h 1(4) by (intro 1(2)[OF \<open>i < j\<close> h_def _ _ _ 1(5)]) simp_all
      with True h(2) show ?thesis
        unfolding eq by (cases "search_range f i h = h") auto
    next
      case False
      let ?r = "search_range f (Suc h) j"
      have eq: "search_range f i j = ?r"
        using \<open>i < j\<close> False by (simp add: search_range.simps[of f i j] flip: h_def)
      have IH: "Suc h \<le> ?r \<and> ?r \<le> j \<and> (\<forall>k. Suc h \<le> k \<and> k < ?r \<longrightarrow> \<not> f k) \<and> (?r < j \<longrightarrow> f ?r)"
        using h 1(4) by (intro 1(1)[OF \<open>i < j\<close> h_def False _ _ 1(5)]) simp_all
      have "\<not> f k" if "k < ?r" for k
      proof (cases "k \<le> h")
        case True
        moreover have "h < n" using h(2) 1(4) by simp
        ultimately show ?thesis using \<open>\<not> f h\<close> 1(5) by blast
      next
        case False
        with IH that show ?thesis by simp
      qed
      with IH h(1) show ?thesis unfolding eq by simp
    qed
  qed
qed

lemma bounds_sorted: "sorted LatencyHistogramBoundsMS"
  by (simp add: LatencyHistogramBoundsMS_def)

lemma bounds_length [simp]: "length LatencyHistogramBoundsMS = 14"
  by (simp add: LatencyHistogramBoundsMS_def)

text \<open>
  The bucket of an observation: below it every bound is smaller, and its own bound, if
  it has one, is not.
\<close>

lemma Search_bucket:
  fixes ms :: rat
  defines "i \<equiv> Search 14 (\<lambda>i. ms \<le> LatencyHistogramBoundsMS ! i)"
  shows "i \<le> 14" and "\<forall>k < i. LatencyHistogramBoundsMS ! k < ms"
    and "i < 14 \<longrightarrow> ms \<le> LatencyHistogramBoundsMS ! i"
proof -
  have "\<forall>a b. a \<le> b \<longrightarrow> b < 14 \<longrightarrow> ms \<le> LatencyHistogramBoundsMS ! a \<longrightarrow> ms \<le> LatencyHistogramBoundsMS ! b"
    using sorted_nth_mono[OF bounds_sorted] by (auto intro: order_trans)
  from search_range_least[of 0 14 14, OF _ _ this]
  show "i \<le> 14" and "\<forall>k < i. LatencyHistogramBoundsMS ! k < ms"
    and "i < 14 \<longrightarrow> ms \<le> LatencyHistogramBoundsMS ! i"
    by (auto simp: i_def Search_def not_le)
qed

lemma sum_list_bump:
  fixes bs :: "64 word list"
  shows "i < length bs \<Longrightarrow> sum_list (bs[i := bs ! i + 1]) = sum_list bs + 1"
proof (induction bs arbitrary: i)
  case (Cons b bs)
  then show ?case by (cases i) (simp_all add: ac_simps)
qed simp

lemma wf_Observe:
  assumes "wf_histogram h"
  shows "wf_histogram (Observe ms h)"
proof -
  let ?ms = "if ms < 0 then 0 else ms"
  let ?bs = "if Buckets h = [] then replicate 15 0 else Buckets h"
  let ?i = "Search 14 (\<lambda>i. ?ms \<le> LatencyHistogramBoundsMS ! i)"
  have bs: "length ?bs = 15" "sum_list ?bs = Count h"
    using assms by (auto simp: wf_histogram_def sum_list_replicate)
  have "?i \<le> 14" by (rule Search_bucket(1))
  with bs have "sum_list (?bs[?i := ?bs ! ?i + 1]) = Count h + 1"
    by (subst sum_list_bump) simp_all
  moreover have "Buckets (Observe ms h) = ?bs[?i := ?bs ! ?i + 1]" "Count (Observe ms h) = Count h + 1"
    by (simp_all add: Observe_def Let_def)
  ultimately show ?thesis using bs(1)
    by (simp only: wf_histogram_def length_list_update bounds_length) simp
qed

lemma wf_zero_histograms: "wf_histograms zero_histograms"
  by (simp add: wf_histograms_def zero_histograms_def wf_histogram_def zero_Histogram_def)

subsection \<open>Every method keeps the invariant\<close>

lemma wf_zero_State: "wf_core zero_State"
  by (simp add: wf_core_def zero_State_def)

lemma wf_core_state_of: "wf_manager m \<Longrightarrow> wf_core (state_of m d)"
  by (auto simp: wf_manager_def state_of_def fm_get_def wf_zero_State wf_state_def fmpred_iff
      split: option.split)

lemma wf_put_state: "wf_manager m \<Longrightarrow> wf_state d s \<Longrightarrow> wf_manager (put_state d s m)"
  by (auto simp: wf_manager_def wf_config_def)

lemma wf_observe: 
  assumes "wf_manager m"
  shows "wf_manager (observe_latency d ms m)" and "wf_manager (observe_ttft d ms m)"
proof -
  have "wf_histograms (histogramsFor m d)"
    using assms by (auto simp: wf_manager_def histogramsFor_def fm_get_def fmpred_iff wf_zero_histograms
        split: option.split)
  with assms show "wf_manager (observe_latency d ms m)" and "wf_manager (observe_ttft d ms m)"
    by (auto simp: wf_manager_def wf_config_def observe_latency_def observe_ttft_def Let_def
        wf_histograms_def wf_Observe)
qed

lemma float_of_int_ge_0: "\<not> float_of_int n \<le> 0 \<Longrightarrow> 0 \<le> float_of_int n"
  by simp

lemma updateEWMA_nonneg: "0 \<le> EWMALatencyMS s \<Longrightarrow> 0 \<le> EWMALatencyMS (updateEWMA s l)"
  by (auto simp: updateEWMA_def Let_def ewma_nonneg)

lemma updateFailureEWMA_unit:
  "0 \<le> EWMAFailureRate s \<Longrightarrow> EWMAFailureRate s \<le> 1 \<Longrightarrow>
   0 \<le> EWMAFailureRate (updateFailureEWMA s b) \<and> EWMAFailureRate (updateFailureEWMA s b) \<le> 1"
  by (auto simp: updateFailureEWMA_def Let_def ewma_nonneg ewma_le_1)

text \<open>
  The averages and the scopes of a state change only through the helpers above, so a new
  state is well formed when its status and deadline agree.
\<close>

definition status_ok :: "State \<Rightarrow> bool" where
  "status_ok s \<longleftrightarrow> (hsStatus s = Cooldown \<longrightarrow> 0 < CooldownUntil s) \<and>
     (hsStatus s \<noteq> Cooldown \<and> hsStatus s \<noteq> HalfOpen \<longrightarrow> CooldownUntil s = 0)"

definition averages_ok :: "State \<Rightarrow> bool" where
  "averages_ok s \<longleftrightarrow> 0 \<le> EWMALatencyMS s \<and> 0 \<le> EWMATTFTMS s \<and>
     0 \<le> EWMAFailureRate s \<and> EWMAFailureRate s \<le> 1 \<and> fmpred (\<lambda>_. wf_scope) (Scopes s)"

lemma wf_core_iff: "wf_core s \<longleftrightarrow> status_ok s \<and> averages_ok s"
  by (auto simp: wf_core_def status_ok_def averages_ok_def)

lemma averages_updateEWMA [simp]: "averages_ok s \<Longrightarrow> averages_ok (updateEWMA s l)"
  by (simp add: averages_ok_def updateEWMA_nonneg)

lemma averages_updateFailureEWMA [simp]: "averages_ok s \<Longrightarrow> averages_ok (updateFailureEWMA s b)"
  by (simp add: averages_ok_def updateFailureEWMA_unit)

lemma averages_frame [simp]:
  "averages_ok (s\<lparr>Deployment := a\<rparr>) = averages_ok s"
  "averages_ok (s\<lparr>hsStatus := st\<rparr>) = averages_ok s"
  "averages_ok (s\<lparr>Successes := i\<rparr>) = averages_ok s"
  "averages_ok (s\<lparr>Failures := i\<rparr>) = averages_ok s"
  "averages_ok (s\<lparr>ConsecutiveFailures := i\<rparr>) = averages_ok s"
  "averages_ok (s\<lparr>LastChecked := t\<rparr>) = averages_ok s"
  "averages_ok (s\<lparr>LastSuccess := t\<rparr>) = averages_ok s"
  "averages_ok (s\<lparr>LastFailure := t\<rparr>) = averages_ok s"
  "averages_ok (s\<lparr>LastError := a\<rparr>) = averages_ok s"
  "averages_ok (s\<lparr>LastErrorClass := a\<rparr>) = averages_ok s"
  "averages_ok (s\<lparr>CooldownUntil := t\<rparr>) = averages_ok s"
  "averages_ok (s\<lparr>NextRetryAt := t\<rparr>) = averages_ok s"
  "averages_ok (s\<lparr>RecoveryFailures := i\<rparr>) = averages_ok s"
  "averages_ok (s\<lparr>RecoverySuccesses := i\<rparr>) = averages_ok s"
  "averages_ok (s\<lparr>LastProbeDurationMS := i\<rparr>) = averages_ok s"
  by (simp_all add: averages_ok_def)

lemma state_wf: "wf_manager m \<Longrightarrow> averages_ok (state_of m d)" "wf_manager m \<Longrightarrow> status_ok (state_of m d)"
  using wf_core_state_of[of m d] by (simp_all add: wf_core_iff)

lemma wf_cooldown_pos: "wf_manager m \<Longrightarrow> 0 < mCooldown m"
  by (simp add: wf_manager_def wf_config_def)

lemmas wf_op_simps =
  wf_state_def wf_core_iff status_ok_def Let_def IsZero_def Before_def After_def Add_def

lemma wf_RecordSuccess:
  assumes "wf_manager m"
  shows "wf_manager (RecordSuccess d l t m)"
  using state_wf[OF assms, of d]
  by (auto simp: RecordSuccess_def wf_op_simps intro!: wf_put_state wf_observe assms)

lemma wf_RecordFailure:
  assumes "wf_manager m" and "0 < t'"
  shows "wf_manager (RecordFailure d e l t t' m)"
  using state_wf[OF assms(1), of d] wf_cooldown_pos[OF assms(1)] assms(2)
  by (auto simp: RecordFailure_def wf_op_simps intro!: wf_put_state wf_observe assms(1))

lemma wf_Quarantine: "wf_manager m \<Longrightarrow> wf_manager (Quarantine d e l t m)"
  using state_wf[of m d]
  by (auto simp: Quarantine_def wf_op_simps intro!: wf_put_state)

lemma wf_RecordProbeFailure: "wf_manager m \<Longrightarrow> wf_manager (RecordProbeFailure d e c l t m)"
  using state_wf[of m d]
  by (auto simp: RecordProbeFailure_def wf_op_simps intro!: wf_put_state)

lemma wf_RecordRecoverySuccess: "wf_manager m \<Longrightarrow> wf_manager (RecordRecoverySuccess d l t m)"
  using state_wf[of m d]
  by (auto simp: RecordRecoverySuccess_def wf_op_simps intro!: wf_put_state)

lemma wf_RecordTTFT: "wf_manager m \<Longrightarrow> wf_manager (RecordTTFT d l m)"
  using state_wf[of m d]
  by (auto simp: RecordTTFT_def wf_op_simps averages_ok_def ewma_nonneg float_of_int_ge_0
      intro!: wf_put_state wf_observe)

lemma wf_keep_retired:
  "wf_manager m \<Longrightarrow> hsStatus (state_of m d) = Retired \<Longrightarrow> wf_manager (put_state d (state_of m d) m)"
  by (rule wf_put_state)
    (auto simp: state_of_def fm_get_def wf_manager_def fmpred_iff zero_State_def split: option.splits)

lemma wf_SetNextRetry: "wf_manager m \<Longrightarrow> wf_manager (SetNextRetry d u m)"
  using state_wf[of m d]
  by (auto simp: SetNextRetry_def wf_op_simps intro!: wf_put_state wf_keep_retired)

lemma wf_SetErrorClass: "wf_manager m \<Longrightarrow> wf_manager (SetErrorClass d c m)"
  using state_wf[of m d]
  by (auto simp: SetErrorClass_def wf_op_simps intro!: wf_put_state wf_keep_retired)

lemma wf_EnterCooldown: "wf_manager m \<Longrightarrow> 0 < t' \<Longrightarrow> wf_manager (EnterCooldown d e l t t' m)"
  using state_wf[of m d] wf_cooldown_pos[of m]
  by (auto simp: EnterCooldown_def wf_op_simps intro!: wf_put_state)

lemma wf_ForceCooldown: "wf_manager m \<Longrightarrow> 0 < t' \<Longrightarrow> wf_manager (ForceCooldown d e l t t' m)"
  using state_wf[of m d] wf_cooldown_pos[of m]
  by (auto simp: ForceCooldown_def wf_op_simps intro!: wf_put_state)

lemma wf_Retire: "wf_manager m \<Longrightarrow> wf_manager (Retire d e c t m)"
  using state_wf[of m d] by (auto simp: Retire_def wf_op_simps intro!: wf_put_state)

lemma wf_ApplySharedCooldown:
  "wf_manager m \<Longrightarrow> 0 < t \<Longrightarrow> wf_manager (snd (ApplySharedCooldown d u r t m))"
  using state_wf[of m d] by (auto simp: ApplySharedCooldown_def wf_op_simps intro!: wf_put_state)

lemma wf_scope_success: "wf_scope (scope_success t st)"
  by (simp add: scope_success_def wf_scope_def)

lemma wf_scope_successes: "fmpred (\<lambda>_. wf_scope) scs \<Longrightarrow> fmpred (\<lambda>_. wf_scope) (scope_successes t xs scs)"
  by (induction xs arbitrary: scs) (simp_all add: fmpred_upd wf_scope_success)

lemma wf_scope_failure: "0 < t \<Longrightarrow> 0 < cd \<Longrightarrow> wf_scope (scope_failure th cd r t st)"
  by (simp add: scope_failure_def wf_scope_def Let_def Add_def)

lemma wf_scope_failures:
  "0 < t \<Longrightarrow> 0 < cd \<Longrightarrow> fmpred (\<lambda>_. wf_scope) scs \<Longrightarrow>
   fmpred (\<lambda>_. wf_scope) (scope_failures th cd r t xs scs)"
  by (induction xs arbitrary: scs) (simp_all add: fmpred_upd wf_scope_failure)

lemma wf_RecordScopeSuccess: "wf_manager m \<Longrightarrow> wf_manager (RecordScopeSuccess d scs t m)"
  using state_wf[of m d]
  by (auto simp: RecordScopeSuccess_def wf_op_simps averages_ok_def wf_scope_successes
      intro!: wf_put_state)

lemma wf_scope_cooldown_pos: "wf_manager m \<Longrightarrow> 0 < mScopeCooldown m"
  by (simp add: wf_manager_def wf_config_def)

lemma wf_RecordScopeFailure:
  "wf_manager m \<Longrightarrow> 0 < t \<Longrightarrow> wf_manager (RecordScopeFailure d scs r t m)"
  using state_wf[of m d] wf_scope_failures[of t "mScopeCooldown m"]
  by (auto simp: RecordScopeFailure_def wf_op_simps averages_ok_def wf_scope_cooldown_pos
      intro!: wf_put_state)

lemma wf_normalizeScope: "wf_scope st \<Longrightarrow> wf_scope (normalizeScope t st)"
  by (simp add: normalizeScope_def wf_scope_def)

lemma normalize_frame [simp]:
  "Deployment (normalizeScopes (normalizeGlobal s t) t) = Deployment s"
  by (simp add: normalizeScopes_def normalizeGlobal_def)

lemma wf_normalize: "wf_core s \<Longrightarrow> wf_core (normalizeScopes (normalizeGlobal s t) t)"
  by (auto simp: wf_core_def normalizeScopes_def normalizeGlobal_def fmpred_iff wf_normalizeScope)

lemma wf_unknown_state: "wf_state d (unknown_state d)"
  by (simp add: wf_state_def unknown_state_def wf_core_def zero_State_def)

lemma wf_lookup:
  "wf_manager m \<Longrightarrow> fmlookup (mStates m) d = Some s \<Longrightarrow> wf_state d s"
  "wf_manager m \<Longrightarrow> fmlookup (mProviders m) d = Some st \<Longrightarrow> wf_provider d st"
  by (simp_all add: wf_manager_def fmpred_iff)

lemma wf_GetWithScopes: "wf_manager m \<Longrightarrow> wf_manager (snd (GetWithScopes d scs t m))"
  by (auto simp: GetWithScopes_def GetWithScopes_write_def Let_def wf_state_def wf_normalize
      split: option.splits intro!: wf_put_state dest: wf_lookup)

lemma wf_Snapshot: "wf_manager m \<Longrightarrow> wf_manager (snd (Snapshot iter t t' m))"
  by (auto simp: Snapshot_sections Let_def wf_manager_def wf_config_def fmpred_iff wf_state_def wf_normalize)

lemma wf_Invalidate: "wf_manager m \<Longrightarrow> wf_manager (Invalidate d m)"
  by (simp add: Invalidate_def wf_put_state wf_unknown_state)

lemma wf_Retain: "wf_manager m \<Longrightarrow> wf_manager (Retain v m)"
  by (auto simp: Retain_def wf_manager_def wf_config_def)

lemma wf_normalizeProviderState: "wf_provider p st \<Longrightarrow> wf_provider p (normalizeProviderState st t)"
  by (auto simp: wf_provider_def normalizeProviderState_def)

lemma wf_put_provider: "wf_manager m \<Longrightarrow> wf_provider p st \<Longrightarrow> wf_manager (put_provider p st m)"
  by (auto simp: wf_manager_def wf_config_def)

lemma wf_evidence [simp]: "wf_manager (m\<lparr>mProviderEvidence := ev\<rparr>) = wf_manager m"
  by (simp add: wf_manager_def wf_config_def)

lemma wf_provider_of:
  "wf_manager m \<Longrightarrow> wf_provider p ((provider_of m p)\<lparr>psProvider := p\<rparr>)"
  by (auto simp: wf_manager_def provider_of_def fm_get_def fmpred_iff wf_provider_def
      zero_ProviderState_def split: option.split)

lemma wf_ProviderAvailable: "wf_manager m \<Longrightarrow> wf_manager (snd (ProviderAvailable p t m))"
  by (auto simp: ProviderAvailable_def ProviderAvailable_write_def Let_def wf_normalizeProviderState
      split: option.splits intro!: wf_put_provider dest: wf_lookup)

lemma wf_RecordProviderSuccess: "wf_manager m \<Longrightarrow> wf_manager (RecordProviderSuccess p t m)"
  using wf_provider_of[of m p]
  by (auto simp: RecordProviderSuccess_def Let_def wf_provider_def intro!: wf_put_provider)

lemma wf_provider_of_norm:
  "wf_manager m \<Longrightarrow>
   wf_provider p ((normalizeProviderState (provider_of m p) t)\<lparr>psProvider := p\<rparr>)"
  using wf_provider_of[of m p] by (auto simp: wf_provider_def normalizeProviderState_def)

lemma wf_pcooldown_pos: "wf_manager m \<Longrightarrow> 0 < mProviderCooldown m"
  by (simp add: wf_manager_def wf_config_def)

lemma wf_RecordProviderFailure:
  "wf_manager m \<Longrightarrow> 0 < t \<Longrightarrow> wf_manager (RecordProviderFailure p d r t m)"
  using wf_provider_of_norm[of m p t] wf_pcooldown_pos[of m]
  by (auto simp: RecordProviderFailure_def Let_def wf_provider_def Add_def intro!: wf_put_provider)

lemma wf_ProviderSnapshot: "wf_manager m \<Longrightarrow> wf_manager (snd (ProviderSnapshot iter t m))"
  by (auto simp: ProviderSnapshot_def Let_def wf_manager_def wf_config_def fmpred_iff
      wf_normalizeProviderState)

lemma wf_RetainProviders: "wf_manager m \<Longrightarrow> wf_manager (RetainProviders v m)"
  by (auto simp: RetainProviders_def wf_manager_def wf_config_def)

lemma wf_InvalidateProvider: "wf_manager m \<Longrightarrow> wf_manager (InvalidateProvider p m)"
  by (auto simp: InvalidateProvider_def wf_manager_def wf_config_def)

lemma wf_ConfigureAdvanced: "wf_manager m \<Longrightarrow> wf_manager (ConfigureAdvanced a b c d m)"
  by (auto simp: ConfigureAdvanced_def wf_manager_def wf_config_def)

lemma wf_ConfigureProviderIncidents:
  "wf_manager m \<Longrightarrow> wf_manager (ConfigureProviderIncidents a b c m)"
  by (auto simp: ConfigureProviderIncidents_def wf_manager_def wf_config_def)

lemmas wf_ops =
  wf_GetWithScopes wf_ProviderAvailable wf_RecordTTFT wf_RecordSuccess wf_RecordFailure
  wf_Quarantine wf_RecordProbeFailure wf_RecordRecoverySuccess wf_SetNextRetry wf_SetErrorClass
  wf_EnterCooldown wf_ForceCooldown wf_Retire wf_ApplySharedCooldown wf_RecordScopeSuccess
  wf_RecordScopeFailure wf_RecordProviderFailure wf_RecordProviderSuccess wf_Snapshot
  wf_ProviderSnapshot wf_Invalidate wf_Retain wf_RetainProviders wf_InvalidateProvider
  wf_ConfigureAdvanced wf_ConfigureProviderIncidents

lemma wf_health_apply: "wf_manager m \<Longrightarrow> 0 < t \<Longrightarrow> 0 < t' \<Longrightarrow> wf_manager (health_apply t t' op m)"
  by (cases op) (simp_all add: wf_ops)

lemma wf_New: "wf_manager (New a b)"
  by (simp add: New_def wf_manager_def wf_config_def)

lemma reachable_wf: "health_reachable s \<Longrightarrow> 0 < fst s \<and> wf_manager (snd s)"
proof (induction rule: health_reachable.induct)
  case (start now threshold cooldown)
  then show ?case by (simp add: wf_New)
next
  case (step s s')
  from step.hyps(2) step.IH show ?case
    by (cases rule: health_step.cases) (simp add: wf_health_apply)
qed

end
