(* ===== verification/HealthBreaker.thy ===== *)
theory HealthBreaker
  imports HealthInvariant
begin

text \<open>
  What the health manager guarantees: the deployment breaker (deadlines, thresholds,
  recovery, retirement), the two-section reads, cooldowns from peers, capability scopes,
  provider incident circuits, and the histograms. The last sections apply each theorem to
  a concrete manager and record where the code departs from its comments.
\<close>

section \<open>Reachable states\<close>

text \<open>C10: In every state that calls of the manager can produce, each deployment record
  carries its own key; a cooldown always has a deadline, no other status but
  \<open>half_open\<close> has one; the failure rate is between 0 and 1 and the latency averages are
  not negative, under the rounding of \<open>float64\<close>.\<close>

theorem health_invariant:
  assumes "health_reachable (now, m)" and "fmlookup (mStates m) d = Some s"
  shows "Deployment s = d \<and> (hsStatus s = Cooldown \<longrightarrow> 0 < CooldownUntil s) \<and>
    (hsStatus s \<noteq> Cooldown \<and> hsStatus s \<noteq> HalfOpen \<longrightarrow> CooldownUntil s = 0) \<and>
    0 \<le> EWMAFailureRate s \<and> EWMAFailureRate s \<le> 1 \<and>
    0 \<le> EWMALatencyMS s \<and> 0 \<le> EWMATTFTMS s"
  using wf_lookup(1)[OF _ assms(2)] reachable_wf[OF assms(1)]
  by (simp add: wf_state_def wf_core_def)

text \<open>In every reachable state the buckets of each latency and first-byte histogram sum
  to its count, in the 64-bit arithmetic of the counters.\<close>

theorem histogram_conservation:
  assumes "health_reachable (now, m)" and "Histograms d m = Some (lat, ttft)"
  shows "sum_list (Buckets lat) = Count lat \<and> sum_list (Buckets ttft) = Count ttft"
  using reachable_wf[OF assms(1)] assms(2)
  by (auto simp: wf_manager_def fmpred_iff wf_histograms_def wf_histogram_def Histograms_def)

text \<open>An observation raises exactly one bucket of the histogram, the one whose bounds
  enclose it.\<close>

theorem Observe_bucket:
  assumes "length (Buckets h) = 15"
  shows "\<exists>i \<le> 14. Buckets (Observe ms h) = (Buckets h)[i := Buckets h ! i + 1] \<and>
    (i < 14 \<longrightarrow> ms \<le> LatencyHistogramBoundsMS ! i) \<and>
    (0 < i \<longrightarrow> LatencyHistogramBoundsMS ! (i - 1) < ms)"
proof -
  let ?ms = "if ms < 0 then 0 else ms"
  let ?i = "Search 14 (\<lambda>i. ?ms \<le> LatencyHistogramBoundsMS ! i)"
  note b = Search_bucket[of ?ms]
  have "0 < ?i \<Longrightarrow> LatencyHistogramBoundsMS ! (?i - 1) < ?ms" using b(2) by simp
  moreover have "?i \<noteq> 0 \<Longrightarrow> 0 \<le> ms"
  proof (rule ccontr)
    assume "?i \<noteq> 0" and "\<not> 0 \<le> ms"
    with b(2) have "LatencyHistogramBoundsMS ! 0 < 0" by auto
    then show False by (simp add: LatencyHistogramBoundsMS_def)
  qed
  moreover have "ms \<le> ?ms" by simp
  moreover have "Buckets (Observe ms h) = (Buckets h)[?i := Buckets h ! ?i + 1]"
    using assms by (auto simp: Observe_def Let_def)
  ultimately show ?thesis
    using b(1,3) by (intro exI[of _ ?i]) (auto split: if_splits)
qed

section \<open>The deployment breaker\<close>

lemma get_cooled:
  assumes "fmlookup (mStates m) d = Some s" and "hsStatus s = Cooldown"
    and "0 < CooldownUntil s" and "CooldownUntil s < t"
  shows "Get d t m = (normalizeScopes (normalizeGlobal s t) t,
    put_state d (normalizeScopes (normalizeGlobal s t) t) m)"
  using assms
  by (simp add: Get_def GetWithScopes_def GetWithScopes_read_def GetWithScopes_write_def
      stateNeedsNormalization_def cooldown_over_def IsZero_def After_def Let_def)

text \<open>C11: No deployment stays in cooldown for ever: once the deadline of a reachable
  cooldown has passed, a read reports \<open>half_open\<close>; from there one success makes the
  deployment healthy and one failure opens the breaker again, with a new deadline.\<close>

theorem cooldown_recovers:
  assumes "health_reachable (now, m)" and "fmlookup (mStates m) d = Some s"
    and "hsStatus s = Cooldown" and "CooldownUntil s < t"
  shows "hsStatus (fst (Get d t m)) = HalfOpen \<and>
    hsStatus (state_of (RecordSuccess d l t (snd (Get d t m))) d) = Healthy \<and>
    hsStatus (state_of (RecordFailure d e l t t' (snd (Get d t m))) d) = Cooldown \<and>
    CooldownUntil (state_of (RecordFailure d e l t t' (snd (Get d t m))) d) = t' + mCooldown m"
proof -
  have "0 < CooldownUntil s"
    using wf_lookup(1)[OF _ assms(2)] reachable_wf[OF assms(1)] assms(3)
    by (simp add: wf_state_def wf_core_def)
  note get = get_cooled[OF assms(2,3) this assms(4)]
  have n: "hsStatus (normalizeScopes (normalizeGlobal s t) t) = HalfOpen"
    using assms(3,4) \<open>0 < CooldownUntil s\<close>
    by (simp add: normalizeScopes_def normalizeGlobal_def cooldown_over_def IsZero_def After_def)
  show ?thesis unfolding get
    by (simp add: n RecordSuccess_def RecordFailure_def Let_def Add_def)
qed

text \<open>While a cooldown is running, a success or a failure of a request that was already
  in flight changes neither the status nor the deadline.\<close>

theorem active_cooldown_kept:
  assumes "hsStatus (state_of m d) = Cooldown" and "CooldownUntil (state_of m d) \<noteq> 0"
    and "t < CooldownUntil (state_of m d)"
  shows "hsStatus (state_of (RecordSuccess d l t m) d) = Cooldown \<and>
    CooldownUntil (state_of (RecordSuccess d l t m) d) = CooldownUntil (state_of m d) \<and>
    hsStatus (state_of (RecordFailure d e l t t' m) d) = Cooldown \<and>
    CooldownUntil (state_of (RecordFailure d e l t t' m) d) = CooldownUntil (state_of m d)"
  using assms
  by (simp add: RecordSuccess_def RecordFailure_def Let_def IsZero_def Before_def)

subsection \<open>Runs of failures\<close>

fun record_failures :: "string \<Rightarrow> (string \<times> duration \<times> gotime \<times> gotime) list \<Rightarrow> Manager \<Rightarrow> Manager" where
  "record_failures d [] m = m"
| "record_failures d ((e, l, t, t') # xs) m = record_failures d xs (RecordFailure d e l t t' m)"

lemma record_failures_snoc:
  "record_failures d (xs @ [(e, l, t, t')]) m = RecordFailure d e l t t' (record_failures d xs m)"
  by (induction d xs m rule: record_failures.induct) simp_all

lemma RecordFailure_frame [simp]: "mThreshold (RecordFailure d e l t t' m) = mThreshold m"
  by (simp add: RecordFailure_def Let_def)

lemma RecordFailure_counts:
  assumes "hsStatus (state_of m d) \<noteq> Retired"
  shows "ConsecutiveFailures (state_of (RecordFailure d e l t t' m) d) =
    i64 (ConsecutiveFailures (state_of m d) + 1)"
  using assms by (simp add: RecordFailure_def Let_def)

lemma RecordFailure_status:
  assumes "hsStatus (state_of m d) \<noteq> Retired" "hsStatus (state_of m d) \<noteq> HalfOpen"
    and "hsStatus (state_of m d) = Cooldown \<longrightarrow>
      mThreshold m \<le> i64 (ConsecutiveFailures (state_of m d) + 1)"
  shows "hsStatus (state_of (RecordFailure d e l t t' m) d) =
    (if i64 (ConsecutiveFailures (state_of m d) + 1) < mThreshold m then Degraded else Cooldown)"
  using assms by (auto simp: RecordFailure_def Let_def)

lemma record_failures_trips:
  assumes "hsStatus (state_of m d) \<in> {NoStatus, Unknown, Healthy, Degraded}"
    and "ConsecutiveFailures (state_of m d) = 0" and "1 \<le> mThreshold m"
  shows "int (length xs) \<le> MaxInt64 \<Longrightarrow>
    mThreshold (record_failures d xs m) = mThreshold m \<and>
    ConsecutiveFailures (state_of (record_failures d xs m) d) = int (length xs) \<and>
    hsStatus (state_of (record_failures d xs m) d) =
      (if xs = [] then hsStatus (state_of m d)
       else if int (length xs) < mThreshold m then Degraded else Cooldown)"
proof (induction xs rule: rev_induct)
  case Nil
  with assms show ?case by simp
next
  case (snoc x xs)
  obtain e l t t' where x: "x = (e, l, t, t')" by (cases x)
  let ?m = "record_failures d xs m"
  have IH: "mThreshold ?m = mThreshold m" "ConsecutiveFailures (state_of ?m d) = int (length xs)"
    "hsStatus (state_of ?m d) = (if xs = [] then hsStatus (state_of m d)
       else if int (length xs) < mThreshold m then Degraded else Cooldown)"
    using snoc by simp_all
  have i: "i64 (int (length xs) + 1) = int (length xs) + 1"
    using snoc.prems by (intro i64_id) simp_all
  have st: "hsStatus (state_of ?m d) \<noteq> Retired" "hsStatus (state_of ?m d) \<noteq> HalfOpen"
    "hsStatus (state_of ?m d) = Cooldown \<longrightarrow> mThreshold m \<le> int (length xs) + 1"
    using assms(1) IH(3) by (auto split: if_splits)
  show ?case
    using RecordFailure_counts[OF st(1)] RecordFailure_status[OF st(1,2)] st(3)
    by (simp add: x record_failures_snoc IH i)
qed

text \<open>From a routable state with no recent failure, a run of consecutive failures keeps
  the deployment degraded as long as it is shorter than the configured threshold, and
  opens the breaker at exactly the threshold.\<close>

theorem failure_threshold_trips:
  assumes "hsStatus (state_of m d) \<in> {NoStatus, Unknown, Healthy, Degraded}"
    and "ConsecutiveFailures (state_of m d) = 0" and "1 \<le> mThreshold m"
    and "xs \<noteq> []" and "int (length xs) \<le> MaxInt64"
  shows "hsStatus (state_of (record_failures d xs m) d) =
    (if int (length xs) < mThreshold m then Degraded else Cooldown)"
  using record_failures_trips[OF assms(1-3,5)] assms(4) by simp

subsection \<open>Retirement\<close>

fun health_run :: "(gotime \<times> gotime \<times> health_op) list \<Rightarrow> Manager \<Rightarrow> Manager" where
  "health_run [] m = m"
| "health_run ((t, t', op) # xs) m = health_run xs (health_apply t t' op m)"

definition forgets :: "string \<Rightarrow> health_op \<Rightarrow> bool" where
  "forgets d op \<longleftrightarrow> (case op of OpInvalidate e \<Rightarrow> e = d | OpRetain v \<Rightarrow> d |\<notin>| v | _ \<Rightarrow> False)"

lemma retired_lookup:
  "hsStatus (state_of m d) = Retired \<Longrightarrow> fmlookup (mStates m) d = Some (state_of m d)"
  by (auto simp: state_of_def fm_get_def zero_State_def split: option.splits)

lemma state_of_frame [simp]:
  "state_of (put_provider p st m) d = state_of m d"
  "state_of (m\<lparr>mProviderEvidence := ev\<rparr>) d = state_of m d"
  "state_of (m\<lparr>mProviders := ps\<rparr>) d = state_of m d"
  by (simp_all add: state_of_def)

lemma retired_get: "hsStatus (state_of m d) = Retired \<Longrightarrow>
  hsStatus (state_of (snd (GetWithScopes e scs t m)) d) = Retired"
  using retired_lookup[of m d]
  by (auto simp: GetWithScopes_def GetWithScopes_write_def Let_def normalizeScopes_def
      normalizeGlobal_def cooldown_over_def split: option.split)

lemma retired_snapshot: "hsStatus (state_of m d) = Retired \<Longrightarrow>
  hsStatus (state_of (snd (Snapshot iter t t' m)) d) = Retired"
  by (cases "fmlookup (mStates m) d")
    (simp_all add: Snapshot_sections Let_def state_of_def fm_get_def normalizeScopes_def
      normalizeGlobal_def cooldown_over_def zero_State_def)

lemma retired_provider_ops:
  "state_of (snd (ProviderAvailable p t m)) d = state_of m d"
  "state_of (RecordProviderFailure p e r t m) d = state_of m d"
  "state_of (RecordProviderSuccess p t m) d = state_of m d"
  "state_of (snd (ProviderSnapshot iter t m)) d = state_of m d"
  "state_of (RetainProviders v m) d = state_of m d"
  "state_of (InvalidateProvider p m) d = state_of m d"
  "state_of (ConfigureAdvanced a b c x m) d = state_of m d"
  "state_of (ConfigureProviderIncidents a b c m) d = state_of m d"
  by (auto simp: ProviderAvailable_def ProviderAvailable_write_def Let_def
      RecordProviderFailure_def RecordProviderSuccess_def ProviderSnapshot_def split: option.split)
    (simp_all add: state_of_def RetainProviders_def InvalidateProvider_def ConfigureAdvanced_def
      ConfigureProviderIncidents_def)

lemma retired_apply:
  assumes "hsStatus (state_of m d) = Retired" and "\<not> forgets d op"
  shows "hsStatus (state_of (health_apply t t' op m) d) = Retired"
proof (cases op)
  case (OpRetain v)
  with assms show ?thesis
    by (simp add: forgets_def Retain_def state_of_def fm_get_def)
qed (use assms in \<open>auto simp: forgets_def retired_get retired_snapshot retired_provider_ops
      RecordTTFT_def RecordSuccess_def RecordFailure_def Quarantine_def RecordProbeFailure_def
      RecordRecoverySuccess_def SetNextRetry_def SetErrorClass_def EnterCooldown_def
      ForceCooldown_def Retire_def ApplySharedCooldown_def RecordScopeSuccess_def
      RecordScopeFailure_def Invalidate_def Let_def\<close>)

text \<open>C13: Retirement is permanent: whatever calls follow, at whatever times, a retired
  deployment stays retired until its record is invalidated or dropped from the valid set.\<close>

theorem retired_forever:
  assumes "hsStatus (state_of m d) = Retired"
    and "\<forall>x \<in> set xs. \<not> forgets d (snd (snd x))"
  shows "hsStatus (state_of (health_run xs m) d) = Retired"
  using assms
  by (induction xs m rule: health_run.induct) (simp_all add: retired_apply)

subsection \<open>Double-checked locking\<close>

lemma normalize_idle:
  assumes "\<not> stateNeedsNormalization s t"
  shows "normalizeScopes (normalizeGlobal s t) t = s"
proof -
  have "fmmap (normalizeScope t) (Scopes s) = Scopes s"
  proof (rule fmap_ext)
    fix k
    show "fmlookup (fmmap (normalizeScope t) (Scopes s)) k = fmlookup (Scopes s) k"
      using assms
      by (cases "fmlookup (Scopes s) k")
        (auto simp: stateNeedsNormalization_def normalizeScope_def dest: fmranI)
  qed
  with assms show ?thesis
    by (simp add: normalizeScopes_def normalizeGlobal_def stateNeedsNormalization_def)
qed

lemma fmupd_same: "fmlookup m k = Some v \<Longrightarrow> fmupd k v m = m"
  by (rule fmap_ext) auto

lemma put_state_same: "fmlookup (mStates m) d = Some s \<Longrightarrow> put_state d s m = m"
  by (simp add: put_state_def fmupd_same)

lemma put_provider_same: "fmlookup (mProviders m) p = Some st \<Longrightarrow> put_provider p st m = m"
  by (simp add: put_provider_def fmupd_same)

text \<open>
  Three reads answer under the read lock if they can, and otherwise release it and run a second
  section under the write lock, after whatever the other calls did in between.  What each of
  them promises is one atomic step: a cooldown whose deadline has passed is over, the record
  says so from then on, and the answer is taken from that record.
\<close>

definition double_checked :: "('m \<Rightarrow> 'r option) \<Rightarrow> ('m \<Rightarrow> 'r \<times> 'm) \<Rightarrow> ('m \<Rightarrow> 'm) \<Rightarrow> 'm \<Rightarrow> 'r \<times> 'm" where
  "double_checked read_section write_section others m =
     (case read_section m of Some r \<Rightarrow> (r, m) | None \<Rightarrow> write_section (others m))"

locale atomic_read =
  fixes read_section :: "gotime \<Rightarrow> 'm \<Rightarrow> 'r option"
    and write_section :: "gotime \<Rightarrow> 'm \<Rightarrow> 'r \<times> 'm"
    and atomic :: "gotime \<Rightarrow> 'm \<Rightarrow> 'r \<times> 'm"
  assumes read_is_atomic: "read_section t m = Some r \<Longrightarrow> atomic t m = (r, m)"
    and write_is_atomic: "write_section t m = atomic t m"
begin

lemma linearizable:
  "double_checked (read_section t) (write_section t') others m \<in> {atomic t m, atomic t' (others m)}"
  by (cases "read_section t m") (simp_all add: double_checked_def read_is_atomic write_is_atomic)

end

definition past_deadline :: "gotime \<Rightarrow> Status \<Rightarrow> gotime \<Rightarrow> bool" where
  "past_deadline t st deadline \<longleftrightarrow> st = Cooldown \<and> deadline \<noteq> 0 \<and> deadline < t"

definition scope_at :: "gotime \<Rightarrow> ScopeState \<Rightarrow> ScopeState" where
  "scope_at t st = (if past_deadline t (ssStatus st) (ssCooldownUntil st)
     then st\<lparr>ssStatus := Unknown, ssConsecutiveFailures := 0, ssLastError := [], ssCooldownUntil := 0\<rparr> else st)"

definition state_at :: "gotime \<Rightarrow> State \<Rightarrow> State" where
  "state_at t s =
     (let s' = s\<lparr>Scopes := fmmap (scope_at t) (Scopes s)\<rparr>
      in if past_deadline t (hsStatus s) (CooldownUntil s)
         then s'\<lparr>hsStatus := HalfOpen, ConsecutiveFailures := 0, RecoveryFailures := 0, LastError := [], CooldownUntil := 0\<rparr>
         else s')"

definition atomic_get :: "string \<Rightarrow> string list \<Rightarrow> gotime \<Rightarrow> Manager \<Rightarrow> (State \<times> bool) \<times> Manager" where
  "atomic_get d scopes t m =
     (case fmlookup (mStates m) d of
        None \<Rightarrow> ((unknown_state d, True), m)
      | Some s \<Rightarrow> ((state_at t s, \<forall>sc \<in> set scopes. \<forall>st. fmlookup (Scopes (state_at t s)) sc = Some st \<longrightarrow> ssStatus st \<noteq> Cooldown),
                    m\<lparr>mStates := fmupd d (state_at t s) (mStates m)\<rparr>))"

definition atomic_available :: "string \<Rightarrow> gotime \<Rightarrow> Manager \<Rightarrow> bool \<times> Manager" where
  "atomic_available p t m =
     (case fmlookup (mProviders m) p of
        None \<Rightarrow> (True, m)
      | Some st \<Rightarrow>
          if past_deadline t (psStatus st) (psCooldownUntil st)
          then (True, m\<lparr>mProviders := fmupd p
             (st\<lparr>psStatus := HalfOpen, psEvidence := 0, psLastError := [], psCooldownUntil := 0\<rparr>) (mProviders m)\<rparr>)
          else (psStatus st \<noteq> Cooldown, m))"

definition atomic_snapshot :: "(string fset \<Rightarrow> string list) \<Rightarrow> gotime \<Rightarrow> Manager \<Rightarrow> State list \<times> Manager" where
  "atomic_snapshot iter t m =
     (map (\<lambda>d. state_at t (state_of m d)) (iter (fmdom (mStates m))), m\<lparr>mStates := fmmap (state_at t) (mStates m)\<rparr>)"

lemma past_deadline: "past_deadline t st u \<longleftrightarrow> cooldown_over st u t"
  by (auto simp: past_deadline_def cooldown_over_def IsZero_def After_def)

lemma state_at: "state_at t s = normalizeScopes (normalizeGlobal s t) t"
proof -
  have "scope_at t = normalizeScope t" by (simp add: fun_eq_iff scope_at_def normalizeScope_def past_deadline)
  then show ?thesis
    by (simp add: state_at_def normalizeScopes_def normalizeGlobal_def past_deadline Let_def)
qed

lemma state_at_idle: "\<not> stateNeedsNormalization s t \<Longrightarrow> state_at t s = s"
  by (simp add: state_at normalize_idle)

lemma ready_at:
  "scopesReadyState s scopes \<longleftrightarrow> (\<forall>sc \<in> set scopes. \<forall>st. fmlookup (Scopes s) sc = Some st \<longrightarrow> ssStatus st \<noteq> Cooldown)"
  by (auto simp: scopesReadyState_def list_all_iff split: option.splits)

interpretation get_read: atomic_read "GetWithScopes_read d scopes" "GetWithScopes_write d scopes" "atomic_get d scopes"
proof
  show "GetWithScopes_write d scopes t m = atomic_get d scopes t m" for t m
    by (simp add: GetWithScopes_write_def atomic_get_def put_state_def Let_def ready_at state_at split: option.split)
  show "atomic_get d scopes t m = (r, m)" if "GetWithScopes_read d scopes t m = Some r" for t m r
    using that by (auto simp: GetWithScopes_read_def atomic_get_def state_at_idle ready_at fmupd_same
        split: option.splits if_splits)
qed

interpretation available_read: atomic_read "ProviderAvailable_read p" "ProviderAvailable_write p" "atomic_available p"
proof
  show "ProviderAvailable_write p t m = atomic_available p t m" for t m
    by (simp add: ProviderAvailable_write_def atomic_available_def put_provider_def Let_def normalizeProviderState_def
        past_deadline fmupd_same split: option.split)
  show "atomic_available p t m = (r, m)" if "ProviderAvailable_read p t m = Some r" for t m r
    using that by (auto simp: ProviderAvailable_read_def atomic_available_def past_deadline_def go_simps
        split: option.splits if_splits)
qed

interpretation snapshot_read: atomic_read "Snapshot_read iter" "Snapshot_write iter" "atomic_snapshot iter"
proof
  have zero: "state_at t zero_State = zero_State" for t
    by (simp add: state_at_def zero_State_def past_deadline_def)
  show "Snapshot_write iter t m = atomic_snapshot iter t m" for t m
    using zero by (simp add: Snapshot_write_def atomic_snapshot_def Let_def state_of_def fm_get_def split: option.split
        flip: state_at)
  show "atomic_snapshot iter t m = (r, m)" if "Snapshot_read iter t m = Some r" for t m r
  proof -
    have idle: "state_at t s = s" if "fmlookup (mStates m) d = Some s" for d s
      using \<open>Snapshot_read iter t m = Some r\<close> that
      by (auto simp: Snapshot_read_def state_at_idle dest: fmranI split: if_splits)
    have "map_option (state_at t) (fmlookup (mStates m) d) = fmlookup (mStates m) d" for d
      by (cases "fmlookup (mStates m) d") (simp_all add: idle)
    then have "fmmap (state_at t) (mStates m) = mStates m" by (intro fmap_ext) simp
    moreover have "state_at t (state_of m d) = state_of m d" for d
      using idle zero by (simp add: state_of_def fm_get_def split: option.split)
    ultimately show ?thesis using \<open>Snapshot_read iter t m = Some r\<close>
      by (auto simp: atomic_snapshot_def Snapshot_read_def split: if_splits)
  qed
qed

text \<open>C25: The reads that drop the read lock before taking the write lock are linearizable.
  Whatever the other calls do to the manager between the two sections, a call to
  \<open>GetWithScopes\<close>, \<open>ProviderAvailable\<close> or \<open>Snapshot\<close> answers and leaves the
  manager as one atomic read does, either on the state before them or on the state after them:
  the atomic read ends every cooldown whose deadline has passed, records it, and answers from
  that record.  \<open>Snapshot\<close> in the second case is atomic at its second reading of the
  clock.\<close>

theorem double_checked_reads_linearizable:
  "double_checked (GetWithScopes_read d scopes t) (GetWithScopes_write d scopes t) others m
     \<in> {atomic_get d scopes t m, atomic_get d scopes t (others m)} \<and>
   double_checked (ProviderAvailable_read p t) (ProviderAvailable_write p t) others m
     \<in> {atomic_available p t m, atomic_available p t (others m)} \<and>
   double_checked (Snapshot_read iter t) (Snapshot_write iter t') others m
     \<in> {atomic_snapshot iter t m, atomic_snapshot iter t' (others m)}"
  by (intro conjI get_read.linearizable available_read.linearizable snapshot_read.linearizable)

text \<open>The methods are these calls with nothing in between.\<close>

lemma reads_undisturbed:
  "GetWithScopes d scopes t m = double_checked (GetWithScopes_read d scopes t) (GetWithScopes_write d scopes t) (\<lambda>m. m) m"
  "p \<noteq> [] \<Longrightarrow> ProviderAvailable p t m = double_checked (ProviderAvailable_read p t) (ProviderAvailable_write p t) (\<lambda>m. m) m"
  "Snapshot iter t t' m = double_checked (Snapshot_read iter t) (Snapshot_write iter t') (\<lambda>m. m) m"
  by (simp_all add: double_checked_def GetWithScopes_def ProviderAvailable_def Snapshot_def)

subsection \<open>Cooldowns learned from peers\<close>

text \<open>A cooldown learned from a peer replica never revives a retired deployment and never
  shortens a local cooldown; when it reports a change the new deadline is in the future and
  later than the local one, and failure counters, averages and scopes are untouched.\<close>

theorem shared_cooldown_only_extends:
  assumes "ApplySharedCooldown d until reason t m = (changed, m')"
  shows "(\<not> changed \<longrightarrow> m' = m) \<and>
    (changed \<longrightarrow> hsStatus (state_of m d) \<noteq> Retired \<and>
       hsStatus (state_of m' d) = Cooldown \<and> CooldownUntil (state_of m' d) = until \<and> t < until \<and>
       (hsStatus (state_of m d) = Cooldown \<longrightarrow> CooldownUntil (state_of m d) < until) \<and>
       Failures (state_of m' d) = Failures (state_of m d) \<and>
       ConsecutiveFailures (state_of m' d) = ConsecutiveFailures (state_of m d) \<and>
       EWMAFailureRate (state_of m' d) = EWMAFailureRate (state_of m d) \<and>
       RecoveryFailures (state_of m' d) = RecoveryFailures (state_of m d) \<and>
       Scopes (state_of m' d) = Scopes (state_of m d) \<and>
       (\<forall>e. e \<noteq> d \<longrightarrow> state_of m' e = state_of m e))"
  using assms
  by (auto simp: ApplySharedCooldown_def Let_def After_def split: if_splits)

subsection \<open>Capability scopes\<close>

lemma scope_failures_other:
  "sc \<notin> set xs \<Longrightarrow> fmlookup (scope_failures th cd r t xs scs) sc = fmlookup scs sc"
  by (induction xs arbitrary: scs) auto

lemma scope_successes_other:
  "sc \<notin> set xs \<Longrightarrow> fmlookup (scope_successes t xs scs) sc = fmlookup scs sc"
  by (induction xs arbitrary: scs) auto

text \<open>A failure attributed to some capabilities leaves the breaker of the deployment and
  the circuits of all its other capabilities as they were.\<close>

theorem scope_failure_contained:
  assumes "sc \<notin> set scopes"
  shows "hsStatus (state_of (RecordScopeFailure d scopes r t m) d) = hsStatus (state_of m d) \<and>
    CooldownUntil (state_of (RecordScopeFailure d scopes r t m) d) = CooldownUntil (state_of m d) \<and>
    ConsecutiveFailures (state_of (RecordScopeFailure d scopes r t m) d) =
      ConsecutiveFailures (state_of m d) \<and>
    fmlookup (Scopes (state_of (RecordScopeFailure d scopes r t m) d)) sc =
      fmlookup (Scopes (state_of m d)) sc"
  using assms by (simp add: RecordScopeFailure_def Let_def scope_failures_other)

section \<open>The provider circuit\<close>

text \<open>
  What reaches the circuit of one provider: failures attributed to a deployment and
  successes, each at a time.
\<close>

datatype circuit_event = PFail string string gotime | PSucc gotime

fun provider_event :: "string \<Rightarrow> circuit_event \<Rightarrow> Manager \<Rightarrow> Manager" where
  "provider_event p (PFail d r t) m = RecordProviderFailure p d r t m"
| "provider_event p (PSucc t) m = RecordProviderSuccess p t m"

definition event_source :: "string \<Rightarrow> circuit_event \<Rightarrow> string set" where
  "event_source p ev = (case ev of PFail d r t \<Rightarrow> {if d = [] then p else d} | PSucc t \<Rightarrow> {})"

definition evidence_of :: "Manager \<Rightarrow> string \<Rightarrow> (string, gotime) fmap" where
  "evidence_of m p = fm_get fmempty (mProviderEvidence m) p"

text \<open>The circuit is closed and its evidence names deployments of \<open>D\<close> only.\<close>

definition circuit_closed :: "string \<Rightarrow> string set \<Rightarrow> Manager \<Rightarrow> bool" where
  "circuit_closed p D m \<longleftrightarrow> psStatus (provider_of m p) \<in> {NoStatus, Healthy, Degraded} \<and>
     fset (fmdom (evidence_of m p)) \<subseteq> D"

lemma normalize_closed:
  "psStatus st \<noteq> Cooldown \<Longrightarrow> normalizeProviderState st t = st"
  by (simp add: normalizeProviderState_def cooldown_over_def)

lemma circuit_closed_success:
  "circuit_closed p D m \<Longrightarrow> p \<noteq> [] \<Longrightarrow> circuit_closed p D (RecordProviderSuccess p t m)"
  by (auto simp: circuit_closed_def RecordProviderSuccess_def Let_def evidence_of_def)

lemma circuit_closed_failure:
  assumes "circuit_closed p D m" and "p \<noteq> []" and "finite D" and "int (card D) < mProviderThreshold m"
    and "event_source p (PFail d r t) \<subseteq> D"
  shows "circuit_closed p D (RecordProviderFailure p d r t m)"
proof -
  let ?d = "if d = [] then p else d"
  let ?ev0 = "fm_get fmempty (mProviderEvidence m) p"
  let ?ev = "fmupd ?d t (fmfilter (\<lambda>id. \<not> Sub t (fm_get 0 ?ev0 id) > mProviderWindow m) ?ev0)"
  have "fset (fmdom ?ev0) \<subseteq> D" and "?d \<in> D"
    using assms(1,5) by (auto simp: circuit_closed_def evidence_of_def event_source_def)
  then have sub: "fset (fmdom ?ev) \<subseteq> D" by auto
  then have "card (fset (fmdom ?ev)) \<le> card D" using assms(3) by (rule card_mono[rotated])
  then have len: "int (fm_len ?ev) < mProviderThreshold m"
    using assms(4) by (simp only: fm_len_def fcard.rep_eq)
  have st: "psStatus (provider_of m p) \<noteq> Cooldown" "psStatus (provider_of m p) \<noteq> HalfOpen"
    using assms(1) by (auto simp: circuit_closed_def)
  have "RecordProviderFailure p d r t m =
    put_provider p ((provider_of m p)\<lparr>psProvider := p, psLastChecked := t, psLastFailure := t,
        psLastError := r, psEvidence := int (fm_len ?ev), psStatus := Degraded, psCooldownUntil := 0\<rparr>)
      (m\<lparr>mProviderEvidence := fmupd p ?ev (mProviderEvidence m)\<rparr>)"
    using assms(2) st len
    by (simp only: RecordProviderFailure_def Let_def normalize_closed[OF st(1)]) simp
  then show ?thesis using sub by (simp add: circuit_closed_def evidence_of_def)
qed

lemma provider_event_threshold [simp]:
  "mProviderThreshold (provider_event p ev m) = mProviderThreshold m"
  by (cases ev) (simp_all add: RecordProviderFailure_def RecordProviderSuccess_def Let_def)

lemma circuit_closed_run:
  assumes "p \<noteq> []" and "finite D" 
  shows "circuit_closed p D m \<Longrightarrow> int (card D) < mProviderThreshold m \<Longrightarrow>
    (\<Union>ev \<in> set evs. event_source p ev) \<subseteq> D \<Longrightarrow>
    circuit_closed p D (fold (provider_event p) evs m)"
proof (induction evs arbitrary: m)
  case (Cons ev evs)
  have "circuit_closed p D (provider_event p ev m)"
    using Cons.prems assms by (cases ev) (auto intro: circuit_closed_success circuit_closed_failure)
  with Cons show ?case by simp
qed simp

lemma circuit_closed_available:
  "circuit_closed p D m \<Longrightarrow> fst (ProviderAvailable p t m)"
  by (auto simp: circuit_closed_def ProviderAvailable_def ProviderAvailable_read_def
      provider_of_def fm_get_def split: option.splits)

text \<open>C12: One broken model cannot take its provider down: starting from a provider without
  recorded incidents, however many failures arrive, at whatever times and mixed with
  successes, the provider stays available as long as they come from fewer distinct
  deployments than the incident threshold.\<close>

theorem provider_needs_distinct_evidence:
  assumes "p \<noteq> []" and "fmlookup (mProviders m) p = None" and "fmlookup (mProviderEvidence m) p = None"
    and "int (card (\<Union>ev \<in> set evs. event_source p ev)) < mProviderThreshold m"
  shows "fst (ProviderAvailable p t (fold (provider_event p) evs m))"
proof (rule circuit_closed_available)
  let ?D = "\<Union>ev \<in> set evs. event_source p ev"
  have "finite ?D" by (auto simp: event_source_def split: circuit_event.split)
  moreover have "circuit_closed p ?D m"
    using assms(2,3)
    by (simp add: circuit_closed_def provider_of_def evidence_of_def fm_get_def zero_ProviderState_def)
  ultimately show "circuit_closed p ?D (fold (provider_event p) evs m)"
    using assms(1,4) by (intro circuit_closed_run) simp_all
qed

text \<open>The other direction: enough distinct deployments inside the window open it.\<close>

fun fail_all :: "string \<Rightarrow> (string \<times> gotime) list \<Rightarrow> Manager \<Rightarrow> Manager" where
  "fail_all p [] m = m"
| "fail_all p ((d, t) # xs) m = fail_all p xs (RecordProviderFailure p d [] t m)"

lemma RecordProviderFailure_collect:
  assumes "p \<noteq> []" and "d \<noteq> []" and "psStatus (provider_of m p) \<in> {NoStatus, Healthy, Degraded}"
    and "\<forall>e u. fmlookup (evidence_of m p) e = Some u \<longrightarrow> t - u \<le> mProviderWindow m"
    and "d |\<notin>| fmdom (evidence_of m p)" and "0 < mProviderWindow m" and "mProviderWindow m < MaxInt64"
  shows "evidence_of (RecordProviderFailure p d r t m) p = fmupd d t (evidence_of m p)"
    and "psStatus (provider_of (RecordProviderFailure p d r t m) p) =
      (if int (fm_len (evidence_of m p)) + 1 \<ge> mProviderThreshold m then Cooldown else Degraded)"
    and "psCooldownUntil (provider_of (RecordProviderFailure p d r t m) p) =
      (if int (fm_len (evidence_of m p)) + 1 \<ge> mProviderThreshold m then t + mProviderCooldown m else 0)"
proof -
  let ?ev0 = "fm_get fmempty (mProviderEvidence m) p"
  have keep: "fmfilter (\<lambda>id. \<not> Sub t (fm_get 0 ?ev0 id) > mProviderWindow m) ?ev0 = ?ev0"
  proof (rule fmap_ext)
    fix k
    show "fmlookup (fmfilter (\<lambda>id. \<not> Sub t (fm_get 0 ?ev0 id) > mProviderWindow m) ?ev0) k = fmlookup ?ev0 k"
    proof (cases "fmlookup ?ev0 k")
      case (Some u)
      with assms(4) have "t - u \<le> mProviderWindow m" by (simp add: evidence_of_def)
      with assms(6,7) Some show ?thesis by (auto simp: Sub_def fm_get_Some min_def max_def)
    qed simp
  qed
  have st: "psStatus (provider_of m p) \<noteq> Cooldown" "psStatus (provider_of m p) \<noteq> HalfOpen"
    using assms(3) by auto
  have len: "int (fm_len (fmupd d t ?ev0)) = int (fm_len ?ev0) + 1"
    using assms(5) by (simp add: fm_len_upd fm_has_fmdom evidence_of_def)
  note eq = RecordProviderFailure_def[of p d r t m, unfolded Let_def normalize_closed[OF st(1)] keep]
  show "evidence_of (RecordProviderFailure p d r t m) p = fmupd d t (evidence_of m p)"
    and "psStatus (provider_of (RecordProviderFailure p d r t m) p) =
      (if int (fm_len (evidence_of m p)) + 1 \<ge> mProviderThreshold m then Cooldown else Degraded)"
    and "psCooldownUntil (provider_of (RecordProviderFailure p d r t m) p) =
      (if int (fm_len (evidence_of m p)) + 1 \<ge> mProviderThreshold m then t + mProviderCooldown m else 0)"
    using assms(1,2) st len unfolding eq by (simp_all add: keep evidence_of_def Add_def)
qed

lemma provider_params [simp]:
  "mProviderWindow (RecordProviderFailure p d r t m) = mProviderWindow m"
  "mProviderThreshold (RecordProviderFailure p d r t m) = mProviderThreshold m"
  "mProviderCooldown (RecordProviderFailure p d r t m) = mProviderCooldown m"
  by (simp_all add: RecordProviderFailure_def Let_def)

lemma fail_all_params [simp]:
  "mProviderWindow (fail_all p xs m) = mProviderWindow m"
  "mProviderThreshold (fail_all p xs m) = mProviderThreshold m"
  "mProviderCooldown (fail_all p xs m) = mProviderCooldown m"
  by (induction p xs m rule: fail_all.induct) simp_all

lemma fail_all_snoc: "fail_all p (xs @ [(d, t)]) m = RecordProviderFailure p d [] t (fail_all p xs m)"
  by (induction p xs m rule: fail_all.induct) simp_all

lemma fail_all_collect:
  assumes "p \<noteq> []" and "fmlookup (mProviders m) p = None" and "fmlookup (mProviderEvidence m) p = None"
    and "0 < mProviderWindow m" and "mProviderWindow m < MaxInt64"
  shows "distinct (map fst xs) \<Longrightarrow> [] \<notin> set (map fst xs) \<Longrightarrow>
    \<forall>x \<in> set xs. \<forall>y \<in> set xs. snd x - snd y \<le> mProviderWindow m \<Longrightarrow>
    int (length xs) \<le> mProviderThreshold m \<Longrightarrow>
    (\<forall>e u. fmlookup (evidence_of (fail_all p xs m) p) e = Some u \<longrightarrow> (e, u) \<in> set xs) \<and>
    fm_len (evidence_of (fail_all p xs m) p) = length xs \<and>
    (int (length xs) < mProviderThreshold m \<longrightarrow>
       psStatus (provider_of (fail_all p xs m) p) \<in> {NoStatus, Healthy, Degraded}) \<and>
    (xs \<noteq> [] \<and> int (length xs) = mProviderThreshold m \<longrightarrow>
       psStatus (provider_of (fail_all p xs m) p) = Cooldown \<and>
       psCooldownUntil (provider_of (fail_all p xs m) p) = snd (last xs) + mProviderCooldown m)"
proof (induction xs rule: rev_induct)
  case Nil
  with assms(2,3) show ?case
    by (simp add: evidence_of_def provider_of_def fm_get_def zero_ProviderState_def)
next
  case (snoc x xs)
  obtain d t where x: "x = (d, t)" by (cases x)
  let ?m = "fail_all p xs m"
  have IH: "\<forall>e u. fmlookup (evidence_of ?m p) e = Some u \<longrightarrow> (e, u) \<in> set xs"
    "fm_len (evidence_of ?m p) = length xs"
    "psStatus (provider_of ?m p) \<in> {NoStatus, Healthy, Degraded}"
    using snoc by auto
  have win: "\<forall>e u. fmlookup (evidence_of ?m p) e = Some u \<longrightarrow> t - u \<le> mProviderWindow ?m"
    using IH(1) snoc.prems(3) by (fastforce simp: x)
  have new: "d |\<notin>| fmdom (evidence_of ?m p)"
    using IH(1) snoc.prems(1) by (force simp: x fmlookup_dom_iff)
  have d: "d \<noteq> []" using snoc.prems(2) by (auto simp: x)
  note step = RecordProviderFailure_collect[OF assms(1) d IH(3) win new, of "[]"]
  show ?case
    using step assms(4,5) IH(1,2) new snoc.prems(4)
    by (auto simp: x fail_all_snoc fm_len_upd fm_has_fmdom split: if_splits)
qed

text \<open>As many failures from distinct deployments of a provider as the incident threshold,
  all within the evidence window, open its circuit: the provider is unavailable until the
  provider cooldown after the last failure has passed.\<close>

theorem provider_circuit_opens:
  assumes "p \<noteq> []" and "fmlookup (mProviders m) p = None" and "fmlookup (mProviderEvidence m) p = None"
    and "0 < mProviderWindow m" and "mProviderWindow m < MaxInt64"
    and "distinct (map fst xs)" and "[] \<notin> set (map fst xs)" and "xs \<noteq> []"
    and "int (length xs) = mProviderThreshold m"
    and "\<forall>x \<in> set xs. \<forall>y \<in> set xs. snd x - snd y \<le> mProviderWindow m"
    and "t < snd (last xs) + mProviderCooldown m"
  shows "\<not> fst (ProviderAvailable p t (fail_all p xs m))"
proof -
  have "psStatus (provider_of (fail_all p xs m) p) = Cooldown"
    and "psCooldownUntil (provider_of (fail_all p xs m) p) = snd (last xs) + mProviderCooldown m"
    using fail_all_collect[OF assms(1-5), of xs] assms(6-10) by auto
  then show ?thesis using assms(1,11)
    by (auto simp: ProviderAvailable_def ProviderAvailable_read_def provider_of_def fm_get_def
        zero_ProviderState_def Before_def split: option.splits)
qed

text \<open>While the circuit of a provider is open, neither a success nor a failure of a request
  already in flight changes the circuit's status or deadline.\<close>

theorem provider_open_circuit_kept:
  assumes "p \<noteq> []" and "psStatus (provider_of m p) = Cooldown"
    and "psCooldownUntil (provider_of m p) \<noteq> 0" and "t < psCooldownUntil (provider_of m p)"
  shows "psStatus (provider_of (RecordProviderSuccess p t m) p) = Cooldown \<and>
    psCooldownUntil (provider_of (RecordProviderSuccess p t m) p) = psCooldownUntil (provider_of m p) \<and>
    psStatus (provider_of (RecordProviderFailure p d r t m) p) = Cooldown \<and>
    psCooldownUntil (provider_of (RecordProviderFailure p d r t m) p) = psCooldownUntil (provider_of m p)"
  using assms
  by (simp add: RecordProviderSuccess_def RecordProviderFailure_def normalizeProviderState_def
      cooldown_over_def After_def Before_def IsZero_def Let_def)

section \<open>Concrete runs\<close>

text \<open>A manager whose breaker trips at the first failure, and the state after one failure
  of the deployment \<open>p/a\<close> at time 10: cooling down until time 15.\<close>

definition demo_cooling :: Manager where
  "demo_cooling = RecordFailure ''p/a'' ''boom'' 0 10 10 (New 1 5)"

lemma demo_reachable: "health_reachable (10, demo_cooling)"
proof -
  have "health_reachable (10, New 1 5)" by (rule health_reachable.start) simp
  moreover have "health_step (10, New 1 5) (10, health_apply 10 10 (OpRecordFailure ''p/a'' ''boom'' 0) (New 1 5))"
    by (rule health_step.call) simp_all
  ultimately show ?thesis unfolding demo_cooling_def
    by (metis health_apply.simps(5) health_reachable.step)
qed

lemma Milliseconds_0 [simp]: "Milliseconds 0 = 0"
  by (simp add: Milliseconds_def quot_def)

lemma float_of_int_0 [simp]: "float_of_int 0 = 0"
  by (simp add: float_of_int_def)

lemma demo_state:
  "fmlookup (mStates demo_cooling) ''p/a'' = Some (state_of demo_cooling ''p/a'')"
  "hsStatus (state_of demo_cooling ''p/a'') = Cooldown"
  "CooldownUntil (state_of demo_cooling ''p/a'') = 15"
  "mCooldown demo_cooling = 5"
  by (simp_all add: demo_cooling_def RecordFailure_def Let_def New_def state_of_def fm_get_def
      put_state_def zero_State_def updateFailureEWMA_def updateEWMA_def i64_def Add_def
      observe_latency_def)

theorem health_invariant_witness:
  "health_reachable (10, demo_cooling) \<and>
   fmlookup (mStates demo_cooling) ''p/a'' = Some (state_of demo_cooling ''p/a'') \<and>
   Deployment (state_of demo_cooling ''p/a'') = ''p/a'' \<and> 0 < CooldownUntil (state_of demo_cooling ''p/a'')"
  using health_invariant[OF demo_reachable demo_state(1)] demo_reachable demo_state by simp

lemma demo_histograms:
  "Histograms ''p/a'' demo_cooling = Some (Latency (histogramsFor demo_cooling ''p/a''), TTFT (histogramsFor demo_cooling ''p/a''))"
  by (simp add: Histograms_def histogramsFor_def demo_cooling_def RecordFailure_def Let_def New_def
      state_of_def fm_get_def put_state_def zero_State_def updateFailureEWMA_def updateEWMA_def i64_def
      observe_latency_def)

theorem histogram_conservation_witness:
  "health_reachable (10, demo_cooling) \<and>
   sum_list (Buckets (Latency (histogramsFor demo_cooling ''p/a''))) =
   Count (Latency (histogramsFor demo_cooling ''p/a''))"
  using histogram_conservation[OF demo_reachable demo_histograms] demo_reachable by simp

theorem Observe_bucket_witness:
  "\<exists>i \<le> 14. Buckets (Observe 7 \<lparr>Buckets = replicate 15 0, SumMS = 0, Count = 0\<rparr>) =
     (replicate 15 0)[i := replicate 15 0 ! i + 1] \<and>
     (i < 14 \<longrightarrow> 7 \<le> LatencyHistogramBoundsMS ! i) \<and>
     (0 < i \<longrightarrow> LatencyHistogramBoundsMS ! (i - 1) < 7)"
  using Observe_bucket[of "\<lparr>Buckets = replicate 15 0, SumMS = 0, Count = 0\<rparr>" 7] by simp

theorem cooldown_recovers_witness:
  "hsStatus (fst (Get ''p/a'' 16 demo_cooling)) = HalfOpen \<and>
   hsStatus (state_of (RecordSuccess ''p/a'' 0 16 (snd (Get ''p/a'' 16 demo_cooling))) ''p/a'') = Healthy"
  using cooldown_recovers[OF demo_reachable demo_state(1,2), of 16] demo_state(3) by simp

theorem active_cooldown_kept_witness:
  "hsStatus (state_of (RecordSuccess ''p/a'' 0 12 demo_cooling) ''p/a'') = Cooldown \<and>
   CooldownUntil (state_of (RecordFailure ''p/a'' ''late'' 0 12 12 demo_cooling) ''p/a'') = 15"
  using active_cooldown_kept[of demo_cooling "''p/a''" 12 0 "''late''" 12] demo_state(2,3) by simp

theorem failure_threshold_trips_witness:
  "hsStatus (state_of (record_failures ''d'' [(''e'', 0, 1, 1)] (New 2 5)) ''d'') = Degraded \<and>
   hsStatus (state_of (record_failures ''d'' [(''e'', 0, 1, 1), (''e'', 0, 2, 2)] (New 2 5)) ''d'') = Cooldown"
  using failure_threshold_trips[of "New 2 5" "''d''" "[(''e'', 0, 1, 1)]"]
    failure_threshold_trips[of "New 2 5" "''d''" "[(''e'', 0, 1, 1), (''e'', 0, 2, 2)]"]
  by (simp add: New_def state_of_def zero_State_def)

theorem retired_forever_witness:
  "hsStatus (state_of (health_run [(3, 3, OpRecordSuccess ''d'' 0), (4, 4, OpQuarantine ''d'' ''r'' 0)]
     (Retire ''d'' ''eol'' '''' 2 (New 2 5))) ''d'') = Retired"
  by (rule retired_forever) (simp_all add: Retire_def Let_def forgets_def)

theorem shared_cooldown_only_extends_witness:
  "fst (ApplySharedCooldown ''p/a'' 30 ''peer'' 12 demo_cooling) \<and>
   CooldownUntil (state_of (snd (ApplySharedCooldown ''p/a'' 30 ''peer'' 12 demo_cooling)) ''p/a'') = 30"
proof -
  obtain c m' where eq: "ApplySharedCooldown ''p/a'' 30 ''peer'' 12 demo_cooling = (c, m')"
    by (cases "ApplySharedCooldown ''p/a'' 30 ''peer'' 12 demo_cooling")
  moreover have c
    using eq demo_state(2,3) by (auto simp: ApplySharedCooldown_def Let_def After_def IsZero_def)
  ultimately show ?thesis using shared_cooldown_only_extends[OF eq] by simp
qed

theorem scope_failure_contained_witness:
  "hsStatus (state_of (RecordScopeFailure ''p/a'' [''tools''] ''r'' 12 demo_cooling) ''p/a'') = Cooldown"
  using scope_failure_contained[of "''vision''" "[''tools'']" "''p/a''" "''r''" 12 demo_cooling]
    demo_state(2) by simp

theorem provider_needs_distinct_evidence_witness:
  "fst (ProviderAvailable ''p'' 9 (fold (provider_event ''p'')
     [PFail ''p/a'' ''x'' 1, PFail ''p/a'' ''x'' 2, PFail ''p/a'' ''x'' 3, PFail ''p/b'' ''x'' 4] (New 2 5)))"
  by (rule provider_needs_distinct_evidence) (simp_all add: New_def event_source_def)

theorem provider_circuit_opens_witness:
  "\<not> fst (ProviderAvailable ''p'' 9 (fail_all ''p'' [(''p/a'', 1), (''p/b'', 2), (''p/c'', 3)] (New 2 5)))"
  by (rule provider_circuit_opens) (simp_all add: New_def)

theorem provider_open_circuit_kept_witness:
  "psStatus (provider_of (RecordProviderSuccess ''p'' 12
     (put_provider ''p'' (zero_ProviderState\<lparr>psStatus := Cooldown, psCooldownUntil := 15\<rparr>) (New 2 5))) ''p'') = Cooldown"
  using provider_open_circuit_kept[of "''p''"
      "put_provider ''p'' (zero_ProviderState\<lparr>psStatus := Cooldown, psCooldownUntil := 15\<rparr>) (New 2 5)" 12]
  by simp

section \<open>Where the code departs from its comments\<close>

text \<open>Quarantine is not held back by a running cooldown: it turns the deployment to
  \<open>degraded\<close> and erases the deadline, although the comment in \<open>RecordFailure\<close> says that an
  in-flight failure observation must never do so.\<close>

theorem quarantine_drops_active_cooldown:
  "health_reachable (10, demo_cooling) \<and> 
   hsStatus (state_of demo_cooling ''p/a'') = Cooldown \<and> CooldownUntil (state_of demo_cooling ''p/a'') = 15 \<and>
   hsStatus (state_of (Quarantine ''p/a'' ''late'' 0 12 demo_cooling) ''p/a'') = Degraded \<and>
   CooldownUntil (state_of (Quarantine ''p/a'' ''late'' 0 12 demo_cooling) ''p/a'') = 0"
  using demo_reachable demo_state(2,3) by (simp add: Quarantine_def Let_def)

text \<open>A recovery probe that succeeds while the cooldown is still running leaves a
  \<open>half_open\<close> record that reports the old deadline, although the comment in \<open>RecordFailure\<close>
  says a snapshot never reports a stale \<open>cooldown_until\<close>.\<close>

theorem recovery_success_keeps_stale_deadline:
  "health_reachable (12, RecordRecoverySuccess ''p/a'' 0 12 demo_cooling) \<and>
   hsStatus (state_of (RecordRecoverySuccess ''p/a'' 0 12 demo_cooling) ''p/a'') = HalfOpen \<and>
   CooldownUntil (state_of (RecordRecoverySuccess ''p/a'' 0 12 demo_cooling) ''p/a'') = 15"
proof -
  have "health_step (10, demo_cooling) (12, health_apply 12 12 (OpRecordRecoverySuccess ''p/a'' 0) demo_cooling)"
    by (rule health_step.call) simp_all
  with demo_reachable have "health_reachable (12, RecordRecoverySuccess ''p/a'' 0 12 demo_cooling)"
    by (metis health_apply.simps(8) health_reachable.step)
  then show ?thesis using demo_state(2,3) by (simp add: RecordRecoverySuccess_def Let_def)
qed

end
