(* ===== verification/Config.thy ===== *)
theory Config
  imports Float64
begin

text \<open>
  The configuration of the gateway (\<^verbatim>\<open>src/internal/config/config.go\<close>), as far
  as the modelled components read it.  \<^verbatim>\<open>RoutingConfig\<close>, \<^verbatim>\<open>Capabilities\<close>,
  \<^verbatim>\<open>ModelConfig\<close>, \<^verbatim>\<open>DataHandlingConfig\<close> and the price versions have all the
  fields of the source, as have the virtual endpoints, route profiles, pools
  and chains; \<^verbatim>\<open>ProviderConfig\<close> and \<^verbatim>\<open>Config\<close> have the fields that
  routing, pricing and candidate resolution read (transport, credential and
  path settings are not data of these components).  Configuration numbers are
  decoded from JSON, so they are finite: \<^typ>\<open>int\<close> and \<^typ>\<open>rat\<close>.
\<close>

record RoutingConfig =
  Strategy :: string
  FallbackOnUnknownModel :: bool
  SessionAffinity :: bool
  SessionTTLSeconds :: int
  P2CWindow :: int
  MaxAttempts :: int
  MaxInflightRequests :: int
  FailureThreshold :: int
  CooldownSeconds :: int
  ProviderFailureThreshold :: int
  ProviderFailureWindowSeconds :: int
  ProviderCooldownSeconds :: int
  CapabilityFailureThreshold :: int
  CapabilityCooldownSeconds :: int
  RequestTimeoutMS :: int
  LatencyWeight :: rat
  FailureWeight :: rat
  CapacityWeight :: rat
  RetryBackoffMS :: int
  MaxRetryAfterSeconds :: int
  HedgingEnabled :: bool
  HedgingDelayMS :: int
  MaxRepairAttempts :: int
  SanitizeEnabled :: bool
  PublicModel :: string

record Capabilities =
  capStreaming :: bool
  capTools :: bool
  capVision :: bool
  capReasoning :: bool

record ModelConfig =
  mcID :: string
  mcModel :: string
  mcAliases :: "string list"
  mcEnabled :: bool
  mcPriority :: int
  mcWeight :: rat
  mcContextWindow :: int
  mcInputCostPerMTok :: rat
  mcOutputCostPerMTok :: rat
  mcSource :: string
  mcTestState :: string
  mcCapabilities :: Capabilities

record DataHandlingConfig =
  TrainsOnData :: string
  Retention :: string
  Note :: string

record ProviderConfig =
  pcID :: string
  pcName :: string
  pcType :: string
  pcDataHandling :: DataHandlingConfig
  pcEnabled :: bool
  pcModels :: "ModelConfig list"

record PriceEntryConfig =
  peInputPerMTok :: rat
  peOutputPerMTok :: rat
  peCacheReadPerMTok :: "rat option"
  peCacheWritePerMTok :: "rat option"

record PriceVersionConfig =
  pvVersion :: string
  pvEffectiveFrom :: string
  pvPrices :: "(string, PriceEntryConfig) fmap"

record VirtualEndpointConfig =
  veID :: string
  veName :: string
  veEnabled :: "bool option"
  vePublicModel :: string
  veRouteProfile :: string
  veProtocols :: "string list"

definition IsEnabled :: "VirtualEndpointConfig \<Rightarrow> bool" where
  "IsEnabled v = (case veEnabled v of None \<Rightarrow> True | Some b \<Rightarrow> b)"

record RouteProfileConfig =
  rpID :: string
  rpName :: string
  rpCandidatePool :: string
  rpFallbackChain :: string
  rpStrategy :: string
  rpDecisionPolicy :: string
  rpPrivacy :: string
  rpCanaryDeploymentID :: string
  rpCanaryPercent :: int
  rpTaskIntelMode :: string
  rpTaskIntelMinConfidence :: rat
  rpTaskPools :: "(string, string) fmap"
  rpTaskEvalGates :: "(string, string) fmap"
  rpTaskOverride :: string

record CandidatePoolConfig =
  cpID :: string
  cpName :: string
  cpMode :: string
  cpDeployments :: "string list"

record FallbackChainConfig =
  fcID :: string
  fcName :: string
  fcPools :: "string list"

record Config =
  Routing :: RoutingConfig
  PricingVersions :: "PriceVersionConfig list"
  Providers :: "ProviderConfig list"
  VirtualEndpoints :: "VirtualEndpointConfig list"
  RouteProfiles :: "RouteProfileConfig list"
  CandidatePools :: "CandidatePoolConfig list"
  FallbackChains :: "FallbackChainConfig list"

text \<open>The zero values of Go.\<close>

definition zero_RoutingConfig :: RoutingConfig where
  "zero_RoutingConfig = \<lparr>Strategy = [], FallbackOnUnknownModel = False, SessionAffinity = False,
     SessionTTLSeconds = 0, P2CWindow = 0, MaxAttempts = 0, MaxInflightRequests = 0,
     FailureThreshold = 0, CooldownSeconds = 0, ProviderFailureThreshold = 0,
     ProviderFailureWindowSeconds = 0, ProviderCooldownSeconds = 0,
     CapabilityFailureThreshold = 0, CapabilityCooldownSeconds = 0, RequestTimeoutMS = 0,
     LatencyWeight = 0, FailureWeight = 0, CapacityWeight = 0, RetryBackoffMS = 0,
     MaxRetryAfterSeconds = 0, HedgingEnabled = False, HedgingDelayMS = 0,
     MaxRepairAttempts = 0, SanitizeEnabled = False, PublicModel = []\<rparr>"

definition zero_Config :: Config where
  "zero_Config = \<lparr>Routing = zero_RoutingConfig, PricingVersions = [], Providers = [],
     VirtualEndpoints = [], RouteProfiles = [], CandidatePools = [], FallbackChains = []\<rparr>"

end
