(* ===== verification/GoTime.thy ===== *)
theory GoTime
  imports Prelude "HOL-Library.Monad_Syntax"
begin

text \<open>
  \<^verbatim>\<open>time.Parse(time.RFC3339, s)\<close> of Go's standard library, on the layout
  \<^verbatim>\<open>2006-01-02T15:04:05Z07:00\<close>: four-digit year, two-digit month and day, an
  hour of one or two digits, two-digit minute and second, an optional fraction
  after a point or a comma, and \<^verbatim>\<open>Z\<close> or a signed offset.  The result is the
  instant in nanoseconds since the zero time (1 January of year 1, UTC), or
  \<^const>\<open>None\<close> for an error.
\<close>

section \<open>The proleptic Gregorian calendar\<close>

definition is_leap :: "int \<Rightarrow> bool" where
  "is_leap y \<longleftrightarrow> 4 dvd y \<and> (\<not> 100 dvd y \<or> 400 dvd y)"

definition month_len :: "int \<Rightarrow> nat \<Rightarrow> int" where
  "month_len y m = (if m = 2 then (if is_leap y then 29 else 28)
     else if m \<in> {4, 6, 9, 11} then 30 else 31)"

definition days_before_year :: "int \<Rightarrow> int" where
  "days_before_year y = (let p = y - 1 in 365 * p + p div 4 - p div 100 + p div 400)"

definition days_before_month :: "int \<Rightarrow> nat \<Rightarrow> int" where
  "days_before_month y m = sum_list (map (month_len y) [1..<m])"

definition Date :: "int \<Rightarrow> nat \<Rightarrow> int \<Rightarrow> int \<Rightarrow> int \<Rightarrow> int \<Rightarrow> int \<Rightarrow> gotime" where
  "Date y m d h mi s ns =
     ((((days_before_year y + days_before_month y m + (d - 1)) * 24 + h) * 60 + mi) * 60 + s)
       * second + ns"

section \<open>The parser\<close>

definition isDigit :: "char \<Rightarrow> bool" where
  "isDigit c \<longleftrightarrow> 48 \<le> (of_char c :: nat) \<and> (of_char c :: nat) \<le> 57"

definition digit_val :: "char \<Rightarrow> int" where
  "digit_val c = of_char c - 48"

definition digits_val :: "string \<Rightarrow> int" where
  "digits_val s = foldl (\<lambda>n c. 10 * n + digit_val c) 0 s"

text \<open>Exactly n digits, and the rest of the input.\<close>

definition fixnum :: "nat \<Rightarrow> string \<Rightarrow> (int \<times> string) option" where
  "fixnum n s = (if length (take n s) = n \<and> list_all isDigit (take n s)
     then Some (digits_val (take n s), drop n s) else None)"

text \<open>\<^verbatim>\<open>getnum(s, false)\<close>: one digit, or two when the second character is one.\<close>

definition getnum :: "string \<Rightarrow> (int \<times> string) option" where
  "getnum s = (case fixnum 2 s of Some r \<Rightarrow> Some r | None \<Rightarrow> fixnum 1 s)"

fun skip :: "char \<Rightarrow> string \<Rightarrow> string option" where
  "skip c [] = None"
| "skip c (x # xs) = (if x = c then Some xs else None)"

definition guard :: "bool \<Rightarrow> unit option" where
  "guard b = (if b then Some () else None)"

definition fraction :: "string \<Rightarrow> int \<times> string" where
  "fraction s =
     (case s of
        c # d # _ \<Rightarrow>
          if (c = CHR ''.'' \<or> c = CHR '','') \<and> isDigit d
          then (let ds = takeWhile isDigit (tl s); ds9 = take 9 ds
                in (digits_val ds9 * 10 ^ (9 - length ds9), drop (length ds) (tl s)))
          else (0, s)
      | _ \<Rightarrow> (0, s))"

definition zone :: "string \<Rightarrow> (int \<times> string) option" where
  "zone s =
     (case s of
        [] \<Rightarrow> None
      | c # r \<Rightarrow>
          if c = CHR ''Z'' then Some (0, r)
          else do {
            (hr, r1) \<leftarrow> fixnum 2 r;
            r2 \<leftarrow> skip (CHR '':'') r1;
            (mm, r3) \<leftarrow> fixnum 2 r2;
            guard (hr \<le> 24 \<and> mm \<le> 60 \<and> (c = CHR ''+'' \<or> c = CHR ''-''));
            Some ((if c = CHR ''-'' then - 1 else 1) * (hr * 60 + mm) * 60, r3) })"

definition Parse_RFC3339 :: "string \<Rightarrow> gotime option" where
  "Parse_RFC3339 s0 = do {
     (y, s) \<leftarrow> fixnum 4 s0; s \<leftarrow> skip (CHR ''-'') s;
     (mo, s) \<leftarrow> fixnum 2 s; guard (1 \<le> mo \<and> mo \<le> 12); s \<leftarrow> skip (CHR ''-'') s;
     (d, s) \<leftarrow> fixnum 2 s; s \<leftarrow> skip (CHR ''T'') s;
     (h, s) \<leftarrow> getnum s; guard (h < 24); s \<leftarrow> skip (CHR '':'') s;
     (mi, s) \<leftarrow> fixnum 2 s; guard (mi < 60); s \<leftarrow> skip (CHR '':'') s;
     (sec, s) \<leftarrow> fixnum 2 s; guard (sec < 60);
     let (ns, s) = fraction s in do {
       (off, s) \<leftarrow> zone s;
       guard (s = [] \<and> 1 \<le> d \<and> d \<le> month_len y (nat mo));
       Some (Date y (nat mo) d h mi sec ns - off * second) } }"

text \<open>The Unix epoch, 719162 days after the zero time, and a leap day.\<close>

lemma parse_epoch: "Parse_RFC3339 ''1970-01-01T00:00:00Z'' = Some (719162 * 86400 * second)"
  by code_simp

lemma parse_leap_day: "Parse_RFC3339 ''2023-02-29T00:00:00Z'' = None"
  by code_simp

end
