(* ===== verification/Pricing.thy ===== *)
theory Pricing
  imports Config GoTime
begin

text \<open>
  The versioned price book (\<^verbatim>\<open>src/internal/pricing/pricing.go\<close>): versions
  sorted by their effective date, resolution of a deployment's rates at an
  instant, and the cost of a usage report.  Rates are \<^typ>\<open>gofloat\<close> because
  \<^verbatim>\<open>Cost\<close> and \<^verbatim>\<open>Estimate\<close> guard against NaN, infinities and negative
  rates.  The lemmas show that resolution picks the latest effective version
  that prices the deployment, that a version dated in the future changes
  nothing, and that a cost is always a finite non-negative number.
\<close>

record Entry =
  InputPerMTok :: gofloat
  OutputPerMTok :: gofloat
  CacheReadPerMTok :: "gofloat option"
  CacheWritePerMTok :: "gofloat option"

definition zero_Entry :: Entry where
  "zero_Entry = \<lparr>InputPerMTok = Fin 0, OutputPerMTok = Fin 0,
     CacheReadPerMTok = None, CacheWritePerMTok = None\<rparr>"

definition CacheRead :: "Entry \<Rightarrow> gofloat" where
  "CacheRead e = (case CacheReadPerMTok e of Some r \<Rightarrow> r | None \<Rightarrow> InputPerMTok e)"

definition CacheWrite :: "Entry \<Rightarrow> gofloat" where
  "CacheWrite e = (case CacheWritePerMTok e of Some r \<Rightarrow> r | None \<Rightarrow> InputPerMTok e)"

record Version =
  vName :: string
  EffectiveFrom :: gotime
  Prices :: "(string, Entry) fmap"

type_synonym Book = "Version list"

section \<open>Building and querying the book\<close>

definition entry_of :: "PriceEntryConfig \<Rightarrow> Entry" where
  "entry_of p = \<lparr>InputPerMTok = Fin (peInputPerMTok p), OutputPerMTok = Fin (peOutputPerMTok p),
     CacheReadPerMTok = map_option Fin (peCacheReadPerMTok p),
     CacheWritePerMTok = map_option Fin (peCacheWritePerMTok p)\<rparr>"

definition version_of :: "PriceVersionConfig \<Rightarrow> Version option" where
  "version_of v = (case Parse_RFC3339 (pvEffectiveFrom v) of
     None \<Rightarrow> None
   | Some from \<Rightarrow> Some \<lparr>vName = pvVersion v, EffectiveFrom = from,
       Prices = fmmap entry_of (pvPrices v)\<rparr>)"

definition version_less :: "Version \<Rightarrow> Version \<Rightarrow> bool" where
  "version_less a b = (if EffectiveFrom a \<noteq> EffectiveFrom b
     then Before (EffectiveFrom a) (EffectiveFrom b) else vName a < vName b)"

definition FromConfig :: "Config \<Rightarrow> Book" where
  "FromConfig cfg = SliceStable version_less (List.map_filter version_of (PricingVersions cfg))"

text \<open>The loop of \<^verbatim>\<open>Resolve\<close> runs from the last version to the first.\<close>

fun resolve_loop :: "string \<Rightarrow> gotime \<Rightarrow> Version list \<Rightarrow> (Entry \<times> string) option" where
  "resolve_loop d t [] = None"
| "resolve_loop d t (v # vs) =
     (if After (EffectiveFrom v) t then resolve_loop d t vs
      else case fmlookup (Prices v) d of
             Some e \<Rightarrow> Some (e, vName v)
           | None \<Rightarrow> resolve_loop d t vs)"

definition Resolve_price :: "Book \<Rightarrow> string \<Rightarrow> gotime \<Rightarrow> (Entry \<times> string) option" where
  "Resolve_price b d t = resolve_loop d t (rev b)"

definition ModelEntry :: "gofloat \<Rightarrow> gofloat \<Rightarrow> Entry" where
  "ModelEntry i out = zero_Entry\<lparr>InputPerMTok := i, OutputPerMTok := out\<rparr>"

definition config_models :: "Config \<Rightarrow> (string \<times> ModelConfig) list" where
  "config_models cfg =
     concat (map (\<lambda>p. map (\<lambda>m. (pcID p @ ''/'' @ mcID m, m)) (pcModels p)) (Providers cfg))"

definition ResolveFor :: "Book \<Rightarrow> Config \<Rightarrow> string \<Rightarrow> gotime \<Rightarrow> Entry \<times> string" where
  "ResolveFor b cfg d t =
     (case Resolve_price b d t of
        Some ev \<Rightarrow> ev
      | None \<Rightarrow>
          (case find (\<lambda>(i, _). i = d) (config_models cfg) of
             Some (_, m) \<Rightarrow>
               (ModelEntry (Fin (mcInputCostPerMTok m)) (Fin (mcOutputCostPerMTok m)), ''config'')
           | None \<Rightarrow> (zero_Entry, ''unpriced'')))"

section \<open>Cost of a usage report\<close>

definition bad_rate :: "gofloat \<Rightarrow> bool" where
  "bad_rate r \<longleftrightarrow> IsNaN r \<or> IsInf r \<or> glt r (Fin 0)"

definition clean_rate :: "gofloat \<Rightarrow> gofloat" where
  "clean_rate r = (if bad_rate r then Fin 0 else r)"

definition clean_cache :: "gofloat option \<Rightarrow> gofloat option" where
  "clean_cache c = (case c of None \<Rightarrow> None | Some r \<Rightarrow> if bad_rate r then None else Some r)"

definition clean_entry :: "Entry \<Rightarrow> Entry" where
  "clean_entry e = \<lparr>InputPerMTok = clean_rate (InputPerMTok e),
     OutputPerMTok = clean_rate (OutputPerMTok e),
     CacheReadPerMTok = clean_cache (CacheReadPerMTok e),
     CacheWritePerMTok = clean_cache (CacheWritePerMTok e)\<rparr>"

definition clamp0 :: "int \<Rightarrow> int" where
  "clamp0 n = (if n < 0 then 0 else n)"

definition guard_cost :: "gofloat \<Rightarrow> gofloat" where
  "guard_cost c = (if glt c (Fin 0) \<or> IsNaN c \<or> IsInf c then Fin 0 else c)"

definition raw_cost :: "Entry \<Rightarrow> int \<Rightarrow> int \<Rightarrow> int \<Rightarrow> int \<Rightarrow> gofloat" where
  "raw_cost e billable out cacheRead cacheWrite =
     gdiv_const
       (gadd (gadd (gadd (gmul (gfloat_of_int billable) (InputPerMTok e))
                         (gmul (gfloat_of_int out) (OutputPerMTok e)))
                   (gmul (gfloat_of_int cacheRead) (CacheRead e)))
             (gmul (gfloat_of_int cacheWrite) (CacheWrite e)))
       1000000"

definition Cost :: "Entry \<Rightarrow> int \<Rightarrow> int \<Rightarrow> int \<Rightarrow> int \<Rightarrow> bool \<Rightarrow> gofloat" where
  "Cost e0 input0 out0 cacheRead0 cacheWrite0 inputIncludesCache =
     (let e = clean_entry e0;
          input = clamp0 input0; out = clamp0 out0;
          cacheRead = clamp0 cacheRead0; cacheWrite = clamp0 cacheWrite0;
          billable = (if inputIncludesCache then clamp0 (input - cacheRead) else input)
      in guard_cost (raw_cost e billable out cacheRead cacheWrite))"

definition Estimate :: "Entry \<Rightarrow> int \<Rightarrow> int \<Rightarrow> gofloat" where
  "Estimate e estInput maxOutput =
     (let i = clean_rate (InputPerMTok e); p = clean_rate (OutputPerMTok e);
          n = clamp0 estInput; k = clamp0 maxOutput
      in guard_cost (gdiv_const (gadd (gmul (gfloat_of_int n) i) (gmul (gfloat_of_int k) p)) 1000000))"

section \<open>Resolution\<close>

interpretation version_order: weak_order version_less
proof -
  have "weak_order (\<lambda>a b. if EffectiveFrom a \<noteq> EffectiveFrom b
     then EffectiveFrom a < EffectiveFrom b else vName a < vName b)"
    by (intro wo_intros)
  then show "weak_order version_less"
    by (simp only: version_less_def[abs_def] Before_def)
qed

lemma version_order_time: "\<not> version_less b a \<Longrightarrow> EffectiveFrom a \<le> EffectiveFrom b"
  by (auto simp: version_less_def Before_def split: if_splits)

lemma book_sorted: "sorted (map EffectiveFrom (FromConfig cfg))"
proof -
  have "sorted_wrt (\<lambda>a b. \<not> version_less b a) (FromConfig cfg)"
    unfolding FromConfig_def by (rule version_order.ordered_sort)
  then have "sorted_wrt (\<lambda>a b. EffectiveFrom a \<le> EffectiveFrom b) (FromConfig cfg)"
    by (rule sorted_wrt_mono_rel[rotated]) (rule version_order_time)
  then show ?thesis by (simp add: sorted_map)
qed

lemma resolve_loop_Some:
  "resolve_loop d t vs = Some (e, n) \<Longrightarrow>
   \<exists>pre v post. vs = pre @ v # post \<and> EffectiveFrom v \<le> t \<and> fmlookup (Prices v) d = Some e \<and>
      vName v = n \<and> (\<forall>u \<in> set pre. t < EffectiveFrom u \<or> fmlookup (Prices u) d = None)"
proof (induction vs)
  case Nil
  then show ?case by simp
next
  case (Cons v vs)
  show ?case
  proof (cases "t < EffectiveFrom v \<or> fmlookup (Prices v) d = None")
    case True
    with Cons.prems have "resolve_loop d t vs = Some (e, n)"
      by (auto simp: After_def split: if_splits)
    from Cons.IH[OF this] obtain pre w post where
      "vs = pre @ w # post" "EffectiveFrom w \<le> t" "fmlookup (Prices w) d = Some e" "vName w = n"
      "\<forall>u \<in> set pre. t < EffectiveFrom u \<or> fmlookup (Prices u) d = None" by blast
    with True show ?thesis by (intro exI[of _ "v # pre"] exI[of _ w] exI[of _ post]) simp
  next
    case False
    with Cons.prems show ?thesis
      by (intro exI[of _ "[]"] exI[of _ v] exI[of _ vs]) (auto simp: After_def split: option.splits)
  qed
qed

lemma resolve_loop_None:
  "resolve_loop d t vs = None \<longleftrightarrow>
   (\<forall>v \<in> set vs. t < EffectiveFrom v \<or> fmlookup (Prices v) d = None)"
  by (induction vs) (auto simp: After_def split: option.split)

lemma resolve_loop_filter:
  "resolve_loop d t vs = resolve_loop d t (filter (\<lambda>v. EffectiveFrom v \<le> t) vs)"
  by (induction vs) (auto simp: After_def split: option.split)

lemma resolve_sorted:
  assumes "sorted (map EffectiveFrom b)" and "Resolve_price b d t = Some (e, n)"
  shows "\<exists>v \<in> set b. EffectiveFrom v \<le> t \<and> fmlookup (Prices v) d = Some e \<and> vName v = n \<and>
     (\<forall>u \<in> set b. EffectiveFrom u \<le> t \<longrightarrow> fmlookup (Prices u) d \<noteq> None \<longrightarrow>
        EffectiveFrom u \<le> EffectiveFrom v)"
proof -
  obtain pre v post where b: "rev b = pre @ v # post" and v: "EffectiveFrom v \<le> t"
      "fmlookup (Prices v) d = Some e" "vName v = n"
      "\<forall>u \<in> set pre. t < EffectiveFrom u \<or> fmlookup (Prices u) d = None"
    using resolve_loop_Some assms(2)[unfolded Resolve_price_def] by blast
  have eq: "b = rev post @ v # rev pre" using arg_cong[OF b, of rev] by simp
  have "\<forall>u \<in> set post. EffectiveFrom u \<le> EffectiveFrom v"
    using assms(1) by (auto simp: eq sorted_append)
  with v show ?thesis by (intro bexI[of _ v]) (fastforce simp: eq)+
qed

lemma map_filter_append: "List.map_filter f (xs @ ys) = List.map_filter f xs @ List.map_filter f ys"
  by (simp add: List.map_filter_def)

lemma Resolve_price_current:
  "Resolve_price (FromConfig cfg) d t =
   resolve_loop d t (rev (SliceStable version_less
     (filter (\<lambda>v. EffectiveFrom v \<le> t) (List.map_filter version_of (PricingVersions cfg)))))"
  unfolding Resolve_price_def FromConfig_def
  by (subst resolve_loop_filter) (simp only: rev_filter[symmetric] version_order.filter_sort)

text \<open>C29: A price lookup returns the rates of the latest version that is already
effective at the given instant and that prices the deployment; a later effective
version that does not mention the deployment never shadows an earlier one. It
fails exactly when no effective version prices the deployment.\<close>

theorem price_is_latest_effective:
  "case Resolve_price (FromConfig cfg) d t of
     Some (e, n) \<Rightarrow> \<exists>v \<in> set (FromConfig cfg).
        EffectiveFrom v \<le> t \<and> fmlookup (Prices v) d = Some e \<and> vName v = n \<and>
        (\<forall>u \<in> set (FromConfig cfg). EffectiveFrom u \<le> t \<longrightarrow> fmlookup (Prices u) d \<noteq> None \<longrightarrow>
           EffectiveFrom u \<le> EffectiveFrom v)
   | None \<Rightarrow> \<forall>v \<in> set (FromConfig cfg). EffectiveFrom v \<le> t \<longrightarrow> fmlookup (Prices v) d = None"
proof (cases "Resolve_price (FromConfig cfg) d t")
  case None
  then have "\<forall>v \<in> set (FromConfig cfg). t < EffectiveFrom v \<or> fmlookup (Prices v) d = None"
    by (simp add: Resolve_price_def resolve_loop_None)
  with None show ?thesis by fastforce
next
  case (Some en)
  obtain e n where en: "en = (e, n)" by fastforce
  show ?thesis using resolve_sorted[OF book_sorted, of cfg d t e n] Some en by simp
qed

definition demo_book_versions :: "PriceVersionConfig list" where
  "demo_book_versions =
    [\<lparr>pvVersion = ''v2'', pvEffectiveFrom = ''2026-02-01T00:00:00Z'',
       pvPrices = fmap_of_list [(''q/n'', \<lparr>peInputPerMTok = 9, peOutputPerMTok = 9,
         peCacheReadPerMTok = None, peCacheWritePerMTok = None\<rparr>)]\<rparr>,
     \<lparr>pvVersion = ''v1'', pvEffectiveFrom = ''2026-01-01T00:00:00+01:00'',
       pvPrices = fmap_of_list [(''p/m'', \<lparr>peInputPerMTok = 3, peOutputPerMTok = 15,
         peCacheReadPerMTok = Some (1/4), peCacheWritePerMTok = None\<rparr>)]\<rparr>]"

definition demo_future_version :: PriceVersionConfig where
  "demo_future_version = \<lparr>pvVersion = ''v3'', pvEffectiveFrom = ''2027-01-01T00:00:00Z'',
     pvPrices = fmap_of_list [(''p/m'', \<lparr>peInputPerMTok = 4, peOutputPerMTok = 20,
       peCacheReadPerMTok = None, peCacheWritePerMTok = None\<rparr>)]\<rparr>"

definition demo_book_config :: "PriceVersionConfig list \<Rightarrow> Config" where
  "demo_book_config vs = zero_Config\<lparr>PricingVersions := vs\<rparr>"

definition demo_now :: gotime where
  "demo_now = Date 2026 6 15 12 0 0 0"

theorem price_is_latest_effective_witness:
  "map_option snd (Resolve_price (FromConfig (demo_book_config demo_book_versions)) ''p/m'' demo_now)
     = Some ''v1'' \<and>
   (case Resolve_price (FromConfig (demo_book_config demo_book_versions)) ''p/m'' demo_now of
     Some (e, n) \<Rightarrow> \<exists>v \<in> set (FromConfig (demo_book_config demo_book_versions)).
        EffectiveFrom v \<le> demo_now \<and> fmlookup (Prices v) ''p/m'' = Some e \<and> vName v = n \<and>
        (\<forall>u \<in> set (FromConfig (demo_book_config demo_book_versions)).
           EffectiveFrom u \<le> demo_now \<longrightarrow> fmlookup (Prices u) ''p/m'' \<noteq> None \<longrightarrow>
           EffectiveFrom u \<le> EffectiveFrom v)
   | None \<Rightarrow> \<forall>v \<in> set (FromConfig (demo_book_config demo_book_versions)).
        EffectiveFrom v \<le> demo_now \<longrightarrow> fmlookup (Prices v) ''p/m'' = None)"
  by (rule conjI[OF _ price_is_latest_effective]) code_simp

text \<open>A price version dated after an instant never changes the rates resolved at
that instant, wherever it is inserted into the configured list: recorded usage is
not repriced by publishing a future price.\<close>

theorem future_version_never_reprices:
  assumes "version_of v = Some ver" and "t < EffectiveFrom ver"
    and "PricingVersions cfg = vs @ ws" and "PricingVersions cfg' = vs @ v # ws"
  shows "Resolve_price (FromConfig cfg') d t = Resolve_price (FromConfig cfg) d t"
proof -
  have "filter (\<lambda>v. EffectiveFrom v \<le> t) (List.map_filter version_of (PricingVersions cfg')) =
        filter (\<lambda>v. EffectiveFrom v \<le> t) (List.map_filter version_of (PricingVersions cfg))"
    using assms(1,2) unfolding assms(3,4)
    by (simp add: map_filter_append List.map_filter_simps)
  then show ?thesis by (simp only: Resolve_price_current)
qed

theorem future_version_never_reprices_witness:
  "Resolve_price (FromConfig (demo_book_config (demo_future_version # demo_book_versions)))
     ''p/m'' demo_now =
   Resolve_price (FromConfig (demo_book_config demo_book_versions)) ''p/m'' demo_now"
proof (rule future_version_never_reprices[where vs = "[]" and ws = demo_book_versions])
  show "version_of demo_future_version = Some (the (version_of demo_future_version))" by code_simp
  show "demo_now < EffectiveFrom (the (version_of demo_future_version))" by code_simp
qed (simp_all add: demo_book_config_def)

section \<open>Costs are finite and non-negative\<close>

lemma guard_cost_fin: "\<exists>c. guard_cost x = Fin c \<and> 0 \<le> c"
  by (cases x) (auto simp: guard_cost_def IsNaN_def IsInf_def)

text \<open>Whatever the rates (NaN, infinite or negative ones included) and the token
counts, the cost of a usage report and an admission estimate are finite
non-negative numbers.\<close>

theorem cost_is_finite_nonneg:
  "(\<exists>c. Cost e i out cr cw b = Fin c \<and> 0 \<le> c) \<and> (\<exists>c. Estimate e i out = Fin c \<and> 0 \<le> c)"
  unfolding Cost_def Estimate_def Let_def by (simp only: guard_cost_fin simp_thms)

end
