(* ===== verification/Hashes.thy ===== *)
theory Hashes
  imports Prelude
begin

text \<open>
  The parts of Go's standard library that turn request keys into table
  indices and cache keys: \<^verbatim>\<open>hash/fnv\<close> (64-bit FNV-1a),
  \<^verbatim>\<open>crypto/sha256\<close> (FIPS 180-4), \<^verbatim>\<open>encoding/hex\<close> and
  \<^verbatim>\<open>strconv.FormatUint\<close> in base ten.  Strings are byte lists, so the
  functions are total on every Go string.  The facts proved here are the ones
  the clients rest on: FNV reduces to an index below the modulus, a digest has
  32 bytes, hexadecimal encoding is injective and never yields a separator
  character, and decimal numerals determine their number.
\<close>

unbundle bit_operations_syntax

section \<open>FNV-1a\<close>

definition byte64 :: "char \<Rightarrow> 64 word" where
  "byte64 c = of_nat (of_char c)"

definition fnv_write :: "64 word \<Rightarrow> string \<Rightarrow> 64 word" where
  "fnv_write h s = foldl (\<lambda>h c. (h XOR byte64 c) * 1099511628211) h s"

definition fnv64a :: "64 word" where
  "fnv64a = 14695981039346656037"

text \<open>Writing in pieces is the same as writing the concatenation.\<close>

lemma fnv_write_append: "fnv_write h (s @ t) = fnv_write (fnv_write h s) t"
  by (simp add: fnv_write_def)

text \<open>The uint64 remainder \<^verbatim>\<open>Sum64() % uint64(n)\<close> read back as an int.\<close>

definition mod_index :: "64 word \<Rightarrow> nat \<Rightarrow> nat" where
  "mod_index h n = nat (uint h mod int n)"

lemma mod_index_less: "0 < n \<Longrightarrow> mod_index h n < n"
  by (simp add: mod_index_def nat_less_iff)

section \<open>SHA-256\<close>

text \<open>
  The constants of the standard are the first 32 bits of the fractional parts of square and
  cube roots of small primes; an integer root of a scaled prime, truncated to a word, is
  exactly that.
\<close>

definition int_root :: "nat \<Rightarrow> int \<Rightarrow> int" where
  "int_root k n = foldl (\<lambda>r i. if (r + 2 ^ i) ^ k \<le> n then r + 2 ^ i else r) 0 (rev [0..<40])"

definition sha_primes :: "int list" where
  "sha_primes = filter (\<lambda>n. \<forall>d \<in> set [2..n - 1]. n mod d \<noteq> 0) [2..311]"

definition sha_K :: "32 word list" where
  "sha_K = map (\<lambda>p. word_of_int (int_root 3 (p * 2 ^ 96))) sha_primes"

definition sha_H0 :: "32 word list" where
  "sha_H0 = map (\<lambda>p. word_of_int (int_root 2 (p * 2 ^ 64))) [2, 3, 5, 7, 11, 13, 17, 19]"

definition rotr32 :: "nat \<Rightarrow> 32 word \<Rightarrow> 32 word" where
  "rotr32 n x = drop_bit n x OR push_bit (32 - n) x"

definition byte32 :: "nat \<Rightarrow> 32 word" where
  "byte32 b = of_nat b"

definition be32 :: "nat list \<Rightarrow> 32 word" where
  "be32 bs = foldl (\<lambda>w b. push_bit 8 w OR byte32 b) 0 bs"

text \<open>Padding: a 1 bit, zeros, and the bit length as a 64-bit big-endian number.\<close>

definition sha_pad :: "nat list \<Rightarrow> nat list" where
  "sha_pad bs =
     (let n = length bs in
      bs @ [128] @ replicate ((119 - n mod 64) mod 64) 0 @
      map (\<lambda>i. (8 * n) div 256 ^ (7 - i) mod 256) [0..<8])"

lemma sha_pad_blocks: "64 dvd length (sha_pad bs)"
proof -
  define r where "r = length bs mod 64"
  define z where "z = (119 - r) mod 64"
  have "r < 64" by (simp add: r_def)
  then have z: "z = (if r \<le> 55 then 55 - r else 119 - r)"
    by (auto simp: z_def mod_if)
  have "length (sha_pad bs) = length bs + 9 + z"
    by (simp add: sha_pad_def Let_def z_def r_def)
  also have "\<dots> = 64 * (length bs div 64) + (r + 9 + z)"
    by (simp add: r_def)
  also have "r + 9 + z = (if r \<le> 55 then 64 else 128)"
    using \<open>r < 64\<close> by (simp add: z)
  finally show ?thesis by (auto split: if_splits)
qed

fun chunks :: "nat \<Rightarrow> nat \<Rightarrow> 'a list \<Rightarrow> 'a list list" where
  "chunks 0 k xs = []"
| "chunks (Suc n) k xs = (if xs = [] then [] else take k xs # chunks n k (drop k xs))"

definition sha_extend :: "32 word list \<Rightarrow> 32 word list" where
  "sha_extend ws =
     (let n = length ws; w15 = ws ! (n - 15); w2 = ws ! (n - 2);
          s0 = rotr32 7 w15 XOR rotr32 18 w15 XOR drop_bit 3 w15;
          s1 = rotr32 17 w2 XOR rotr32 19 w2 XOR drop_bit 10 w2
      in ws @ [ws ! (n - 16) + s0 + ws ! (n - 7) + s1])"

definition sha_schedule :: "nat list \<Rightarrow> 32 word list" where
  "sha_schedule block = (sha_extend ^^ 48) (map be32 (chunks 16 4 block))"

definition sha_round :: "32 word list \<Rightarrow> 32 word \<times> 32 word \<Rightarrow> 32 word list" where
  "sha_round st kw =
     (let a = st ! 0; b = st ! 1; c = st ! 2; d = st ! 3;
          e = st ! 4; f = st ! 5; g = st ! 6; h = st ! 7;
          S1 = rotr32 6 e XOR rotr32 11 e XOR rotr32 25 e;
          ch = (e AND f) XOR (NOT e AND g);
          t1 = h + S1 + ch + fst kw + snd kw;
          S0 = rotr32 2 a XOR rotr32 13 a XOR rotr32 22 a;
          maj = (a AND b) XOR (a AND c) XOR (b AND c)
      in [t1 + (S0 + maj), a, b, c, d + t1, e, f, g])"

definition sha_block :: "32 word list \<Rightarrow> nat list \<Rightarrow> 32 word list" where
  "sha_block hs block =
     map2 (+) hs (foldl sha_round hs (zip sha_K (sha_schedule block)))"

definition word_bytes :: "32 word \<Rightarrow> nat list" where
  "word_bytes w = map (\<lambda>i. unat w div 256 ^ (3 - i) mod 256) [0..<4]"

definition Sum256 :: "string \<Rightarrow> nat list" where
  "Sum256 s =
     (let p = sha_pad (map of_char s)
      in concat (map word_bytes (foldl sha_block sha_H0 (chunks (length p) 64 p))))"

lemma length_sha_rounds: "length hs = 8 \<Longrightarrow> length (foldl sha_round hs kws) = 8"
  by (induction kws arbitrary: hs) (simp_all add: sha_round_def Let_def)

lemma length_sha_blocks: "length hs = 8 \<Longrightarrow> length (foldl sha_block hs bs) = 8"
  by (induction bs arbitrary: hs) (simp_all add: sha_block_def length_sha_rounds)

lemma length_concat_word_bytes: "length (concat (map word_bytes ws)) = 4 * length ws"
  by (induction ws) (simp_all add: word_bytes_def)

lemma length_Sum256 [simp]: "length (Sum256 s) = 32"
  by (simp add: Sum256_def Let_def length_concat_word_bytes length_sha_blocks sha_H0_def)

lemma Sum256_bytes: "\<forall>b \<in> set (Sum256 s). b < 256"
  by (auto simp: Sum256_def Let_def word_bytes_def)

section \<open>Hexadecimal and decimal numerals\<close>

definition hex_digit :: "nat \<Rightarrow> char" where
  "hex_digit n = (if n < 10 then char_of (48 + n) else char_of (87 + n))"

definition EncodeToString :: "nat list \<Rightarrow> string" where
  "EncodeToString bs = concat (map (\<lambda>b. [hex_digit (b div 16), hex_digit (b mod 16)]) bs)"

lemma hex_digit_code: "n < 16 \<Longrightarrow> of_char (hex_digit n) = (if n < 10 then 48 + n else 87 + n)"
  by (simp add: hex_digit_def)

lemma hex_digit_inj:
  assumes "m < 16" and "n < 16" and "hex_digit m = hex_digit n"
  shows "m = n"
proof -
  have "(of_char (hex_digit m) :: nat) = of_char (hex_digit n)" by (simp only: assms(3))
  then have "(if m < 10 then 48 + m else 87 + m) = (if n < 10 then 48 + n else 87 + n)"
    by (simp only: hex_digit_code[OF assms(1)] hex_digit_code[OF assms(2)])
  then show ?thesis using assms(1,2) by (simp split: if_splits)
qed

lemma EncodeToString_inj:
  "\<forall>b \<in> set xs. b < 256 \<Longrightarrow> \<forall>b \<in> set ys. b < 256 \<Longrightarrow>
   EncodeToString xs = EncodeToString ys \<Longrightarrow> xs = ys"
proof (induction xs arbitrary: ys)
  case Nil
  then show ?case by (cases ys) (simp_all add: EncodeToString_def)
next
  case (Cons x xs)
  then obtain y ys' where ys: "ys = y # ys'" by (cases ys) (simp_all add: EncodeToString_def)
  have "hex_digit (x div 16) = hex_digit (y div 16)" "hex_digit (x mod 16) = hex_digit (y mod 16)"
    using Cons.prems(3) by (simp_all add: ys EncodeToString_def)
  then have "x div 16 = y div 16" "x mod 16 = y mod 16"
    using Cons.prems(1,2) by (auto simp: ys intro: hex_digit_inj)
  then have "x div 16 * 16 + x mod 16 = y div 16 * 16 + y mod 16" by (simp only:)
  then have "x = y" by (simp only: div_mult_mod_eq)
  moreover have "xs = ys'"
    using Cons.prems by (intro Cons.IH) (simp_all add: ys EncodeToString_def)
  ultimately show ?case by (simp add: ys)
qed

lemma length_EncodeToString [simp]: "length (EncodeToString bs) = 2 * length bs"
  by (induction bs) (simp_all add: EncodeToString_def)

text \<open>No hexadecimal digit is the separator used in composite keys.\<close>

lemma hex_digit_no_bar: "n < 16 \<Longrightarrow> hex_digit n \<noteq> CHR ''|''"
proof
  assume n: "n < 16" and "hex_digit n = CHR ''|''"
  then have "(of_char (hex_digit n) :: nat) = 124" by simp
  with hex_digit_code[OF n] n show False by (simp split: if_splits)
qed

lemma hex_no_bar: "\<forall>b \<in> set bs. b < 256 \<Longrightarrow> CHR ''|'' \<notin> set (EncodeToString bs)"
proof (induction bs)
  case Nil
  then show ?case by (simp add: EncodeToString_def)
next
  case (Cons b bs)
  then have "hex_digit (b div 16) \<noteq> CHR ''|''" "hex_digit (b mod 16) \<noteq> CHR ''|''"
    by (auto intro!: hex_digit_no_bar)
  with Cons show ?case by (auto simp: EncodeToString_def)
qed

fun dec_digits :: "nat \<Rightarrow> string" where
  "dec_digits n = (if n < 10 then [char_of (48 + n)] else dec_digits (n div 10) @ [char_of (48 + n mod 10)])"

declare dec_digits.simps [simp del]

definition FormatUint :: "64 word \<Rightarrow> string" where
  "FormatUint w = dec_digits (unat w)"

definition dec_value :: "string \<Rightarrow> nat" where
  "dec_value s = foldl (\<lambda>n c. 10 * n + (of_char c - 48)) 0 s"

lemma dec_roundtrip: "dec_value (dec_digits n) = n"
proof (induction n rule: dec_digits.induct)
  case (1 n)
  then show ?case
    by (subst dec_digits.simps) (auto simp: dec_value_def)
qed

lemma FormatUint_inj: "FormatUint a = FormatUint b \<Longrightarrow> a = b"
  by (metis FormatUint_def dec_roundtrip word_unat_eq_iff)

end
