(* ===== verification/Conformance.thy ===== *)
theory Conformance
  imports GoTime
begin

text \<open>
  The conformance manifest (\<^verbatim>\<open>src/internal/providers/conformance.go\<close>): the evidence state
  of sixteen dimensions for each provider dialect, with its lookup, its staleness policy
  and its structural validation.  Limitation texts and notes, which are only displayed,
  are left out; problems found by the validation are values of a datatype instead of
  formatted messages, in the order the code reports them before it sorts the messages.
\<close>

datatype ConformanceState = StateUntested | StateFixtureVerified | StateLiveVerified
  | StatePartial | StateUnsupported | StateStale

datatype ConformanceDimension = DimAddressing | DimAuth | DimNonStream | DimStreaming
  | DimToolCalls | DimToolResults | DimParallelTools | DimReasoning | DimStructuredOutput
  | DimImages | DimUsageCache | DimFinishReasons | DimErrorEnvelopes | DimRetryAfter
  | DimCancellation | DimIdempotency

definition ConformanceDimensions :: "ConformanceDimension list" where
  "ConformanceDimensions = [DimAddressing, DimAuth, DimNonStream, DimStreaming,
     DimToolCalls, DimToolResults, DimParallelTools, DimReasoning,
     DimStructuredOutput, DimImages, DimUsageCache, DimFinishReasons,
     DimErrorEnvelopes, DimRetryAfter, DimCancellation, DimIdempotency]"

record ConformanceEntry =
  ceDialect :: string
  ceContractVersion :: string
  ceNative :: bool
  ceStatus :: ConformanceState
  ceEvidenceSource :: string
  ceEvidenceDate :: string
  ceDimensions :: "(ConformanceDimension \<times> ConformanceState) list"

definition ManifestVersion :: string where
  "ManifestVersion = ''conformance.v1''"

definition DefaultStaleAfterDays :: int where
  "DefaultStaleAfterDays = 180"

text \<open>The claims of an entry, in the display order of the dimensions.\<close>

definition claims :: "ConformanceState list \<Rightarrow> (ConformanceDimension \<times> ConformanceState) list" where
  "claims sts = zip ConformanceDimensions sts"

definition Manifest :: "ConformanceEntry list" where
  "Manifest = [
     \<lparr>ceDialect = ''anthropic_compatible'', ceContractVersion = ManifestVersion, ceNative = True,
       ceStatus = StateFixtureVerified, ceEvidenceSource = ''internal/httpapi/conformance_test.go (M5-2 pairs); internal/protocol/canonical/conformance_regression_test.go'',
       ceEvidenceDate = ''2026-10-18'', ceDimensions = claims [
         StateFixtureVerified, StateFixtureVerified, StateFixtureVerified, StateFixtureVerified,
         StateFixtureVerified, StateFixtureVerified, StateFixtureVerified, StateFixtureVerified,
         StatePartial, StateFixtureVerified, StateFixtureVerified, StateFixtureVerified,
         StateFixtureVerified, StateFixtureVerified, StatePartial, StateUntested]\<rparr>,
     \<lparr>ceDialect = ''openai_compatible'', ceContractVersion = ManifestVersion, ceNative = True,
       ceStatus = StateFixtureVerified, ceEvidenceSource = ''internal/httpapi/conformance_test.go (M5-2 pairs); internal/providers/http_adapter_test.go'',
       ceEvidenceDate = ''2026-10-18'', ceDimensions = claims [
         StateFixtureVerified, StateFixtureVerified, StateFixtureVerified, StateFixtureVerified,
         StateFixtureVerified, StateFixtureVerified, StateFixtureVerified, StatePartial,
         StateFixtureVerified, StateFixtureVerified, StateFixtureVerified, StateFixtureVerified,
         StateFixtureVerified, StateFixtureVerified, StatePartial, StateUntested]\<rparr>,
     \<lparr>ceDialect = ''openai_responses'', ceContractVersion = ManifestVersion, ceNative = True,
       ceStatus = StateFixtureVerified, ceEvidenceSource = ''internal/httpapi/conformance_test.go (M5-2 pairs); internal/httpapi/codex_responses_test.go'',
       ceEvidenceDate = ''2026-10-18'', ceDimensions = claims [
         StateFixtureVerified, StateFixtureVerified, StateFixtureVerified, StateFixtureVerified,
         StateFixtureVerified, StateFixtureVerified, StateFixtureVerified, StateFixtureVerified,
         StateFixtureVerified, StateFixtureVerified, StateFixtureVerified, StateFixtureVerified,
         StateFixtureVerified, StateFixtureVerified, StatePartial, StateUntested]\<rparr>,
     \<lparr>ceDialect = ''gemini'', ceContractVersion = ManifestVersion, ceNative = False,
       ceStatus = StateFixtureVerified, ceEvidenceSource = ''internal/httpapi/conformance_test.go (M5-2 pairs); internal/protocol/canonical conformance fixtures'',
       ceEvidenceDate = ''2026-10-18'', ceDimensions = claims [
         StateFixtureVerified, StateFixtureVerified, StateFixtureVerified, StateFixtureVerified,
         StateFixtureVerified, StateFixtureVerified, StateUnsupported, StatePartial,
         StateFixtureVerified, StateFixtureVerified, StatePartial, StateFixtureVerified,
         StateFixtureVerified, StateFixtureVerified, StatePartial, StateUntested]\<rparr>,
     \<lparr>ceDialect = ''bedrock'', ceContractVersion = ManifestVersion, ceNative = False,
       ceStatus = StatePartial, ceEvidenceSource = ''internal/providers/bedrock_adapter_test.go; internal/providers/sigv4_test.go'',
       ceEvidenceDate = ''2026-10-18'', ceDimensions = claims [
         StatePartial, StatePartial, StatePartial, StatePartial,
         StatePartial, StatePartial, StateUnsupported, StateUnsupported,
         StateUnsupported, StatePartial, StatePartial, StatePartial,
         StatePartial, StatePartial, StateUntested, StateUntested]\<rparr>,
     \<lparr>ceDialect = ''azure_openai'', ceContractVersion = ManifestVersion, ceNative = False,
       ceStatus = StatePartial, ceEvidenceSource = ''internal/providers/azure_vertex_test.go'',
       ceEvidenceDate = ''2026-10-18'', ceDimensions = claims [
         StatePartial, StatePartial, StateUntested, StateUntested,
         StateUntested, StateUntested, StateUntested, StateUntested,
         StateUntested, StateUntested, StateUntested, StateUntested,
         StateUntested, StateUntested, StateUntested, StateUntested]\<rparr>,
     \<lparr>ceDialect = ''opencode-console'', ceContractVersion = ManifestVersion, ceNative = False,
       ceStatus = StatePartial, ceEvidenceSource = ''internal/providers/opencode_test.go; internal/httpapi/opencode_test.go (S1-S5 cells for 3 ingresses x both profiles); internal/config/opencode_test.go'',
       ceEvidenceDate = ''2026-10-28'', ceDimensions = claims [
         StateFixtureVerified, StateFixtureVerified, StateFixtureVerified, StateFixtureVerified,
         StateFixtureVerified, StateFixtureVerified, StatePartial, StatePartial,
         StateUntested, StateUntested, StatePartial, StatePartial,
         StateFixtureVerified, StateFixtureVerified, StatePartial, StateUntested]\<rparr>,
     \<lparr>ceDialect = ''opencode-go'', ceContractVersion = ManifestVersion, ceNative = False,
       ceStatus = StatePartial, ceEvidenceSource = ''internal/providers/opencode_test.go; internal/httpapi/opencode_test.go (S1-S5 cells for 3 ingresses x both profiles); internal/config/opencode_test.go'',
       ceEvidenceDate = ''2026-10-28'', ceDimensions = claims [
         StateFixtureVerified, StateFixtureVerified, StateFixtureVerified, StateFixtureVerified,
         StateFixtureVerified, StateFixtureVerified, StatePartial, StatePartial,
         StateUntested, StateUntested, StatePartial, StatePartial,
         StateFixtureVerified, StateFixtureVerified, StatePartial, StateUntested]\<rparr>,
     \<lparr>ceDialect = ''vertex'', ceContractVersion = ManifestVersion, ceNative = False,
       ceStatus = StatePartial, ceEvidenceSource = ''internal/providers/azure_vertex_test.go'',
       ceEvidenceDate = ''2026-10-18'', ceDimensions = claims [
         StatePartial, StatePartial, StateUntested, StateUntested,
         StateUntested, StateUntested, StateUntested, StateUntested,
         StateUntested, StateUntested, StateUntested, StateUntested,
         StateUntested, StateUntested, StateUntested, StateUntested]\<rparr>]"

definition ManifestEntry :: "string \<Rightarrow> ConformanceEntry option" where
  "ManifestEntry dialect = find (\<lambda>e. ceDialect e = dialect) Manifest"

definition dim_state :: "ConformanceEntry \<Rightarrow> ConformanceDimension \<Rightarrow> ConformanceState option" where
  "dim_state e dim = map_of (ceDimensions e) dim"

section \<open>Staleness\<close>

definition Parse_date :: "string \<Rightarrow> gotime option" where
  "Parse_date s0 = do {
     (y, s) \<leftarrow> fixnum 4 s0; s \<leftarrow> skip (CHR ''-'') s;
     (mo, s) \<leftarrow> fixnum 2 s; guard (1 \<le> mo \<and> mo \<le> 12); s \<leftarrow> skip (CHR ''-'') s;
     (d, s) \<leftarrow> fixnum 2 s;
     guard (s = [] \<and> 1 \<le> d \<and> d \<le> month_len y (nat mo));
     Some (Date y (nat mo) d 0 0 0 0) }"

definition EffectiveState :: "ConformanceEntry \<Rightarrow> gotime \<Rightarrow> int \<Rightarrow> ConformanceState" where
  "EffectiveState e now staleAfterDays =
     (if ceStatus e \<noteq> StateFixtureVerified \<and> ceStatus e \<noteq> StateLiveVerified \<and> ceStatus e \<noteq> StatePartial
      then ceStatus e
      else case Parse_date (ceEvidenceDate e) of
             None \<Rightarrow> StateStale
           | Some d \<Rightarrow> if i64 (i64 (staleAfterDays * 24) * hour) < Sub now d then StateStale else ceStatus e)"

section \<open>Validation\<close>

datatype manifest_problem = EmptyDialect | DuplicateEntry string | UnknownPreset string
  | WrongVersion string | MissingEvidence string | BadDate string
  | MissingDimension string ConformanceDimension | InvalidState string ConformanceDimension
  | LiveInsideWeaker string ConformanceDimension | NoEntry string

definition dimension_problems :: "ConformanceEntry \<Rightarrow> ConformanceDimension \<Rightarrow> manifest_problem list" where
  "dimension_problems e dim =
     (case dim_state e dim of
        None \<Rightarrow> [MissingDimension (ceDialect e) dim]
      | Some st \<Rightarrow>
          (if st = StateStale then [InvalidState (ceDialect e) dim] else []) @
          (if st = StateLiveVerified \<and> ceStatus e \<noteq> StateLiveVerified
           then [LiveInsideWeaker (ceDialect e) dim] else []))"

definition entry_problems :: "string list \<Rightarrow> string list \<Rightarrow> ConformanceEntry \<Rightarrow> manifest_problem list" where
  "entry_problems known seen e =
     (let d = ceDialect e in
      (if d \<in> set seen then [DuplicateEntry d] else []) @
      (if d \<notin> set known then [UnknownPreset d] else []) @
      (if ceContractVersion e \<noteq> ManifestVersion then [WrongVersion d] else []) @
      (if (ceStatus e = StateFixtureVerified \<or> ceStatus e = StateLiveVerified) \<and>
          TrimSpace (ceEvidenceSource e) = [] then [MissingEvidence d] else []) @
      (if Parse_date (ceEvidenceDate e) = None then [BadDate d] else []) @
      concat (map (dimension_problems e) ConformanceDimensions))"

fun validate_entries ::
    "string list \<Rightarrow> string list \<Rightarrow> ConformanceEntry list \<Rightarrow> manifest_problem list \<times> string list" where
  "validate_entries known seen [] = ([], seen)"
| "validate_entries known seen (e # es) =
     (if ceDialect e = [] then (let (ps, s) = validate_entries known seen es in (EmptyDialect # ps, s))
      else (let (ps, s) = validate_entries known (ceDialect e # seen) es
            in (entry_problems known seen e @ ps, s)))"

text \<open>The known dialects are a set in the source; the list is its iteration order.\<close>

definition ValidateManifest :: "ConformanceEntry list \<Rightarrow> string list \<Rightarrow> manifest_problem list" where
  "ValidateManifest entries known =
     (let (ps, seen) = validate_entries known [] entries
      in ps @ map NoEntry (filter (\<lambda>d. d \<notin> set seen) known))"

section \<open>What validation establishes\<close>

definition sound_entry :: "string list \<Rightarrow> ConformanceEntry \<Rightarrow> bool" where
  "sound_entry known e \<longleftrightarrow> ceDialect e \<noteq> [] \<and> ceDialect e \<in> set known \<and>
     ceContractVersion e = ManifestVersion \<and> Parse_date (ceEvidenceDate e) \<noteq> None \<and>
     (ceStatus e \<in> {StateFixtureVerified, StateLiveVerified} \<longrightarrow> TrimSpace (ceEvidenceSource e) \<noteq> []) \<and>
     (\<forall>dim \<in> set ConformanceDimensions. \<exists>st. dim_state e dim = Some st \<and> st \<noteq> StateStale \<and>
        (st = StateLiveVerified \<longrightarrow> ceStatus e = StateLiveVerified))"

lemma entry_problems_none:
  "ceDialect e \<noteq> [] \<Longrightarrow> entry_problems known seen e = [] \<Longrightarrow> sound_entry known e \<and> ceDialect e \<notin> set seen"
  by (auto simp: entry_problems_def sound_entry_def dimension_problems_def Let_def
      split: if_splits option.splits)

lemma validate_entries_none:
  "validate_entries known seen es = ([], s) \<Longrightarrow>
     (\<forall>e \<in> set es. sound_entry known e) \<and> distinct (map ceDialect es) \<and>
     set (map ceDialect es) \<inter> set seen = {} \<and> set s = set seen \<union> set (map ceDialect es)"
proof (induction es arbitrary: seen)
  case (Cons e es)
  from Cons.prems have ne: "ceDialect e \<noteq> []" by (auto simp: Let_def split: prod.splits)
  with Cons.prems have rest: "validate_entries known (ceDialect e # seen) es = ([], s)"
    and e: "entry_problems known seen e = []"
    by (auto simp: Let_def split: prod.splits)
  from Cons.IH[OF rest] entry_problems_none[OF ne e] show ?case by auto
qed simp

text \<open>A manifest that passes validation is structurally honest: its dialects are distinct
and shipped, every shipped dialect has an entry, each entry names the current contract
version and a real evidence date, verified entries cite a source, all sixteen dimensions
carry a stored state, and no dimension claims live evidence inside a weaker entry.\<close>

theorem validated_manifest_is_sound:
  assumes "ValidateManifest entries known = []"
  shows "distinct (map ceDialect entries) \<and> set (map ceDialect entries) = set known \<and>
     list_all (sound_entry known) entries"
proof -
  obtain s where v: "validate_entries known [] entries = ([], s)"
    and all: "filter (\<lambda>d. d \<notin> set s) known = []"
    using assms by (auto simp: ValidateManifest_def Let_def split: prod.splits)
  note f = validate_entries_none[OF v]
  then have "set (map ceDialect entries) \<subseteq> set known" by (auto simp: sound_entry_def)
  moreover have "set known \<subseteq> set (map ceDialect entries)"
    using all f by (auto simp: filter_empty_conv)
  ultimately show ?thesis using f by (auto simp: list_all_iff)
qed

theorem validated_manifest_is_sound_witness:
  "distinct (map ceDialect Manifest) \<and> list_all (sound_entry (map ceDialect Manifest)) Manifest"
proof -
  have "ValidateManifest Manifest (map ceDialect Manifest) = []" by code_simp
  from validated_manifest_is_sound[OF this] show ?thesis by blast
qed

end
