(* ===== verification/Router.thy ===== *)
theory Router
  imports Health Pricing Hashes Conformance
begin

text \<open>
  The routing core (\<^verbatim>\<open>src/internal/router/router.go\<close>): the deployment tables built
  by \<^verbatim>\<open>Reload\<close>, the eligibility funnel \<^verbatim>\<open>evaluateDeployment\<close>, scoring, session
  affinity pins, and the ordering strategies.

  The router's mutable state is the record \<open>Router\<close>; the health manager it points to
  is passed beside it.  Methods that change state return it.  Every reading of the
  clock is an argument; the loops over deployments take a clock function whose value
  at \<open>2 i\<close> and \<open>2 i + 1\<close> is what the two reads for the i-th deployment see.  Slices
  sorted in place are lists that the function returns.  \<^verbatim>\<open>LoadForProvider\<close> is an
  optional function, \<^verbatim>\<open>ProviderLoad\<close> a map.
\<close>

section \<open>Data\<close>

record Deployment =
  dID :: string
  dProviderID :: string
  dProviderName :: string
  dProviderType :: string
  dModel :: string
  dAliases :: "string list"
  dPriority :: int
  dWeight :: rat
  dContextWindow :: int
  dInputCostPerMTok :: rat
  dOutputCostPerMTok :: rat
  dCapabilities :: Capabilities
  dTrainsOnData :: string

record ProviderLoad =
  plActive :: int
  plWaiting :: int
  plLimit :: int
  plQuotaExhausted :: bool
  plQuotaPressure :: rat

definition zero_ProviderLoad :: ProviderLoad where
  "zero_ProviderLoad = \<lparr>plActive = 0, plWaiting = 0, plLimit = 0,
     plQuotaExhausted = False, plQuotaPressure = 0\<rparr>"

record Requirement =
  rqModel :: string
  rqTools :: bool
  rqVision :: bool
  rqStreaming :: bool
  rqReasoning :: bool
  rqStructuredOutput :: bool
  rqParallelTools :: bool
  rqProviderType :: string
  rqSessionKey :: string
  rqSelectionKey :: string
  rqProviderLoad :: "(string, ProviderLoad) fmap"
  rqLoadForProvider :: "(string \<Rightarrow> ProviderLoad) option"
  rqMinContextWindow :: int
  rqEstimatedInputTokens :: int
  rqMaxOutputTokens :: int
  rqRequireNoTraining :: bool

definition req_scopes :: "Requirement \<Rightarrow> string list" where
  "req_scopes r =
     (if rqTools r then [''tools''] else []) @
     (if rqVision r then [''vision''] else []) @
     (if rqStreaming r then [''streaming''] else []) @
     (if rqReasoning r then [''reasoning''] else []) @
     (if rqStructuredOutput r then [''structured_output''] else []) @
     (if rqParallelTools r then [''parallel_tools''] else [])"

record Scored =
  scDeployment :: Deployment
  scHealth :: State
  scScore :: rat
  scCapacityPressure :: rat
  scEstimatedCostUSD :: rat
  scPriceKnown :: bool
  scScoreBase :: rat
  scHealthAdjustment :: rat
  scWeightContribution :: rat
  scPriorityPenalty :: rat
  scLatencyPenalty :: rat
  scCapacityPenalty :: rat
  scFailurePenalty :: rat

record sessionPin =
  pinDeployment :: string
  pinExpires :: gotime
  pinTurns :: int
  pinLastInputTokens :: int
  pinLastCacheReadTokens :: int

definition zero_sessionPin :: sessionPin where
  "zero_sessionPin = \<lparr>pinDeployment = [], pinExpires = 0, pinTurns = 0,
     pinLastInputTokens = 0, pinLastCacheReadTokens = 0\<rparr>"

definition maxSessionPins :: nat where
  "maxSessionPins = 10000"

record Router =
  rCfg :: Config
  rAll :: "Deployment list"
  rByID :: "(string, Deployment) fmap"
  rByModel :: "(string, Deployment list) fmap"
  rRR :: "64 word"
  rSessions :: "(string, sessionPin) fmap"

section \<open>The deployment tables\<close>

definition SatisfiesNoTraining :: "string \<Rightarrow> bool" where
  "SatisfiesNoTraining t \<longleftrightarrow> ToLower (TrimSpace t) = ''no''"

definition IsReadyStrategy :: "string \<Rightarrow> bool" where
  "IsReadyStrategy s \<longleftrightarrow> s = ''ready_mesh'' \<or> s = ''ready_queue'' \<or> s = ''cost_aware''"

definition build_deployment :: "Book \<Rightarrow> gotime \<Rightarrow> ProviderConfig \<Rightarrow> ModelConfig \<Rightarrow> Deployment" where
  "build_deployment book now p m =
     (let trains0 = ToLower (TrimSpace (TrainsOnData (pcDataHandling p)));
          trains = (if trains0 = [] then ''unknown'' else trains0);
          w = (if mcWeight m \<le> 0 then 1 else mcWeight m);
          d = \<lparr>dID = pcID p @ ''/'' @ mcID m, dProviderID = pcID p, dProviderName = pcName p,
                dProviderType = pcType p, dModel = mcModel m, dAliases = mcAliases m,
                dPriority = mcPriority m, dWeight = w, dContextWindow = mcContextWindow m,
                dInputCostPerMTok = mcInputCostPerMTok m, dOutputCostPerMTok = mcOutputCostPerMTok m,
                dCapabilities = mcCapabilities m, dTrainsOnData = trains\<rparr>
      in case Resolve_price book (dID d) now of
           Some (entry, _) \<Rightarrow> d\<lparr>dInputCostPerMTok := fin_val (InputPerMTok entry),
                               dOutputCostPerMTok := fin_val (OutputPerMTok entry)\<rparr>
         | None \<Rightarrow> d)"

text \<open>The keys of one deployment in \<^verbatim>\<open>byModel\<close>: non-empty, first occurrences only.\<close>

fun index_keys :: "string list \<Rightarrow> string list \<Rightarrow> string list" where
  "index_keys seen [] = []"
| "index_keys seen (k # ks) =
     (if k = [] \<or> k \<in> set seen then index_keys seen ks else k # index_keys (k # seen) ks)"

definition append_key ::
    "Deployment \<Rightarrow> (string, Deployment list) fmap \<Rightarrow> string \<Rightarrow> (string, Deployment list) fmap" where
  "append_key d t k = fmupd k (fm_get [] t k @ [d]) t"

type_synonym tables = "Deployment list \<times> (string, Deployment) fmap \<times> (string, Deployment list) fmap"

definition reload_model :: "Book \<Rightarrow> gotime \<Rightarrow> ProviderConfig \<Rightarrow> tables \<Rightarrow> ModelConfig \<Rightarrow> tables" where
  "reload_model book now p t m =
     (if \<not> mcEnabled m then t
      else (let (al, ids, models) = t; d = build_deployment book now p m
            in (al @ [d], fmupd (dID d) d ids,
                foldl (append_key d) models
                  (index_keys [] ([dID d, dModel d, mcID m] @ dAliases d)))))"

definition reload_provider :: "Book \<Rightarrow> gotime \<Rightarrow> tables \<Rightarrow> ProviderConfig \<Rightarrow> tables" where
  "reload_provider book now t p =
     (if \<not> pcEnabled p then t else foldl (reload_model book now p) t (pcModels p))"

definition build_tables :: "Config \<Rightarrow> gotime \<Rightarrow> tables" where
  "build_tables cfg bookNow =
     foldl (reload_provider (FromConfig cfg) bookNow) ([], fmempty, fmempty) (Providers cfg)"

text \<open>\<^verbatim>\<open>Reload\<close> builds the tables, installs them, then prunes the session pins.\<close>

definition Reload :: "Config \<Rightarrow> gotime \<Rightarrow> gotime \<Rightarrow> Router \<Rightarrow> Router" where
  "Reload cfg bookNow now r =
     (let (al, ids, models) = build_tables cfg bookNow;
          keep = (\<lambda>pin. fm_has ids (pinDeployment pin) \<and> \<not> After now (pinExpires pin));
          pins = (if \<not> SessionAffinity (Routing cfg) then fmempty
                  else fmfilter (\<lambda>k. keep (fm_get zero_sessionPin (rSessions r) k)) (rSessions r))
      in r\<lparr>rCfg := cfg, rAll := al, rByID := ids, rByModel := models, rSessions := pins\<rparr>)"

definition NewRouter :: "Config \<Rightarrow> gotime \<Rightarrow> gotime \<Rightarrow> Router" where
  "NewRouter cfg bookNow now =
     Reload cfg bookNow now \<lparr>rCfg = zero_Config, rAll = [], rByID = fmempty, rByModel = fmempty,
       rRR = 0, rSessions = fmempty\<rparr>"

definition any_model :: "string \<Rightarrow> bool" where
  "any_model model \<longleftrightarrow> model = [] \<or> model = ''auto'' \<or> model = ''claude-auto''"

definition matchesModel :: "Deployment \<Rightarrow> string \<Rightarrow> bool" where
  "matchesModel d model \<longleftrightarrow> any_model model \<or> dID d = model \<or> dModel d = model \<or>
     model \<in> set (dAliases d) \<or> HasSuffix (dID d) (''/'' @ model)"

section \<open>Scoring\<close>

fun healthRank :: "Status \<Rightarrow> int" where
  "healthRank Healthy = 0"
| "healthRank Unknown = 1"
| "healthRank HalfOpen = 2"
| "healthRank _ = 3"

definition capacityPressure :: "ProviderLoad \<Rightarrow> rat" where
  "capacityPressure l =
     (if plQuotaExhausted l then 4
      else (let p0 = (if 0 < plLimit l
                      then fdiv (fadd (float_of_int (plActive l)) (fmul 2 (float_of_int (plWaiting l))))
                             (float_of_int (plLimit l))
                      else 0);
                p1 = (if p0 < 0 then 0 else p0);
                p2 = (if 4 < p1 then 4 else p1);
                p3 = (if p2 < plQuotaPressure l then plQuotaPressure l else p2)
            in if 4 < p3 then 4 else p3))"

definition estimatedRequestCost :: "Deployment \<Rightarrow> Requirement \<Rightarrow> rat \<times> bool" where
  "estimatedRequestCost d req =
     (if rqEstimatedInputTokens req \<le> 0 \<or> rqMaxOutputTokens req \<le> 0 then (0, False)
      else if dInputCostPerMTok d \<le> 0 \<and> dOutputCostPerMTok d \<le> 0 then (0, False)
      else (let cost = fdiv (fadd (fmul (float_of_int (rqEstimatedInputTokens req)) (dInputCostPerMTok d))
                                  (fmul (float_of_int (rqMaxOutputTokens req)) (dOutputCostPerMTok d)))
                            1000000
            in if cost < 0 then (0, False) else (cost, True)))"

fun healthAdj :: "Status \<Rightarrow> rat" where
  "healthAdj Healthy = 35"
| "healthAdj Unknown = 10"
| "healthAdj HalfOpen = - 10"
| "healthAdj Degraded = - 20"
| "healthAdj _ = 0"

definition scored :: "Deployment \<Rightarrow> State \<Rightarrow> Requirement \<Rightarrow> Config \<Rightarrow> Scored" where
  "scored d hs req cfg =
     (let ha = healthAdj (hsStatus hs);
          load = (case rqLoadForProvider req of
                    Some f \<Rightarrow> f (dProviderID d)
                  | None \<Rightarrow> fm_get zero_ProviderLoad (rqProviderLoad req) (dProviderID d));
          pressure = capacityPressure load;
          wc = fmul (dWeight d) 10;
          pp = fmul (float_of_int (dPriority d)) 3;
          lp = fmul (EWMALatencyMS hs) (LatencyWeight (Routing cfg));
          cp = fmul pressure (CapacityWeight (Routing cfg));
          fp = fmul (EWMAFailureRate hs) (FailureWeight (Routing cfg));
          score = fsub (fsub (fsub (fsub (fadd (fadd 100 ha) wc) pp) lp) cp) fp;
          (cost, priceKnown) = estimatedRequestCost d req
      in \<lparr>scDeployment = d, scHealth = hs, scScore = score, scCapacityPressure = pressure,
          scEstimatedCostUSD = cost, scPriceKnown = priceKnown, scScoreBase = 100,
          scHealthAdjustment = ha, scWeightContribution = wc, scPriorityPenalty = pp,
          scLatencyPenalty = lp, scCapacityPenalty = cp, scFailurePenalty = fp\<rparr>)"

section \<open>The eligibility funnel\<close>

datatype exclusion = ExcludeModelMismatch | ExcludeProviderType | ExcludePrivacyNoTraining
  | ExcludeProviderCircuit | ExcludeContextWindow | ExcludeMissingTools | ExcludeMissingVision
  | ExcludeMissingStreaming | ExcludeMissingReasoning | ExcludeRetired | ExcludeNotReady
  | ExcludeCapabilityScopeNotReady | ExcludeConformanceStructuredOutput
  | ExcludeConformanceParallelTools | ExcludeConformanceReasoning | ExcludeCooldown

text \<open>The published reason codes of \<^verbatim>\<open>explain.go\<close>.\<close>

primrec reason_code :: "exclusion \<Rightarrow> string" where
  "reason_code ExcludeModelMismatch = ''model_mismatch''"
| "reason_code ExcludeProviderType = ''provider_type''"
| "reason_code ExcludePrivacyNoTraining = ''privacy_no_training''"
| "reason_code ExcludeProviderCircuit = ''provider_circuit_open''"
| "reason_code ExcludeContextWindow = ''context_window_too_small''"
| "reason_code ExcludeMissingTools = ''capability_tools_unsupported''"
| "reason_code ExcludeMissingVision = ''capability_vision_unsupported''"
| "reason_code ExcludeMissingStreaming = ''capability_streaming_unsupported''"
| "reason_code ExcludeMissingReasoning = ''capability_reasoning_unsupported''"
| "reason_code ExcludeRetired = ''retired''"
| "reason_code ExcludeNotReady = ''health_not_ready''"
| "reason_code ExcludeCapabilityScopeNotReady = ''capability_scope_not_ready''"
| "reason_code ExcludeConformanceStructuredOutput = ''conformance_structured_output_unsupported''"
| "reason_code ExcludeConformanceParallelTools = ''conformance_parallel_tools_unsupported''"
| "reason_code ExcludeConformanceReasoning = ''conformance_reasoning_unsupported''"
| "reason_code ExcludeCooldown = ''health_cooldown''"

text \<open>The guards before the first call of the health manager.\<close>

definition static_gate :: "Deployment \<Rightarrow> Requirement \<Rightarrow> bool \<Rightarrow> exclusion option" where
  "static_gate d req ignoreModel =
     (if \<not> ignoreModel \<and> \<not> matchesModel d (rqModel req) then Some ExcludeModelMismatch
      else if rqProviderType req \<noteq> [] \<and> dProviderType d \<noteq> rqProviderType req
        then Some ExcludeProviderType
      else if rqRequireNoTraining req \<and> \<not> SatisfiesNoTraining (dTrainsOnData d)
        then Some ExcludePrivacyNoTraining
      else None)"

text \<open>The guards between the provider circuit and the health lookup.\<close>

definition capability_gate :: "Deployment \<Rightarrow> Requirement \<Rightarrow> exclusion option" where
  "capability_gate d req =
     (if 0 < rqMinContextWindow req \<and> 0 < dContextWindow d \<and> dContextWindow d < rqMinContextWindow req
        then Some ExcludeContextWindow
      else if rqTools req \<and> \<not> capTools (dCapabilities d) then Some ExcludeMissingTools
      else if rqVision req \<and> \<not> capVision (dCapabilities d) then Some ExcludeMissingVision
      else if rqStreaming req \<and> \<not> capStreaming (dCapabilities d) then Some ExcludeMissingStreaming
      else if rqReasoning req \<and> \<not> capReasoning (dCapabilities d) then Some ExcludeMissingReasoning
      else case ManifestEntry (dProviderType d) of
             None \<Rightarrow> None
           | Some e \<Rightarrow>
               (if rqStructuredOutput req \<and> dim_state e DimStructuredOutput = Some StateUnsupported
                  then Some ExcludeConformanceStructuredOutput
                else if rqParallelTools req \<and> dim_state e DimParallelTools = Some StateUnsupported
                  then Some ExcludeConformanceParallelTools
                else if rqReasoning req \<and> dim_state e DimReasoning = Some StateUnsupported
                  then Some ExcludeConformanceReasoning
                else None))"

text \<open>The guards on the health state.\<close>

definition health_gate :: "string \<Rightarrow> State \<Rightarrow> bool \<Rightarrow> exclusion option" where
  "health_gate strategy hs scopesReady =
     (if hsStatus hs = Retired then Some ExcludeRetired
      else if IsReadyStrategy strategy then
        (if hsStatus hs \<noteq> Healthy then Some ExcludeNotReady
         else if strategy = ''ready_mesh'' \<and> \<not> scopesReady then Some ExcludeCapabilityScopeNotReady
         else None)
      else if hsStatus hs = Cooldown then Some ExcludeCooldown
      else None)"

definition evaluateDeployment ::
    "Deployment \<Rightarrow> Requirement \<Rightarrow> Config \<Rightarrow> bool \<Rightarrow> string list \<Rightarrow> gotime \<Rightarrow> gotime \<Rightarrow> Manager
       \<Rightarrow> (exclusion + Scored) \<times> Manager" where
  "evaluateDeployment d req cfg ignoreModel scopes t1 t2 m =
     (case static_gate d req ignoreModel of
        Some x \<Rightarrow> (Inl x, m)
      | None \<Rightarrow>
          (let (available, m1) = ProviderAvailable (dProviderID d) t1 m in
           if \<not> available then (Inl ExcludeProviderCircuit, m1)
           else case capability_gate d req of
                  Some x \<Rightarrow> (Inl x, m1)
                | None \<Rightarrow>
                    (let strategy = Strategy (Routing cfg);
                         healthScopes = (if strategy = ''ready_mesh'' \<or> strategy = ''cost_aware''
                                         then scopes else []);
                         ((hs, scopesReady), m2) = GetWithScopes (dID d) healthScopes t2 m1
                     in case health_gate strategy hs scopesReady of
                          Some x \<Rightarrow> (Inl x, m2)
                        | None \<Rightarrow> (Inr (scored d hs req cfg), m2))))"

definition eligibleDeployment ::
    "Deployment \<Rightarrow> Requirement \<Rightarrow> Config \<Rightarrow> bool \<Rightarrow> string list \<Rightarrow> gotime \<Rightarrow> gotime \<Rightarrow> Manager
       \<Rightarrow> Scored option \<times> Manager" where
  "eligibleDeployment d req cfg ignoreModel scopes t1 t2 m =
     (let (res, m') = evaluateDeployment d req cfg ignoreModel scopes t1 t2 m
      in (case res of Inl _ \<Rightarrow> None | Inr s \<Rightarrow> Some s, m'))"

section \<open>Session affinity\<close>

definition affinityBucket :: "Requirement \<Rightarrow> string" where
  "affinityBucket req =
     (if TrimSpace (rqSessionKey req) = [] then []
      else EncodeToString (take 16 (Sum256 (rqSessionKey req))) @ ''|'' @ rqModel req @ ''|'' @
        rqProviderType req @ ''|'' @ join '','' (req_scopes req) @ ''|'' @
        (if rqRequireNoTraining req then ''no_training'' else ''any''))"

text \<open>
  The read section of \<^verbatim>\<open>pinned\<close> answers unless the pin has expired; the write section
  checks again and reaps it.
\<close>

definition pinned_read :: "string \<Rightarrow> gotime \<Rightarrow> Router \<Rightarrow> string option" where
  "pinned_read key now r =
     (case fmlookup (rSessions r) key of
        None \<Rightarrow> Some []
      | Some pin \<Rightarrow> if Before now (pinExpires pin) then Some (pinDeployment pin) else None)"

definition pinned_write :: "string \<Rightarrow> gotime \<Rightarrow> Router \<Rightarrow> string \<times> Router" where
  "pinned_write key now r =
     (case fmlookup (rSessions r) key of
        None \<Rightarrow> ([], r)
      | Some pin \<Rightarrow>
          if After now (pinExpires pin) then ([], r\<lparr>rSessions := fmdrop key (rSessions r)\<rparr>)
          else (pinDeployment pin, r))"

definition pinned :: "Requirement \<Rightarrow> Config \<Rightarrow> gotime \<Rightarrow> gotime \<Rightarrow> Router \<Rightarrow> string \<times> Router" where
  "pinned req cfg now now' r =
     (if \<not> SessionAffinity (Routing cfg) then ([], r)
      else (let key = affinityBucket req in
            if key = [] then ([], r)
            else case pinned_read key now r of
                   Some d \<Rightarrow> (d, r)
                 | None \<Rightarrow> pinned_write key now' r))"

definition PinnedDeploymentID :: "Requirement \<Rightarrow> gotime \<Rightarrow> gotime \<Rightarrow> Router \<Rightarrow> string \<times> Router" where
  "PinnedDeploymentID req now now' r = pinned req (rCfg r) now now' r"

definition session_ttl :: "Config \<Rightarrow> duration" where
  "session_ttl cfg =
     (let ttl = i64 (SessionTTLSeconds (Routing cfg) * second) in if ttl \<le> 0 then hour else ttl)"

definition evict_one ::
    "(string fset \<Rightarrow> string list) \<Rightarrow> string \<Rightarrow> (string, sessionPin) fmap \<Rightarrow> (string, sessionPin) fmap" where
  "evict_one iter key pins =
     (if \<not> fm_has pins key \<and> maxSessionPins \<le> fm_len pins
      then fmdrop (hd (iter (fmdom pins))) pins else pins)"

definition ObserveSession ::
    "(string fset \<Rightarrow> string list) \<Rightarrow> Requirement \<Rightarrow> string \<Rightarrow> gotime \<Rightarrow> Router \<Rightarrow> Router" where
  "ObserveSession iter req did now r =
     (if \<not> SessionAffinity (Routing (rCfg r)) \<or> TrimSpace (rqSessionKey req) = [] \<or> did = [] then r
      else (let key = affinityBucket req;
                pins = evict_one iter key (rSessions r);
                pin0 = fm_get zero_sessionPin pins key;
                pin1 = (if pinDeployment pin0 \<noteq> did then zero_sessionPin\<lparr>pinDeployment := did\<rparr> else pin0);
                pin = pin1\<lparr>pinExpires := Add now (session_ttl (rCfg r)),
                           pinTurns := i64 (pinTurns pin1 + 1)\<rparr>
            in r\<lparr>rSessions := fmupd key pin pins\<rparr>))"

definition ObserveSessionCache :: "Requirement \<Rightarrow> string \<Rightarrow> int \<Rightarrow> int \<Rightarrow> Router \<Rightarrow> Router" where
  "ObserveSessionCache req did inputTokens cacheReadTokens r =
     (if \<not> SessionAffinity (Routing (rCfg r)) \<or> TrimSpace (rqSessionKey req) = [] \<or> did = [] then r
      else (let key = affinityBucket req in
            case fmlookup (rSessions r) key of
              None \<Rightarrow> r
            | Some pin \<Rightarrow>
                if pinDeployment pin \<noteq> did then r
                else (let p1 = (if 0 < inputTokens then pin\<lparr>pinLastInputTokens := inputTokens\<rparr> else pin);
                          p2 = (if 0 < cacheReadTokens
                                then p1\<lparr>pinLastCacheReadTokens := cacheReadTokens\<rparr> else p1)
                      in r\<lparr>rSessions := fmupd key p2 (rSessions r)\<rparr>)))"

definition sessionPinRecord :: "Requirement \<Rightarrow> Config \<Rightarrow> gotime \<Rightarrow> Router \<Rightarrow> sessionPin option" where
  "sessionPinRecord req cfg now r =
     (if \<not> SessionAffinity (Routing cfg) then None
      else (let key = affinityBucket req in
            if key = [] then None
            else case fmlookup (rSessions r) key of
                   None \<Rightarrow> None
                 | Some pin \<Rightarrow> if Before now (pinExpires pin) then Some pin else None))"

definition SessionCount :: "gotime \<Rightarrow> Router \<Rightarrow> nat \<times> Router" where
  "SessionCount now r =
     (let pins = fmfilter (\<lambda>k. \<not> After now (pinExpires (fm_get zero_sessionPin (rSessions r) k)))
                   (rSessions r)
      in (fm_len pins, r\<lparr>rSessions := pins\<rparr>))"

section \<open>Ordering strategies\<close>

definition hashIndex :: "string \<Rightarrow> char \<Rightarrow> nat \<Rightarrow> nat" where
  "hashIndex key salt n =
     (if n \<le> 1 then 0 else mod_index (fnv_write (fnv_write fnv64a key) [salt]) n)"

definition simulatedRotationOffset :: "Requirement \<Rightarrow> nat \<Rightarrow> nat" where
  "simulatedRotationOffset req window =
     (if window \<le> 1 then 0
      else (let key = (if rqSelectionKey req = [] then rqSessionKey req else rqSelectionKey req) in
            if key = [] \<and> rqModel req = [] then 0
            else mod_index (fnv_write (fnv_write (fnv_write fnv64a key) [char_of (0 :: nat)]) (rqModel req))
                   window))"

abbreviation prio :: "Scored \<Rightarrow> int" where
  "prio s \<equiv> dPriority (scDeployment s)"

abbreviation sc_id :: "Scored \<Rightarrow> string" where
  "sc_id s \<equiv> dID (scDeployment s)"

abbreviation sc_prov :: "Scored \<Rightarrow> string" where
  "sc_prov s \<equiv> dProviderID (scDeployment s)"

abbreviation sc_rank :: "Scored \<Rightarrow> int" where
  "sc_rank s \<equiv> healthRank (hsStatus (scHealth s))"

definition better :: "Scored \<Rightarrow> Scored \<Rightarrow> bool" where
  "better a b =
     (if scScore a \<noteq> scScore b then scScore b < scScore a
      else if scCapacityPressure a \<noteq> scCapacityPressure b
        then scCapacityPressure a < scCapacityPressure b
      else sc_id a < sc_id b)"

definition cost_less :: "Scored \<Rightarrow> Scored \<Rightarrow> bool" where
  "cost_less a b =
     (if prio a \<noteq> prio b then prio a < prio b
      else if scPriceKnown a \<noteq> scPriceKnown b then scPriceKnown a
      else if scPriceKnown a \<and> scEstimatedCostUSD a \<noteq> scEstimatedCostUSD b
        then scEstimatedCostUSD a < scEstimatedCostUSD b
      else better a b)"

definition mesh_less :: "Scored \<Rightarrow> Scored \<Rightarrow> bool" where
  "mesh_less a b = (if prio a \<noteq> prio b then prio a < prio b else better a b)"

definition queue_less :: "Scored \<Rightarrow> Scored \<Rightarrow> bool" where
  "queue_less a b =
     (if prio a \<noteq> prio b then prio a < prio b
      else if dWeight (scDeployment a) \<noteq> dWeight (scDeployment b)
        then dWeight (scDeployment b) < dWeight (scDeployment a)
      else sc_id a < sc_id b)"

definition priority_less :: "Scored \<Rightarrow> Scored \<Rightarrow> bool" where
  "priority_less a b =
     (if sc_rank a \<noteq> sc_rank b then sc_rank a < sc_rank b
      else if prio a \<noteq> prio b then prio a < prio b
      else scScore b < scScore a)"

definition latency_less :: "Scored \<Rightarrow> Scored \<Rightarrow> bool" where
  "latency_less a b =
     (let li = EWMALatencyMS (scHealth a); lj = EWMALatencyMS (scHealth b) in
      if sc_rank a \<noteq> sc_rank b then sc_rank a < sc_rank b
      else if li = 0 \<and> lj \<noteq> 0 then False
      else if li \<noteq> 0 \<and> lj = 0 then True
      else if li \<noteq> lj then li < lj
      else scScore b < scScore a)"

definition robin_less :: "Scored \<Rightarrow> Scored \<Rightarrow> bool" where
  "robin_less a b = (if sc_rank a \<noteq> sc_rank b then sc_rank a < sc_rank b else sc_id a < sc_id b)"

definition rank_less :: "Scored \<Rightarrow> Scored \<Rightarrow> bool" where
  "rank_less a b =
     (if sc_rank a \<noteq> sc_rank b then sc_rank a < sc_rank b else scScore b < scScore a)"

text \<open>
  \<^verbatim>\<open>chosen := out[p]; copy(out[i+1:p+1], out[i:p]); out[i] = chosen\<close> for \<open>i \<le> p\<close>.
\<close>

definition move_to :: "nat \<Rightarrow> nat \<Rightarrow> 'a list \<Rightarrow> 'a list" where
  "move_to i p xs = take i xs @ [xs ! p] @ drop i (take p xs) @ drop (Suc p) xs"

definition diversify_pick :: "Scored list \<Rightarrow> nat \<Rightarrow> nat option" where
  "diversify_pick out i =
     find (\<lambda>j. sc_prov (out ! j) \<noteq> sc_prov (out ! (i - 1)))
       (takeWhile (\<lambda>j. prio (out ! j) = prio (out ! i)) [Suc i..<length out])"

definition diversify_step :: "Scored list \<Rightarrow> nat \<Rightarrow> Scored list" where
  "diversify_step out i =
     (if sc_prov (out ! i) \<noteq> sc_prov (out ! (i - 1)) then out
      else case diversify_pick out i of None \<Rightarrow> out | Some p \<Rightarrow> move_to i p out)"

definition diversifyProviderFailover :: "Scored list \<Rightarrow> int \<Rightarrow> int \<Rightarrow> Scored list" where
  "diversifyProviderFailover out start attemptLimit =
     (let start' = (if start < 1 then 1 else start);
          stop = (if 0 < attemptLimit \<and> attemptLimit < int (length out)
                  then nat attemptLimit else length out)
      in foldl diversify_step out [nat start'..<stop])"

text \<open>The pin, when it is in the best priority tier, moves to the front.\<close>

definition pin_index :: "string \<Rightarrow> Scored list \<Rightarrow> nat option" where
  "pin_index pin out =
     (if pin = [] then None
      else find (\<lambda>i. sc_id (out ! i) = pin \<and> prio (out ! i) = prio (out ! 0)) [0..<length out])"

definition orderCostAware ::
    "Scored list \<Rightarrow> Requirement \<Rightarrow> Config \<Rightarrow> gotime \<Rightarrow> gotime \<Rightarrow> Router \<Rightarrow> Scored list \<times> Router" where
  "orderCostAware out0 req cfg now now' r =
     (let out = SliceStable cost_less out0 in
      if length out < 2 then (out, r)
      else (let (pin, r') = pinned req cfg now now' r;
                out' = (case pin_index pin out of Some i \<Rightarrow> move_to 0 i out | None \<Rightarrow> out)
            in (diversifyProviderFailover out' 1 (MaxAttempts (Routing cfg)), r')))"

definition p2c_window :: "Scored list \<Rightarrow> Config \<Rightarrow> nat" where
  "p2c_window out cfg =
     (let w = Suc (length (takeWhile (\<lambda>s. prio s = prio (out ! 0)) (tl out)));
          limit = P2CWindow (Routing cfg)
      in if 0 < limit \<and> limit < int w then nat limit else w)"

definition p2c_key :: "Requirement \<Rightarrow> bool \<Rightarrow> Router \<Rightarrow> string \<times> Router" where
  "p2c_key req simulated r =
     (let key = (if rqSelectionKey req = [] then rqSessionKey req else rqSelectionKey req) in
      if key = [] \<and> \<not> simulated
      then (let n = rRR r + 1 in (FormatUint n, r\<lparr>rRR := n\<rparr>))
      else (key, r))"

definition p2c_winner :: "string \<Rightarrow> nat \<Rightarrow> Scored list \<Rightarrow> nat" where
  "p2c_winner key window out =
     (let a = hashIndex key (CHR ''a'') window;
          b0 = hashIndex key (CHR ''b'') (window - 1);
          b = (if a \<le> b0 then Suc b0 else b0)
      in if better (out ! b) (out ! a) then b else a)"

definition orderReadyMesh ::
    "Scored list \<Rightarrow> Requirement \<Rightarrow> Config \<Rightarrow> bool \<Rightarrow> gotime \<Rightarrow> gotime \<Rightarrow> Router \<Rightarrow> Scored list \<times> Router" where
  "orderReadyMesh out0 req cfg simulated now now' r0 =
     (let out = SliceStable mesh_less out0; limit = MaxAttempts (Routing cfg) in
      if length out < 2 then (out, r0)
      else (let (pin, r) = pinned req cfg now now' r0 in
            case pin_index pin out of
              Some i \<Rightarrow> (diversifyProviderFailover (move_to 0 i out) 1 limit, r)
            | None \<Rightarrow>
                (let window = p2c_window out cfg in
                 if window < 2 then (diversifyProviderFailover out 1 limit, r)
                 else (let (key, r') = p2c_key req simulated r;
                           w = p2c_winner key window out
                       in (diversifyProviderFailover (out[0 := out ! w, w := out ! 0]) 1 limit, r')))))"

definition rotation :: "bool \<Rightarrow> Requirement \<Rightarrow> nat \<Rightarrow> Router \<Rightarrow> nat \<times> Router" where
  "rotation simulated req window r =
     (if simulated then (simulatedRotationOffset req window, r)
      else (let n = rRR r + 1 in (mod_index (n - 1) window, r\<lparr>rRR := n\<rparr>)))"

definition rotate_prefix :: "nat \<Rightarrow> nat \<Rightarrow> 'a list \<Rightarrow> 'a list" where
  "rotate_prefix w off out = map (\<lambda>i. out ! ((i + off) mod w)) [0..<w] @ drop w out"

definition rotate_window ::
    "bool \<Rightarrow> Requirement \<Rightarrow> nat \<Rightarrow> Scored list \<Rightarrow> Router \<Rightarrow> Scored list \<times> Router" where
  "rotate_window simulated req w out r =
     (if 1 < w then (let (off, r') = rotation simulated req w r in (rotate_prefix w off out, r'))
      else (out, r))"

definition robin_window :: "Scored list \<Rightarrow> nat" where
  "robin_window out = Suc (length (takeWhile (\<lambda>s. sc_rank s = sc_rank (out ! 0)) (tl out)))"

definition adaptive_window :: "Scored list \<Rightarrow> nat" where
  "adaptive_window out =
     Suc (length (takeWhile
       (\<lambda>s. fsub (scScore (out ! 0)) 15 \<le> scScore s \<and> hsStatus (scHealth s) \<noteq> Degraded)
       (take 31 (tl out))))"

definition applyStrategyMode ::
    "Scored list \<Rightarrow> Requirement \<Rightarrow> Config \<Rightarrow> bool \<Rightarrow> gotime \<Rightarrow> gotime \<Rightarrow> Router \<Rightarrow> Scored list \<times> Router" where
  "applyStrategyMode out req cfg simulated now now' r =
     (let strategy = Strategy (Routing cfg) in
      if strategy = ''ready_mesh'' then orderReadyMesh out req cfg simulated now now' r
      else if strategy = ''cost_aware'' then orderCostAware out req cfg now now' r
      else if strategy = ''ready_queue'' then (SliceStable queue_less out, r)
      else if strategy = ''priority'' then (SliceStable priority_less out, r)
      else if strategy = ''least_latency'' then (SliceStable latency_less out, r)
      else if strategy = ''round_robin'' then
        (let out' = SliceStable robin_less out
         in rotate_window simulated req (robin_window out') out' r)
      else if strategy = ''adaptive_round_robin'' then
        (let out' = SliceStable rank_less out
         in rotate_window simulated req (adaptive_window out') out' r)
      else (SliceStable rank_less out, r))"

definition applyStrategy ::
    "Scored list \<Rightarrow> Requirement \<Rightarrow> Config \<Rightarrow> gotime \<Rightarrow> gotime \<Rightarrow> Router \<Rightarrow> Scored list \<times> Router" where
  "applyStrategy out req cfg now now' r = applyStrategyMode out req cfg False now now' r"

definition applyStrategySimulated ::
    "Scored list \<Rightarrow> Requirement \<Rightarrow> Config \<Rightarrow> gotime \<Rightarrow> gotime \<Rightarrow> Router \<Rightarrow> Scored list \<times> Router" where
  "applyStrategySimulated out req cfg now now' r = applyStrategyMode out req cfg True now now' r"

section \<open>Selection\<close>

fun build ::
    "(nat \<Rightarrow> gotime) \<Rightarrow> nat \<Rightarrow> Requirement \<Rightarrow> Config \<Rightarrow> bool \<Rightarrow> Deployment list \<Rightarrow> Manager
       \<Rightarrow> Scored list \<times> Manager" where
  "build clk i req cfg ignore [] m = ([], m)"
| "build clk i req cfg ignore (d # ds) m =
     (let (s, m1) = eligibleDeployment d req cfg ignore (req_scopes req) (clk (2 * i)) (clk (2 * i + 1)) m;
          (rest, m2) = build clk (Suc i) req cfg ignore ds m1
      in (case s of None \<Rightarrow> rest | Some x \<Rightarrow> x # rest, m2))"

definition model_source :: "Requirement \<Rightarrow> Router \<Rightarrow> Deployment list" where
  "model_source req r =
     (if any_model (rqModel req) then rAll r else fm_get [] (rByModel r) (rqModel req))"

definition model_known :: "Requirement \<Rightarrow> Router \<Rightarrow> bool" where
  "model_known req r \<longleftrightarrow> any_model (rqModel req) \<or> fm_get [] (rByModel r) (rqModel req) \<noteq> []"

definition collect ::
    "Requirement \<Rightarrow> (nat \<Rightarrow> gotime) \<Rightarrow> Router \<Rightarrow> Manager \<Rightarrow> Scored list \<times> Manager" where
  "collect req clk r m =
     (let cfg = rCfg r; source = model_source req r;
          (out, m') = build clk 0 req cfg False source m
      in if out = [] \<and> \<not> model_known req r \<and> FallbackOnUnknownModel (Routing cfg)
         then build clk (length source) req cfg True (rAll r) m' else (out, m'))"

definition Candidates ::
    "Requirement \<Rightarrow> (nat \<Rightarrow> gotime) \<Rightarrow> gotime \<Rightarrow> gotime \<Rightarrow> Router \<Rightarrow> Manager
       \<Rightarrow> Scored list \<times> Router \<times> Manager" where
  "Candidates req clk now now' r m =
     (let (out, m') = collect req clk r m
      in if length out \<le> 1 then (out, r, m')
         else (let (out', r') = applyStrategy out req (rCfg r) now now' r in (out', r', m')))"

definition Eligible ::
    "string \<Rightarrow> Requirement \<Rightarrow> gotime \<Rightarrow> gotime \<Rightarrow> Router \<Rightarrow> Manager \<Rightarrow> Scored option \<times> Manager" where
  "Eligible did req t1 t2 r m =
     (case fmlookup (rByID r) did of
        None \<Rightarrow> (None, m)
      | Some d \<Rightarrow>
          (let known = any_model (rqModel req) \<or> fm_has (rByModel r) (rqModel req);
               ignoreModel = (\<not> known \<and> FallbackOnUnknownModel (Routing (rCfg r)))
           in eligibleDeployment d req (rCfg r) ignoreModel (req_scopes req) t1 t2 m))"

definition DeploymentByID :: "string \<Rightarrow> Router \<Rightarrow> Deployment option" where
  "DeploymentByID did r = fmlookup (rByID r) did"

definition AllLimit :: "int \<Rightarrow> Router \<Rightarrow> Deployment list \<times> nat" where
  "AllLimit limit r =
     (let total = length (rAll r);
          n = (if 0 < limit \<and> limit < int total then nat limit else total)
      in (take n (rAll r), total))"

definition All_deployments :: "Router \<Rightarrow> Deployment list" where
  "All_deployments r = fst (AllLimit 0 r)"

fun readiness_loop ::
    "(nat \<Rightarrow> gotime) \<Rightarrow> nat \<Rightarrow> bool \<Rightarrow> Deployment list \<Rightarrow> Manager \<Rightarrow> nat \<times> Manager" where
  "readiness_loop clk i ready [] m = (0, m)"
| "readiness_loop clk i ready (d # ds) m =
     (let (available, m1) = ProviderAvailable (dProviderID d) (clk (2 * i)) m in
      if \<not> available then readiness_loop clk (Suc i) ready ds m1
      else (let (s, m2) = Get (dID d) (clk (2 * i + 1)) m1;
                ok = (if ready then hsStatus s = Healthy else hsStatus s \<noteq> Cooldown);
                (n, m3) = readiness_loop clk (Suc i) ready ds m2
            in (if ok then Suc n else n, m3)))"

definition Readiness :: "string \<Rightarrow> (nat \<Rightarrow> gotime) \<Rightarrow> Router \<Rightarrow> Manager \<Rightarrow> (nat \<times> nat) \<times> Manager" where
  "Readiness strategy clk r m =
     (let (usable, m') = readiness_loop clk 0 (IsReadyStrategy strategy) (rAll r) m
      in ((length (rAll r), usable), m'))"

end
