(* ===== verification/RouterOrder.thy ===== *)
theory RouterOrder
  imports Router
begin

text \<open>
  The ordering half of the router.  The seven comparators are strict weak orders, so
  each sort has exactly one stable result; the list surgery of pin promotion,
  power-of-two-choices, rotation and provider diversification only permutes the
  candidates; and the strategies that honour priorities keep priority tiers intact.
\<close>

section \<open>The comparators are weak orders\<close>

lemma weak_order_better: "weak_order better"
  unfolding better_def[abs_def] by (intro wo_intros)

interpretation better: weak_order better
  by (rule weak_order_better)

interpretation mesh: weak_order mesh_less
  unfolding mesh_less_def[abs_def] by (intro wo_intros weak_order_better)

interpretation queue: weak_order queue_less
  unfolding queue_less_def[abs_def] by (intro wo_intros)

interpretation priority: weak_order priority_less
  unfolding priority_less_def[abs_def] by (intro wo_intros)

interpretation robin: weak_order robin_less
  unfolding robin_less_def[abs_def] by (intro wo_intros)

interpretation rank: weak_order rank_less
  unfolding rank_less_def[abs_def] by (intro wo_intros)

text \<open>An unknown price compares after every known one, a zero average after every other.\<close>

lemma cost_less_keys:
  "cost_less = (\<lambda>a b. if prio a \<noteq> prio b then prio a < prio b
     else if (\<not> scPriceKnown a) \<noteq> (\<not> scPriceKnown b) then (\<not> scPriceKnown a) < (\<not> scPriceKnown b)
     else if (if scPriceKnown a then scEstimatedCostUSD a else 0) \<noteq>
             (if scPriceKnown b then scEstimatedCostUSD b else 0)
       then (if scPriceKnown a then scEstimatedCostUSD a else 0) <
            (if scPriceKnown b then scEstimatedCostUSD b else 0)
     else better a b)"
  by (intro ext) (auto simp: cost_less_def)

lemma latency_less_keys:
  "latency_less = (\<lambda>a b. if sc_rank a \<noteq> sc_rank b then sc_rank a < sc_rank b
     else if (EWMALatencyMS (scHealth a) = 0) \<noteq> (EWMALatencyMS (scHealth b) = 0)
       then (EWMALatencyMS (scHealth a) = 0) < (EWMALatencyMS (scHealth b) = 0)
     else if EWMALatencyMS (scHealth a) \<noteq> EWMALatencyMS (scHealth b)
       then EWMALatencyMS (scHealth a) < EWMALatencyMS (scHealth b)
     else scScore b < scScore a)"
  by (intro ext) (auto simp: latency_less_def Let_def)

interpretation cost: weak_order cost_less
  unfolding cost_less_keys by (intro wo_intros weak_order_better)

interpretation latency: weak_order latency_less
  unfolding latency_less_keys by (intro wo_intros)

section \<open>List surgery\<close>

lemma mset_move_to:
  assumes "i \<le> p" and "p < length xs"
  shows "mset (move_to i p xs) = mset xs"
proof -
  have "take p xs = take i xs @ drop i (take p xs)"
    using assms by (metis append_take_drop_id min.absorb1 take_take)
  moreover have "xs = take p xs @ xs ! p # drop (Suc p) xs"
    by (rule id_take_nth_drop[OF assms(2)])
  ultimately have "mset xs = mset (take i xs @ drop i (take p xs) @ xs ! p # drop (Suc p) xs)"
    by (metis append.assoc)
  then show ?thesis by (simp add: move_to_def)
qed

lemma length_move_to: "i \<le> p \<Longrightarrow> p < length xs \<Longrightarrow> length (move_to i p xs) = length xs"
  by (metis mset_move_to size_mset)

lemma nth_move_to:
  assumes "i \<le> p" and "p < length xs" and "k < length xs"
  shows "move_to i p xs ! k =
     (if k < i then xs ! k else if k = i then xs ! p else if k \<le> p then xs ! (k - 1) else xs ! k)"
  using assms by (auto simp: move_to_def nth_append nth_Cons' min_def)

lemma mset_swap0:
  assumes "w < length xs"
  shows "mset (xs[0 := xs ! w, w := xs ! 0]) = mset xs"
  by (rule mset_swap) (use assms in auto)

lemma mset_rotate1: "mset (rotate1 xs) = mset xs"
  by (cases xs) simp_all

lemma mset_rotate: "mset (rotate n xs) = mset xs"
  by (induction n) (simp_all add: mset_rotate1)

lemma mset_rotate_prefix:
  assumes "0 < w" and "w \<le> length xs"
  shows "mset (rotate_prefix w off xs) = mset xs"
proof -
  have "map (\<lambda>i. xs ! ((i + off) mod w)) [0..<w] = rotate off (take w xs)"
    using assms by (intro nth_equalityI) (simp_all add: nth_rotate min_def add.commute)
  then have "mset (rotate_prefix w off xs) = mset (take w xs) + mset (drop w xs)"
    by (simp add: rotate_prefix_def mset_rotate)
  then show ?thesis by (metis append_take_drop_id mset_append)
qed

section \<open>Provider diversification\<close>

text \<open>The facts of a successful pick.\<close>

lemma find_SomeD: "find P xs = Some x \<Longrightarrow> x \<in> set xs \<and> P x"
  by (auto simp: find_Some_iff)

lemma diversify_pick_Some:
  assumes "diversify_pick out i = Some p"
  shows "i < p" and "p < length out" and "sc_prov (out ! p) \<noteq> sc_prov (out ! (i - 1))"
    and "\<forall>k. i \<le> k \<and> k \<le> p \<longrightarrow> prio (out ! k) = prio (out ! i)"
proof -
  let ?P = "\<lambda>j. prio (out ! j) = prio (out ! i)"
  from find_SomeD[OF assms[unfolded diversify_pick_def]]
  have p: "p \<in> set (takeWhile ?P [Suc i..<length out])"
    and q: "sc_prov (out ! p) \<noteq> sc_prov (out ! (i - 1))" by auto
  then have range: "p \<in> {Suc i..<length out}" using set_takeWhileD by fastforce
  then show "i < p" "p < length out" by auto
  show "sc_prov (out ! p) \<noteq> sc_prov (out ! (i - 1))" by (fact q)
  obtain n where n: "n < length (takeWhile ?P [Suc i..<length out])"
      "takeWhile ?P [Suc i..<length out] ! n = p"
    using p by (auto simp: in_set_conv_nth)
  then have pn: "p = Suc i + n"
    by (metis (no_types, lifting) length_takeWhile_le less_le_trans length_upt nth_upt
        takeWhile_nth add.commute less_diff_conv)
  show "\<forall>k. i \<le> k \<and> k \<le> p \<longrightarrow> prio (out ! k) = prio (out ! i)"
  proof (intro allI impI)
    fix k assume k: "i \<le> k \<and> k \<le> p"
    show "?P k"
    proof (cases "k = i")
      case False
      then have "k - Suc i < length (takeWhile ?P [Suc i..<length out])"
        using k pn n(1) by linarith
      moreover have "[Suc i..<length out] ! (k - Suc i) = k" using k range False by simp
      ultimately have "k \<in> set (takeWhile ?P [Suc i..<length out])"
        by (metis (no_types, lifting) nth_mem takeWhile_nth)
      then show ?thesis using set_takeWhileD by fastforce
    qed simp
  qed
qed

lemma length_diversify_step [simp]: "length (diversify_step out i) = length out"
  by (auto simp: diversify_step_def length_move_to diversify_pick_Some(1,2) less_imp_le split: option.split)

lemma mset_diversify_step [simp]: "mset (diversify_step out i) = mset out"
  by (auto simp: diversify_step_def mset_move_to diversify_pick_Some(1,2) less_imp_le split: option.split)

lemma prio_move_to:
  assumes "i \<le> p" and "p < length out" and "\<forall>k. i \<le> k \<and> k \<le> p \<longrightarrow> prio (out ! k) = prio (out ! i)"
  shows "map prio (move_to i p out) = map prio out"
proof (rule nth_equalityI)
  show "length (map prio (move_to i p out)) = length (map prio out)"
    using assms by (simp add: length_move_to)
next
  fix k assume "k < length (map prio (move_to i p out))"
  then have k: "k < length out" using assms by (simp add: length_move_to)
  have "prio (move_to i p out ! k) = prio (out ! k)"
  proof (cases "i \<le> k \<and> k \<le> p")
    case True
    have eq: "prio (out ! l) = prio (out ! i)" if "i \<le> l" "l \<le> p" for l
      using assms(3) that by blast
    have "prio (move_to i p out ! k) = prio (out ! i)"
      using eq[of p] eq[of "k - 1"] True assms(1,2) k by (auto simp: nth_move_to)
    with eq[of k] True show ?thesis by simp
  next
    case False
    with assms(1,2) k show ?thesis by (auto simp: nth_move_to)
  qed
  with k show "map prio (move_to i p out) ! k = map prio out ! k"
    using assms by (simp add: length_move_to)
qed

lemma prio_diversify_step [simp]: "map prio (diversify_step out i) = map prio out"
proof (cases "diversify_pick out i")
  case (Some p)
  note d = diversify_pick_Some[OF Some]
  have "map prio (move_to i p out) = map prio out"
    by (rule prio_move_to[OF less_imp_le[OF d(1)] d(2) d(4)])
  with Some show ?thesis by (simp add: diversify_step_def)
qed (simp add: diversify_step_def)

lemma nth_diversify_step_below: "k < i \<Longrightarrow> i < length out \<Longrightarrow> diversify_step out i ! k = out ! k"
  by (auto simp: diversify_step_def nth_move_to diversify_pick_Some(1,2) less_imp_le split: option.split)

lemma diversify_steps:
  "mset (foldl diversify_step out is) = mset out"
  "length (foldl diversify_step out is) = length out"
  "map prio (foldl diversify_step out is) = map prio out"
  by (induction "is" arbitrary: out) simp_all

lemma diversify_facts [simp]:
  "mset (diversifyProviderFailover out start limit) = mset out"
  "length (diversifyProviderFailover out start limit) = length out"
  "map prio (diversifyProviderFailover out start limit) = map prio out"
  by (simp_all add: diversifyProviderFailover_def Let_def diversify_steps)

text \<open>
  A position is settled when its provider differs from the one before it, or when the
  rest of its priority tier has no other provider to offer.
\<close>

definition tier_run :: "Scored list \<Rightarrow> nat \<Rightarrow> nat \<Rightarrow> bool" where
  "tier_run out i j \<longleftrightarrow> i \<le> j \<and> j < length out \<and> (\<forall>k. i \<le> k \<and> k \<le> j \<longrightarrow> prio (out ! k) = prio (out ! i))"

definition settled :: "Scored list \<Rightarrow> nat \<Rightarrow> bool" where
  "settled out i \<longleftrightarrow> sc_prov (out ! i) \<noteq> sc_prov (out ! (i - 1)) \<or>
     (\<forall>j. tier_run out i j \<longrightarrow> sc_prov (out ! j) = sc_prov (out ! (i - 1)))"

lemma tier_run_step [simp]: "tier_run (diversify_step out i') i j = tier_run out i j"
proof (cases "i \<le> j \<and> j < length out")
  case True
  have eq: "prio (diversify_step out i' ! k) = prio (out ! k)" if "k < length out" for k
    by (metis length_diversify_step nth_map prio_diversify_step that)
  have "prio (diversify_step out i' ! k) = prio (diversify_step out i' ! i) \<longleftrightarrow>
      prio (out ! k) = prio (out ! i)" if "i \<le> k" "k \<le> j" for k
    using eq[of k] eq[of i] that True by simp
  then show ?thesis unfolding tier_run_def length_diversify_step by blast
next
  case False
  then show ?thesis unfolding tier_run_def length_diversify_step by blast
qed

lemma tier_run_bounds: "tier_run out i j \<Longrightarrow> i \<le> j \<and> j < length out"
  by (simp add: tier_run_def)

lemma tier_run_prio: "tier_run out i j \<Longrightarrow> i \<le> k \<Longrightarrow> k \<le> j \<Longrightarrow> prio (out ! k) = prio (out ! i)"
  unfolding tier_run_def by blast

lemma tier_run_shorter: "tier_run out i j \<Longrightarrow> i \<le> k \<Longrightarrow> k \<le> j \<Longrightarrow> tier_run out i k"
  unfolding tier_run_def by (meson le_less_trans le_trans)

lemma tier_run_extend:
  assumes "tier_run out i i'" and "tier_run out i' p"
  shows "tier_run out i p"
proof -
  have "prio (out ! k) = prio (out ! i)" if "i \<le> k" "k \<le> p" for k
  proof (cases "k \<le> i'")
    case True
    then show ?thesis by (rule tier_run_prio[OF assms(1) that(1)])
  next
    case False
    then have "prio (out ! k) = prio (out ! i')" by (intro tier_run_prio[OF assms(2) _ that(2)]) simp
    also have "\<dots> = prio (out ! i)"
      using tier_run_prio[OF assms(1), of i'] tier_run_bounds[OF assms(1)] by simp
    finally show ?thesis .
  qed
  moreover have "i \<le> p \<and> p < length out"
    using tier_run_bounds[OF assms(1)] tier_run_bounds[OF assms(2)] by linarith
  ultimately show ?thesis unfolding tier_run_def by blast
qed

lemma diversify_pick_run: "diversify_pick out i = Some p \<Longrightarrow> tier_run out i p"
  using diversify_pick_Some[of out i p] unfolding tier_run_def by (meson less_imp_le)

lemma diversify_pick_None:
  assumes "diversify_pick out i = None" and "tier_run out i j" and "i < j"
  shows "sc_prov (out ! j) = sc_prov (out ! (i - 1))"
proof -
  let ?P = "\<lambda>j. prio (out ! j) = prio (out ! i)"
  obtain n where n: "length out = Suc j + n"
    using tier_run_bounds[OF assms(2)] by (auto dest: less_imp_Suc_add)
  have split: "[Suc i..<length out] = [Suc i..<Suc j] @ [Suc j..<length out]"
    unfolding n by (rule upt_add_eq_append) (use assms(3) in simp)
  have "\<And>k. k \<in> set [Suc i..<Suc j] \<Longrightarrow> ?P k"
    by (rule tier_run_prio[OF assms(2)]) auto
  then have "takeWhile ?P [Suc i..<length out] =
      [Suc i..<Suc j] @ takeWhile ?P [Suc j..<length out]"
    unfolding split by (rule takeWhile_append2)
  then have "j \<in> set (takeWhile ?P [Suc i..<length out])" using assms(3) by simp
  then show ?thesis using assms(1) unfolding diversify_pick_def find_None_iff by blast
qed

lemma diversify_step_settles:
  assumes "0 < i" and "i < length out"
  shows "settled (diversify_step out i) i"
proof (cases "sc_prov (out ! i) \<noteq> sc_prov (out ! (i - 1))")
  case True
  then show ?thesis by (simp add: diversify_step_def settled_def)
next
  case same: False
  show ?thesis
  proof (cases "diversify_pick out i")
    case None
    have "sc_prov (out ! j) = sc_prov (out ! (i - 1))" if "tier_run out i j" for j
      using diversify_pick_None[OF None that] same tier_run_bounds[OF that] by (cases "j = i") auto
    with None same show ?thesis by (simp add: diversify_step_def settled_def)
  next
    case (Some p)
    note p = diversify_pick_Some(1-3)[OF Some]
    have "diversify_step out i ! i = out ! p" "diversify_step out i ! (i - 1) = out ! (i - 1)"
      using Some same p assms by (auto simp: diversify_step_def nth_move_to)
    with p(3) show ?thesis by (simp add: settled_def)
  qed
qed

text \<open>A later step moves elements only inside one run, so it keeps earlier positions settled.\<close>

lemma diversify_step_within_run:
  assumes "tier_run out i j" and "i < i'"
  shows "\<exists>j'. diversify_step out i' ! j = out ! j' \<and> tier_run out i j'"
proof (cases "diversify_step out i' = out")
  case True
  with assms(1) show ?thesis by auto
next
  case False
  then obtain p where Some: "diversify_pick out i' = Some p"
      and eq: "diversify_step out i' = move_to i' p out"
    by (auto simp: diversify_step_def split: if_splits option.splits)
  note p = diversify_pick_Some(1,2)[OF Some]
  note j = tier_run_bounds[OF assms(1)]
  have nth: "diversify_step out i' ! j =
      (if j < i' then out ! j else if j = i' then out ! p else if j \<le> p then out ! (j - 1) else out ! j)"
    unfolding eq by (rule nth_move_to) (use p j in auto)
  consider "j < i' \<or> p < j" | "j = i'" | "i' < j" "j \<le> p" by linarith
  then show ?thesis
  proof cases
    case 1
    then show ?thesis using nth assms(1) p(1) by auto
  next
    case 2
    then have "tier_run out i p"
      using tier_run_extend[OF _ diversify_pick_run[OF Some]] assms(1) by simp
    with 2 nth show ?thesis by auto
  next
    case 3
    then have "tier_run out i (j - 1)" using assms by (intro tier_run_shorter[OF assms(1)]) auto
    with 3 nth show ?thesis by auto
  qed
qed

lemma diversify_step_keeps_settled:
  assumes "settled out i" and "0 < i" and "i < i'" and "i' < length out"
  shows "settled (diversify_step out i') i"
proof -
  have below: "diversify_step out i' ! i = out ! i" "diversify_step out i' ! (i - 1) = out ! (i - 1)"
    using assms by (simp_all add: nth_diversify_step_below)
  show ?thesis
    using assms(1) diversify_step_within_run[OF _ assms(3)]
    unfolding settled_def below tier_run_step by metis
qed

lemma diversify_all_settled:
  assumes "0 < start" and "stop \<le> length out" and "start \<le> i" and "i < stop"
  shows "settled (foldl diversify_step out [start..<stop]) i"
  using assms
proof (induction stop)
  case (Suc stop)
  let ?o = "foldl diversify_step out [start..<stop]"
  have eq: "foldl diversify_step out [start..<Suc stop] = diversify_step ?o stop"
    using Suc.prems by simp
  have len: "stop < length ?o" using Suc.prems by (simp add: diversify_steps)
  show ?case
  proof (cases "i = stop")
    case True
    then show ?thesis unfolding eq using diversify_step_settles[OF _ len] Suc.prems by simp
  next
    case False
    then have "settled ?o i" using Suc by simp
    then show ?thesis unfolding eq
      using diversify_step_keeps_settled[OF _ _ _ len] False Suc.prems by simp
  qed
qed simp

definition attempt_stop :: "Scored list \<Rightarrow> int \<Rightarrow> nat" where
  "attempt_stop out limit = (if 0 < limit \<and> limit < int (length out) then nat limit else length out)"

lemma diversify_settled:
  assumes "1 \<le> i" and "i < attempt_stop out limit"
  shows "settled (diversifyProviderFailover out 1 limit) i"
  using diversify_all_settled[of 1 "attempt_stop out limit" out i] assms
  by (auto simp: diversifyProviderFailover_def attempt_stop_def Let_def split: if_splits)

lemma diversify_head:
  assumes "out \<noteq> []"
  shows "hd (diversifyProviderFailover out 1 limit) = hd out"
proof -
  have "length xs \<le> length out \<Longrightarrow> foldl diversify_step xs [1..<n] ! 0 = xs ! 0"
    if "n \<le> length xs" "xs \<noteq> []" for xs n
    using that
  proof (induction n)
    case (Suc n)
    then show ?case
      by (cases "1 \<le> n") (simp_all add: nth_diversify_step_below diversify_steps)
  qed simp
  moreover have "attempt_stop out limit \<le> length out" by (auto simp: attempt_stop_def)
  ultimately have "diversifyProviderFailover out 1 limit ! 0 = out ! 0"
    using assms by (auto simp: diversifyProviderFailover_def attempt_stop_def Let_def split: if_splits)
  then show ?thesis
    using assms by (simp add: hd_conv_nth flip: length_greater_0_conv)
qed

section \<open>Priority tiers\<close>

lemma sorted_prio:
  assumes "weak_order lt" and "\<And>a b. \<not> lt b a \<Longrightarrow> prio a \<le> prio b"
  shows "sorted (map prio (SliceStable lt out))"
  using weak_order.ordered_sort[OF assms(1), of out]
  by (auto simp: sorted_map intro: sorted_wrt_mono_rel[rotated] assms(2))

lemma tier_orders:
  "sorted (map prio (SliceStable mesh_less out))"
  "sorted (map prio (SliceStable cost_less out))"
  "sorted (map prio (SliceStable queue_less out))"
  by (rule sorted_prio, unfold_locales, auto simp: mesh_less_def cost_less_def queue_less_def split: if_splits)+

lemma pin_index_Some:
  assumes "pin_index pin out = Some i"
  shows "i < length out" and "sc_id (out ! i) = pin" and "prio (out ! i) = prio (out ! 0)"
  using find_SomeD[of _ "[0..<length out]" i] assms by (auto simp: pin_index_def split: if_splits)

lemma pin_index_ex:
  assumes "pin \<noteq> []" and "k < length out" and "sc_id (out ! k) = pin" and "prio (out ! k) = prio (out ! 0)"
  shows "\<exists>i. pin_index pin out = Some i"
proof (rule ccontr)
  assume "\<not> ?thesis"
  then have "find (\<lambda>i. sc_id (out ! i) = pin \<and> prio (out ! i) = prio (out ! 0)) [0..<length out] = None"
    using assms(1) by (simp add: pin_index_def)
  then show False using assms(2-4) by (auto simp: find_None_iff)
qed

lemma sorted_prefix_prio:
  assumes "sorted (map prio out)" and "i < length out" and "prio (out ! i) = prio (out ! 0)" and "k \<le> i"
  shows "prio (out ! k) = prio (out ! 0)"
proof -
  have "map prio out ! 0 \<le> map prio out ! k" "map prio out ! k \<le> map prio out ! i"
    using assms by (auto intro!: sorted_nth_mono simp del: nth_map)
  moreover have "0 < length out" using assms(2) by linarith
  ultimately show ?thesis using assms by simp
qed

lemma promote_facts:
  assumes "pin_index pin out = Some i" and "sorted (map prio out)"
  shows "mset (move_to 0 i out) = mset out" and "map prio (move_to 0 i out) = map prio out"
    and "move_to 0 i out ! 0 = out ! i" and "length (move_to 0 i out) = length out"
proof -
  note i = pin_index_Some[OF assms(1)]
  show "mset (move_to 0 i out) = mset out" by (rule mset_move_to) (use i in auto)
  show "map prio (move_to 0 i out) = map prio out"
    using prio_move_to[OF le0 i(1)] sorted_prefix_prio[OF assms(2) i(1,3)] by blast
  show "move_to 0 i out ! 0 = out ! i" by (simp add: move_to_def)
  show "length (move_to 0 i out) = length out" by (rule length_move_to) (use i in auto)
qed

text \<open>The two samples of power-of-two-choices are distinct positions of the window.\<close>

lemma hashIndex_less: "0 < n \<Longrightarrow> hashIndex key salt n < n"
  by (auto simp: hashIndex_def mod_index_less)

lemma p2c_winner_cases:
  assumes "2 \<le> window"
  obtains a b where "a < window" and "b < window" and "a \<noteq> b" and
    "(p2c_winner key window out = a \<and> \<not> better (out ! b) (out ! a)) \<or>
     (p2c_winner key window out = b \<and> better (out ! b) (out ! a))"
proof -
  define a where "a = hashIndex key (CHR ''a'') window"
  define b0 where "b0 = hashIndex key (CHR ''b'') (window - 1)"
  define b where "b = (if a \<le> b0 then Suc b0 else b0)"
  have "a < window" using assms by (simp add: a_def hashIndex_less)
  moreover have "b0 < window - 1" using assms by (simp add: b0_def hashIndex_less)
  then have "b < window" "a \<noteq> b" using \<open>a < window\<close> by (auto simp: b_def)
  moreover have "p2c_winner key window out = (if better (out ! b) (out ! a) then b else a)"
    by (simp add: p2c_winner_def a_def b_def b0_def Let_def)
  ultimately show thesis using that by (cases "better (out ! b) (out ! a)") auto
qed

lemma takeWhile_tl_nth:
  assumes "k < Suc (length (takeWhile P (tl out)))" and "k \<noteq> 0" and "out \<noteq> []"
  shows "P (out ! k)" and "k < length out"
proof -
  obtain x xs where out: "out = x # xs" using assms(3) by (cases out) auto
  obtain j where k: "k = Suc j" using assms(2) by (cases k) auto
  have j: "j < length (takeWhile P xs)" using assms(1) by (simp add: out k)
  then have "takeWhile P xs ! j \<in> set (takeWhile P xs)" by simp
  then show "P (out ! k)" using j by (simp add: out k takeWhile_nth) (metis set_takeWhileD takeWhile_nth)
  show "k < length out" using j length_takeWhile_le[of P xs] by (simp add: out k)
qed

lemma p2c_window_tier:
  assumes "k < p2c_window out cfg" and "out \<noteq> []"
  shows "k < length out" and "prio (out ! k) = prio (out ! 0)"
proof -
  have "k < Suc (length (takeWhile (\<lambda>s. prio s = prio (out ! 0)) (tl out)))"
    using assms(1) by (auto simp: p2c_window_def Let_def split: if_splits)
  note tw = takeWhile_tl_nth[OF this _ assms(2)]
  show "k < length out" using tw(2) assms(2) by (cases "k = 0") auto
  show "prio (out ! k) = prio (out ! 0)" using tw(1) by (cases "k = 0") auto
qed

lemma p2c_winner_less: "2 \<le> window \<Longrightarrow> p2c_winner key window out < window"
  by (elim p2c_winner_cases[of _ key out]) auto

lemma swap_prio:
  assumes "w < length out" and "prio (out ! w) = prio (out ! 0)"
  shows "map prio (out[0 := out ! w, w := out ! 0]) = map prio out"
proof -
  have "0 < length out" using assms(1) by linarith
  with assms show ?thesis by (intro nth_equalityI) (auto simp: nth_list_update)
qed

lemma swap_head: "w < length xs \<Longrightarrow> xs[0 := xs ! w, w := xs ! 0] ! 0 = xs ! w"
  by (cases xs; cases w) simp_all

section \<open>What the strategies return\<close>

text \<open>
  The ready strategies end in diversification of a list that is a permutation of the
  sorted candidates with the same sequence of priorities.
\<close>

definition lead_choice :: "Scored list \<Rightarrow> Scored list \<Rightarrow> bool" where
  "lead_choice out out' \<longleftrightarrow> mset out' = mset out \<and> map prio out' = map prio out \<and> length out' = length out"

lemma orderCostAware_shape:
  assumes "2 \<le> length out"
  shows "\<exists>out'. lead_choice (SliceStable cost_less out) out' \<and>
     fst (orderCostAware out req cfg t t' r) =
       diversifyProviderFailover out' 1 (MaxAttempts (Routing cfg)) \<and>
     (case pin_index (fst (pinned req cfg t t' r)) (SliceStable cost_less out) of
        None \<Rightarrow> out' = SliceStable cost_less out
      | Some i \<Rightarrow> out' ! 0 = SliceStable cost_less out ! i)"
proof -
  let ?s = "SliceStable cost_less out" let ?pin = "fst (pinned req cfg t t' r)"
  let ?o = "case pin_index ?pin ?s of Some i \<Rightarrow> move_to 0 i ?s | None \<Rightarrow> ?s"
  have "fst (orderCostAware out req cfg t t' r) =
      diversifyProviderFailover ?o 1 (MaxAttempts (Routing cfg))"
    using assms by (simp add: orderCostAware_def Let_def split_beta)
  moreover have "lead_choice ?s ?o"
    by (cases "pin_index ?pin ?s") (simp_all add: lead_choice_def promote_facts tier_orders)
  ultimately show ?thesis
    by (intro exI[of _ ?o]) (simp add: promote_facts tier_orders split: option.split)
qed

lemma orderReadyMesh_shape:
  assumes "2 \<le> length out"
  shows "\<exists>out'. lead_choice (SliceStable mesh_less out) out' \<and>
     fst (orderReadyMesh out req cfg sim t t' r) =
       diversifyProviderFailover out' 1 (MaxAttempts (Routing cfg)) \<and>
     (case pin_index (fst (pinned req cfg t t' r)) (SliceStable mesh_less out) of
        None \<Rightarrow> if p2c_window (SliceStable mesh_less out) cfg < 2 then out' = SliceStable mesh_less out
          else out' ! 0 = SliceStable mesh_less out ! p2c_winner
                 (fst (p2c_key req sim (snd (pinned req cfg t t' r))))
                 (p2c_window (SliceStable mesh_less out) cfg) (SliceStable mesh_less out)
      | Some i \<Rightarrow> out' ! 0 = SliceStable mesh_less out ! i)"
proof -
  let ?s = "SliceStable mesh_less out" let ?pin = "fst (pinned req cfg t t' r)"
  let ?win = "p2c_window ?s cfg"
  let ?w = "p2c_winner (fst (p2c_key req sim (snd (pinned req cfg t t' r)))) ?win ?s"
  let ?o = "case pin_index ?pin ?s of Some i \<Rightarrow> move_to 0 i ?s
    | None \<Rightarrow> if ?win < 2 then ?s else ?s[0 := ?s ! ?w, ?w := ?s ! 0]"
  have ne: "?s \<noteq> []" using assms by (metis length_SliceStable list.size(3) not_numeral_le_zero)
  have w: "?w < length ?s" "prio (?s ! ?w) = prio (?s ! 0)" if "\<not> ?win < 2"
    using p2c_window_tier[OF p2c_winner_less ne] that by auto
  have "fst (orderReadyMesh out req cfg sim t t' r) =
      diversifyProviderFailover ?o 1 (MaxAttempts (Routing cfg))"
    using assms by (simp add: orderReadyMesh_def Let_def split_beta split: option.split)
  moreover have "lead_choice ?s ?o"
    using w by (cases "pin_index ?pin ?s") (auto simp: lead_choice_def promote_facts tier_orders
        mset_swap0 swap_prio)
  moreover have "?s[0 := ?s ! ?w, ?w := ?s ! 0] ! 0 = ?s ! ?w" if "\<not> ?win < 2"
    by (rule swap_head[OF w(1)[OF that]])
  ultimately show ?thesis
    by (intro exI[of _ ?o]) (auto simp: promote_facts tier_orders split: option.split)
qed

end
