(* ===== verification/RouterStrategies.thy ===== *)
theory RouterStrategies
  imports RouterOrder
begin

text \<open>
  What the ordering strategies of the router guarantee: they permute the eligible
  candidates; the ready strategies never let a lower priority tier overtake a higher
  one; consecutive attempts alternate providers as far as a tier allows; a live
  session pin of the best tier leads; power-of-two-choices never leads with the worse of
  its two samples; and without a pin the cost-aware strategy leads with the cheapest
  priced candidate of the best tier.
\<close>

lemma window_bounds:
  "xs \<noteq> [] \<Longrightarrow> robin_window xs \<le> length xs"
  "xs \<noteq> [] \<Longrightarrow> adaptive_window xs \<le> length xs"
proof -
  show "robin_window xs \<le> length xs" if "xs \<noteq> []"
    using that length_takeWhile_le[of "\<lambda>s. sc_rank s = sc_rank (xs ! 0)" "tl xs"]
    by (cases xs) (simp_all add: robin_window_def)
  show "adaptive_window xs \<le> length xs" if "xs \<noteq> []"
    using that length_takeWhile_le[of "\<lambda>s. fsub (scScore (xs ! 0)) 15 \<le> scScore s \<and>
        hsStatus (scHealth s) \<noteq> Degraded" "take 31 (tl xs)"]
    by (cases xs) (simp_all add: adaptive_window_def)
qed

lemma mset_rotate_window:
  assumes "xs \<noteq> [] \<longrightarrow> w \<le> length xs" and "xs = [] \<longrightarrow> w \<le> 1"
  shows "mset (fst (rotate_window sim req w xs r)) = mset xs"
  using assms by (cases "xs = []")
    (auto simp: rotate_window_def split_beta Let_def mset_rotate_prefix)

lemma empty_windows [simp]: "robin_window [] = 1" "adaptive_window [] = 1"
  by (simp_all add: robin_window_def adaptive_window_def)

lemma mset_rotations:
  "mset (fst (rotate_window sim req (robin_window xs) xs r)) = mset xs"
  "mset (fst (rotate_window sim req (adaptive_window xs) xs r)) = mset xs"
  by (rule mset_rotate_window; auto simp: window_bounds)+

lemma mset_orderCostAware: "mset (fst (orderCostAware out req cfg t t' r)) = mset out"
proof (cases "2 \<le> length out")
  case True
  then show ?thesis
    using orderCostAware_shape[OF True, of req cfg t t' r] by (auto simp: lead_choice_def)
qed (simp add: orderCostAware_def Let_def)

lemma mset_orderReadyMesh: "mset (fst (orderReadyMesh out req cfg sim t t' r)) = mset out"
proof (cases "2 \<le> length out")
  case True
  then show ?thesis
    using orderReadyMesh_shape[OF True, of req cfg sim t t' r] by (auto simp: lead_choice_def)
qed (simp add: orderReadyMesh_def Let_def)

lemma mset_applyStrategyMode: "mset (fst (applyStrategyMode out req cfg sim t t' r)) = mset out"
  by (simp add: applyStrategyMode_def Let_def mset_orderReadyMesh mset_orderCostAware mset_rotations)

text \<open>C6: Whatever the strategy, and in live as in simulated mode, ordering only permutes
the candidates: nothing that passed the eligibility funnel is dropped, repeated or
invented by sorting, pin promotion, rotation, sampling or diversification.\<close>

theorem ordering_permutes:
  "mset (fst (applyStrategyMode out req cfg simulated now now' r)) = mset out"
  by (rule mset_applyStrategyMode)

section \<open>Tiers and diversification\<close>

lemma diversified_shape:
  assumes "2 \<le> length out"
    and "Strategy (Routing cfg) = ''ready_mesh'' \<or> Strategy (Routing cfg) = ''cost_aware''"
  obtains lt out' where "weak_order lt" and "sorted (map prio (SliceStable lt out))"
    and "lead_choice (SliceStable lt out) out'"
    and "fst (applyStrategyMode out req cfg sim t t' r) =
       diversifyProviderFailover out' 1 (MaxAttempts (Routing cfg))"
proof (cases "Strategy (Routing cfg) = ''ready_mesh''")
  case True
  obtain out' where "lead_choice (SliceStable mesh_less out) out'"
    "fst (orderReadyMesh out req cfg sim t t' r) =
       diversifyProviderFailover out' 1 (MaxAttempts (Routing cfg))"
    using orderReadyMesh_shape[OF assms(1), of req cfg sim t t' r] by blast
  with True show ?thesis
    using that[OF mesh.weak_order_axioms tier_orders(1)] by (simp add: applyStrategyMode_def)
next
  case False
  obtain out' where "lead_choice (SliceStable cost_less out) out'"
    "fst (orderCostAware out req cfg t t' r) =
       diversifyProviderFailover out' 1 (MaxAttempts (Routing cfg))"
    using orderCostAware_shape[OF assms(1), of req cfg t t' r] by blast
  with False assms(2) show ?thesis
    using that[OF cost.weak_order_axioms tier_orders(2)] by (simp add: applyStrategyMode_def)
qed

definition demo_scored :: "string \<Rightarrow> string \<Rightarrow> int \<Rightarrow> rat \<Rightarrow> Scored" where
  "demo_scored did prov pr score =
     \<lparr>scDeployment = \<lparr>dID = did, dProviderID = prov, dProviderName = prov, dProviderType = ''gemini'',
        dModel = ''m'', dAliases = [], dPriority = pr, dWeight = 1, dContextWindow = 0,
        dInputCostPerMTok = 1, dOutputCostPerMTok = 2,
        dCapabilities = \<lparr>capStreaming = True, capTools = True, capVision = True, capReasoning = True\<rparr>,
        dTrainsOnData = ''no''\<rparr>,
      scHealth = unknown_state did, scScore = score, scCapacityPressure = 0,
      scEstimatedCostUSD = 1, scPriceKnown = True, scScoreBase = 100, scHealthAdjustment = 0,
      scWeightContribution = 0, scPriorityPenalty = 0, scLatencyPenalty = 0,
      scCapacityPenalty = 0, scFailurePenalty = 0\<rparr>"

definition demo_list :: "Scored list" where
  "demo_list = [demo_scored ''p/x'' ''p'' 1 90, demo_scored ''p/y'' ''p'' 0 95,
     demo_scored ''q/z'' ''q'' 0 50, demo_scored ''p/w'' ''p'' 0 97]"

definition demo_routing :: "string \<Rightarrow> Config" where
  "demo_routing strategy = zero_Config\<lparr>Routing := zero_RoutingConfig\<lparr>Strategy := strategy\<rparr>\<rparr>"

definition demo_router :: Router where
  "demo_router = \<lparr>rCfg = zero_Config, rAll = [], rByID = fmempty, rByModel = fmempty,
     rRR = 0, rSessions = fmempty\<rparr>"

definition demo_req :: Requirement where
  "demo_req = \<lparr>rqModel = [], rqTools = False, rqVision = False, rqStreaming = False,
     rqReasoning = False, rqStructuredOutput = False, rqParallelTools = False, rqProviderType = [],
     rqSessionKey = [], rqSelectionKey = ''k'', rqProviderLoad = fmempty, rqLoadForProvider = None,
     rqMinContextWindow = 0, rqEstimatedInputTokens = 0, rqMaxOutputTokens = 0,
     rqRequireNoTraining = False\<rparr>"

text \<open>Under the ready strategies (ready mesh, cost aware, ready queue) the returned
order never lets a candidate of a worse priority number come before one of a better:
pin promotion, sampling and provider diversification stay inside a priority tier.\<close>

theorem ready_order_keeps_tiers:
  assumes "IsReadyStrategy (Strategy (Routing cfg))"
  shows "sorted (map prio (fst (applyStrategyMode out req cfg simulated now now' r)))"
proof (cases "length out < 2 \<or> Strategy (Routing cfg) = ''ready_queue''")
  case True
  then show ?thesis
  proof (cases "Strategy (Routing cfg) = ''ready_queue''")
    case True
    then show ?thesis by (simp add: applyStrategyMode_def tier_orders)
  next
    case False
    with True have "length (fst (applyStrategyMode out req cfg simulated now now' r)) < 2"
      using mset_applyStrategyMode[of out req cfg simulated now now' r] by (metis size_mset)
    then show ?thesis
      by (cases "fst (applyStrategyMode out req cfg simulated now now' r)") simp_all
  qed
next
  case False
  with assms have two: "2 \<le> length out"
    and strat: "Strategy (Routing cfg) = ''ready_mesh'' \<or> Strategy (Routing cfg) = ''cost_aware''"
    by (auto simp: IsReadyStrategy_def)
  obtain lt out' where "sorted (map prio (SliceStable lt out))" "lead_choice (SliceStable lt out) out'"
    "fst (applyStrategyMode out req cfg simulated now now' r) =
       diversifyProviderFailover out' 1 (MaxAttempts (Routing cfg))"
    by (rule diversified_shape[OF two strat, of req simulated now now' r])
  then show ?thesis by (simp add: lead_choice_def)
qed

theorem ready_order_keeps_tiers_witness:
  "sorted (map prio (fst (applyStrategyMode demo_list demo_req (demo_routing ''ready_mesh'')
     False 0 0 demo_router)))"
  by (rule ready_order_keeps_tiers) code_simp

text \<open>C7: In the prefix of candidates a request can attempt, ready mesh and cost aware
never try the same provider twice in a row while the priority tier still has another
provider to offer.\<close>

theorem failover_alternates_providers:
  assumes "Strategy (Routing cfg) = ''ready_mesh'' \<or> Strategy (Routing cfg) = ''cost_aware''"
    and "fst (applyStrategyMode out req cfg simulated now now' r) = res"
    and "1 \<le> i" and "i < attempt_stop out (MaxAttempts (Routing cfg))"
    and "i \<le> j" and "j < length res" and "\<forall>k. i \<le> k \<and> k \<le> j \<longrightarrow> prio (res ! k) = prio (res ! i)"
    and "sc_prov (res ! j) \<noteq> sc_prov (res ! (i - 1))"
  shows "sc_prov (res ! i) \<noteq> sc_prov (res ! (i - 1))"
proof -
  have two: "2 \<le> length out" using assms(3,4) by (auto simp: attempt_stop_def split: if_splits)
  obtain lt out' where lc: "lead_choice (SliceStable lt out) out'"
      and res: "res = diversifyProviderFailover out' 1 (MaxAttempts (Routing cfg))"
    using diversified_shape[OF two assms(1), of req simulated now now' r] assms(2) by metis
  have "i < attempt_stop out' (MaxAttempts (Routing cfg))"
    using assms(4) lc by (simp only: attempt_stop_def lead_choice_def length_SliceStable)
  then have "settled res i" unfolding res by (rule diversify_settled[OF assms(3)])
  moreover have "tier_run res i j" unfolding tier_run_def using assms(5-7) by blast
  ultimately show ?thesis using assms(8) unfolding settled_def by blast
qed

theorem failover_alternates_providers_witness:
  "sc_prov (fst (applyStrategyMode demo_list demo_req (demo_routing ''ready_mesh'') False 0 0 demo_router) ! 1)
   \<noteq> sc_prov (fst (applyStrategyMode demo_list demo_req (demo_routing ''ready_mesh'') False 0 0 demo_router) ! (1 - 1))"
proof (rule failover_alternates_providers[where j = 1, OF _ refl])
  let ?res = "fst (applyStrategyMode demo_list demo_req (demo_routing ''ready_mesh'') False 0 0 demo_router)"
  show "1 < length ?res" by code_simp
  show "sc_prov (?res ! 1) \<noteq> sc_prov (?res ! (1 - 1))" by code_simp
  show "\<forall>k. 1 \<le> k \<and> k \<le> 1 \<longrightarrow> prio (?res ! k) = prio (?res ! 1)" by (metis le_antisym)
  show "1 < attempt_stop demo_list (MaxAttempts (Routing (demo_routing ''ready_mesh'')))" by code_simp
qed (simp_all add: demo_routing_def)

section \<open>The lead candidate\<close>

lemma lead_of_diversified:
  assumes "lead_choice (SliceStable lt out) out'" and "2 \<le> length out"
    and "res = diversifyProviderFailover out' 1 limit"
  shows "hd res = out' ! 0"
proof -
  have "length out' = length out" using assms(1) by (simp add: lead_choice_def)
  with assms(2) have "out' \<noteq> []" by auto
  then show ?thesis using diversify_head[of out' limit] assms(3) by (simp add: hd_conv_nth)
qed

lemma sorted_nth_best:
  assumes "sorted (map prio (SliceStable lt out))" and "s \<in> set out" and "\<forall>x \<in> set out. prio s \<le> prio x"
  shows "\<exists>k < length out. SliceStable lt out ! k = s \<and> prio s = prio (SliceStable lt out ! 0)"
proof -
  have "s \<in> set (SliceStable lt out)" using assms(2) by simp
  then obtain k where k: "k < length out" "SliceStable lt out ! k = s"
    by (metis in_set_conv_nth length_SliceStable)
  then have "0 < length out" by linarith
  then have "SliceStable lt out ! 0 \<in> set out" by (metis length_SliceStable nth_mem set_SliceStable)
  then have "prio s \<le> prio (SliceStable lt out ! 0)" using assms(3) by blast
  moreover have "map prio (SliceStable lt out) ! 0 \<le> map prio (SliceStable lt out) ! k"
    using assms(1) k(1) by (intro sorted_nth_mono) simp_all
  ultimately show ?thesis using k \<open>0 < length out\<close> by auto
qed

text \<open>C8: Session affinity is authoritative under ready mesh and cost aware: when the live
pin of the request's session names a candidate of the best priority tier, that
deployment is attempted first.\<close>

theorem live_pin_leads:
  assumes "Strategy (Routing cfg) = ''ready_mesh'' \<or> Strategy (Routing cfg) = ''cost_aware''"
    and "2 \<le> length out" and "pin = fst (pinned req cfg now now' r)" and "pin \<noteq> []"
    and "s \<in> set out" and "sc_id s = pin" and "\<forall>x \<in> set out. prio s \<le> prio x"
  shows "sc_id (hd (fst (applyStrategyMode out req cfg simulated now now' r))) = pin"
proof (cases "Strategy (Routing cfg) = ''ready_mesh''")
  case True
  let ?s = "SliceStable mesh_less out"
  obtain i where i: "pin_index pin ?s = Some i"
    using sorted_nth_best[OF tier_orders(1) assms(5,7)] pin_index_ex[OF assms(4)] assms(6) by force
  obtain out' where "lead_choice ?s out'" "out' ! 0 = ?s ! i"
    "fst (orderReadyMesh out req cfg simulated now now' r) =
       diversifyProviderFailover out' 1 (MaxAttempts (Routing cfg))"
    using orderReadyMesh_shape[OF assms(2), of req cfg simulated now now' r] i assms(3) by auto
  with lead_of_diversified[OF _ assms(2)] pin_index_Some(2)[OF i] True show ?thesis
    by (simp add: applyStrategyMode_def)
next
  case False
  let ?s = "SliceStable cost_less out"
  obtain i where i: "pin_index pin ?s = Some i"
    using sorted_nth_best[OF tier_orders(2) assms(5,7)] pin_index_ex[OF assms(4)] assms(6) by force
  obtain out' where "lead_choice ?s out'" "out' ! 0 = ?s ! i"
    "fst (orderCostAware out req cfg now now' r) =
       diversifyProviderFailover out' 1 (MaxAttempts (Routing cfg))"
    using orderCostAware_shape[OF assms(2), of req cfg now now' r] i assms(3) by auto
  with lead_of_diversified[OF _ assms(2)] pin_index_Some(2)[OF i] False assms(1) show ?thesis
    by (simp add: applyStrategyMode_def)
qed

definition demo_pin_req :: Requirement where
  "demo_pin_req = demo_req\<lparr>rqSessionKey := ''s''\<rparr>"

definition demo_pin_cfg :: Config where
  "demo_pin_cfg = zero_Config\<lparr>Routing := zero_RoutingConfig\<lparr>Strategy := ''ready_mesh'',
     SessionAffinity := True\<rparr>\<rparr>"

definition demo_pin_router :: Router where
  "demo_pin_router = demo_router\<lparr>rSessions := fmupd (affinityBucket demo_pin_req)
     (zero_sessionPin\<lparr>pinDeployment := ''q/z'', pinExpires := 100\<rparr>) fmempty\<rparr>"

lemma demo_pinned: "fst (pinned demo_pin_req demo_pin_cfg 5 6 demo_pin_router) = ''q/z''"
proof -
  have "TrimSpace (rqSessionKey demo_pin_req) = ''s''" by code_simp
  then have "affinityBucket demo_pin_req \<noteq> []" by (simp add: affinityBucket_def)
  then show ?thesis
    by (simp add: pinned_def Let_def demo_pin_cfg_def pinned_read_def demo_pin_router_def Before_def)
qed

theorem live_pin_leads_witness:
  "sc_id (hd (fst (applyStrategyMode demo_list demo_pin_req demo_pin_cfg False 5 6 demo_pin_router))) = ''q/z''"
proof (rule live_pin_leads[where s = "demo_scored ''q/z'' ''q'' 0 50"])
  show "''q/z'' = fst (pinned demo_pin_req demo_pin_cfg 5 6 demo_pin_router)" by (simp add: demo_pinned)
qed (simp_all add: demo_pin_cfg_def demo_list_def demo_scored_def)

text \<open>Without an applicable pin, ready mesh leads with the winner of two distinct samples
of the best priority tier: the lead belongs to that tier and is never the strictly
worse of the two samples, so a tier of at least two never leads with its worst member
alone.\<close>

theorem p2c_lead_is_not_the_worse_sample:
  assumes "2 \<le> length out" and "Strategy (Routing cfg) = ''ready_mesh''"
    and "pin_index (fst (pinned req cfg now now' r)) (SliceStable mesh_less out) = None"
    and "2 \<le> p2c_window (SliceStable mesh_less out) cfg"
  shows "\<exists>a b. a \<noteq> b \<and> a < p2c_window (SliceStable mesh_less out) cfg \<and>
     b < p2c_window (SliceStable mesh_less out) cfg \<and>
     hd (fst (applyStrategyMode out req cfg simulated now now' r)) = SliceStable mesh_less out ! a \<and>
     prio (SliceStable mesh_less out ! a) = prio (SliceStable mesh_less out ! b) \<and>
     \<not> better (SliceStable mesh_less out ! b) (SliceStable mesh_less out ! a)"
proof -
  let ?s = "SliceStable mesh_less out" let ?win = "p2c_window ?s cfg"
  let ?key = "fst (p2c_key req simulated (snd (pinned req cfg now now' r)))"
  obtain out' where o: "lead_choice ?s out'" "out' ! 0 = ?s ! p2c_winner ?key ?win ?s"
    "fst (orderReadyMesh out req cfg simulated now now' r) =
       diversifyProviderFailover out' 1 (MaxAttempts (Routing cfg))"
    using orderReadyMesh_shape[OF assms(1), of req cfg simulated now now' r] assms(3,4) by auto
  have hd: "hd (fst (applyStrategyMode out req cfg simulated now now' r)) = ?s ! p2c_winner ?key ?win ?s"
    using lead_of_diversified[OF o(1) assms(1) o(3)] o(2) assms(2) by (simp add: applyStrategyMode_def)
  have ne: "?s \<noteq> []" using assms(1) by (metis length_SliceStable list.size(3) not_numeral_le_zero)
  obtain a b where ab: "a < ?win" "b < ?win" "a \<noteq> b"
    "(p2c_winner ?key ?win ?s = a \<and> \<not> better (?s ! b) (?s ! a)) \<or>
     (p2c_winner ?key ?win ?s = b \<and> better (?s ! b) (?s ! a))"
    by (rule p2c_winner_cases[OF assms(4), of ?key ?s])
  have pr: "prio (?s ! a) = prio (?s ! b)"
    using p2c_window_tier(2)[OF ab(1) ne] p2c_window_tier(2)[OF ab(2) ne] by simp
  from ab(4) show ?thesis
  proof
    assume "p2c_winner ?key ?win ?s = a \<and> \<not> better (?s ! b) (?s ! a)"
    with ab(1-3) hd pr show ?thesis by (intro exI[of _ a] exI[of _ b]) simp
  next
    assume w: "p2c_winner ?key ?win ?s = b \<and> better (?s ! b) (?s ! a)"
    then have "\<not> better (?s ! a) (?s ! b)" using better.trans better.irrefl by blast
    with w ab(1-3) hd pr show ?thesis by (intro exI[of _ b] exI[of _ a]) simp
  qed
qed

theorem p2c_lead_is_not_the_worse_sample_witness:
  "\<exists>a b. a \<noteq> b \<and> a < p2c_window (SliceStable mesh_less demo_list) (demo_routing ''ready_mesh'') \<and>
     b < p2c_window (SliceStable mesh_less demo_list) (demo_routing ''ready_mesh'') \<and>
     hd (fst (applyStrategyMode demo_list demo_req (demo_routing ''ready_mesh'') False 0 0 demo_router)) =
       SliceStable mesh_less demo_list ! a \<and>
     prio (SliceStable mesh_less demo_list ! a) = prio (SliceStable mesh_less demo_list ! b) \<and>
     \<not> better (SliceStable mesh_less demo_list ! b) (SliceStable mesh_less demo_list ! a)"
  by (rule p2c_lead_is_not_the_worse_sample) code_simp+

text \<open>C9: Without an applicable pin, cost aware leads with a candidate of the best priority
tier; if any candidate of that tier has a known price, the lead has one, and no
candidate of the tier with a known price is estimated cheaper.\<close>

theorem cheapest_priced_candidate_leads:
  assumes "2 \<le> length out" and "Strategy (Routing cfg) = ''cost_aware''"
    and "pin_index (fst (pinned req cfg now now' r)) (SliceStable cost_less out) = None"
    and "x \<in> set out" and "lead = hd (fst (applyStrategyMode out req cfg simulated now now' r))"
  shows "prio lead \<le> prio x \<and> (prio lead = prio x \<and> scPriceKnown x \<longrightarrow>
     scPriceKnown lead \<and> scEstimatedCostUSD lead \<le> scEstimatedCostUSD x)"
proof -
  let ?s = "SliceStable cost_less out"
  obtain out' where o: "lead_choice ?s out'" "out' = ?s"
    "fst (orderCostAware out req cfg now now' r) =
       diversifyProviderFailover out' 1 (MaxAttempts (Routing cfg))"
    using orderCostAware_shape[OF assms(1), of req cfg now now' r] assms(3) by auto
  have ne: "?s \<noteq> []" using assms(1) by (metis length_SliceStable list.size(3) not_numeral_le_zero)
  have "lead = hd ?s"
    using lead_of_diversified[OF o(1) assms(1) o(3)] o(2) assms(2,5) ne
    by (simp add: applyStrategyMode_def hd_conv_nth)
  then have "\<not> cost_less x lead"
    using cost.ordered_hd[OF cost.ordered_sort, of x out] assms(4) by simp
  then show ?thesis by (auto simp: cost_less_def split: if_splits)
qed

theorem cheapest_priced_candidate_leads_witness:
  "prio (hd (fst (applyStrategyMode demo_list demo_req (demo_routing ''cost_aware'') False 0 0 demo_router))) \<le> 0"
  using cheapest_priced_candidate_leads[of demo_list "demo_routing ''cost_aware''" demo_req 0 0 demo_router
      "demo_scored ''q/z'' ''q'' 0 50", OF _ _ _ _ refl]
  by (simp add: demo_list_def demo_routing_def pinned_def zero_RoutingConfig_def pin_index_def demo_scored_def)

end
