(* ===== verification/RouterTables.thy ===== *)
theory RouterTables
  imports Router
begin

text \<open>
  The tables \<^verbatim>\<open>Reload\<close> builds from the configuration: every deployment comes from an
  enabled model of an enabled provider, the identifier table and the model index only
  hold listed deployments, an index entry always matches its key, and a deployment is
  indexed under its identifier, its model name and its aliases.
\<close>

definition from_config :: "Config \<Rightarrow> gotime \<Rightarrow> Deployment \<Rightarrow> bool" where
  "from_config cfg t d \<longleftrightarrow> (\<exists>p \<in> set (Providers cfg). pcEnabled p \<and>
     (\<exists>m \<in> set (pcModels p). mcEnabled m \<and> d = build_deployment (FromConfig cfg) t p m))"

definition tables_ok :: "(Deployment \<Rightarrow> bool) \<Rightarrow> tables \<Rightarrow> bool" where
  "tables_ok P = (\<lambda>(al, ids, models).
     (\<forall>d \<in> set al. P d \<and> fm_has ids (dID d)) \<and>
     (\<forall>k d. fmlookup ids k = Some d \<longrightarrow> d \<in> set al \<and> dID d = k) \<and>
     (\<forall>k ds. fmlookup models k = Some ds \<longrightarrow> k \<noteq> [] \<and> ds \<noteq> [] \<and> set ds \<subseteq> set al \<and>
        (\<forall>d \<in> set ds. matchesModel d k)) \<and>
     (\<forall>d \<in> set al. \<forall>k \<in> {dID d, dModel d} \<union> set (dAliases d). k \<noteq> [] \<longrightarrow>
        d \<in> set (fm_get [] models k)))"

lemma build_deployment_fields [simp]:
  "dID (build_deployment b t p m) = pcID p @ ''/'' @ mcID m"
  "dProviderID (build_deployment b t p m) = pcID p"
  "dModel (build_deployment b t p m) = mcModel m"
  "dAliases (build_deployment b t p m) = mcAliases m"
  "dTrainsOnData (build_deployment b t p m) =
     (let x = ToLower (TrimSpace (TrainsOnData (pcDataHandling p))) in if x = [] then ''unknown'' else x)"
  by (simp_all add: build_deployment_def Let_def split: option.split prod.split)

lemma HasSuffix_append [simp]: "HasSuffix (s @ t) t"
  by (simp add: HasSuffix_def)

lemma index_keys_set: "set (index_keys seen ks) = set ks - set seen - {[]}"
  by (induction seen ks rule: index_keys.induct) auto

lemma append_keys_lookup:
  "fm_get [] (foldl (append_key d) models ks) k = fm_get [] models k @ replicate (count_list ks k) d"
proof (induction ks arbitrary: models)
  case (Cons a ks)
  have "fm_get [] (append_key d models a) k = fm_get [] models k @ (if k = a then [d] else [])"
    by (simp add: append_key_def)
  with Cons show ?case by (auto simp: replicate_append_same)
qed simp

lemma append_keys_has: "fm_has (foldl (append_key d) models ks) k \<longleftrightarrow> fm_has models k \<or> k \<in> set ks"
  by (induction ks arbitrary: models) (auto simp: append_key_def)

lemma fm_get_has: "fmlookup m k = Some v \<longleftrightarrow> fm_has m k \<and> fm_get z m k = v"
  by (auto simp: fm_has_def fm_get_def)

lemma reload_model_ok:
  assumes ok: "tables_ok P t"
    and P: "mcEnabled m \<Longrightarrow> P (build_deployment b now p m)"
  shows "tables_ok P (reload_model b now p t m)"
proof (cases "mcEnabled m")
  case False
  then show ?thesis using ok by (simp add: reload_model_def)
next
  case True
  obtain al ids models where t: "t = (al, ids, models)" by (cases t) auto
  define d where "d = build_deployment b now p m"
  define ks where "ks = index_keys [] ([dID d, dModel d, mcID m] @ dAliases d)"
  have res: "reload_model b now p t m = (al @ [d], fmupd (dID d) d ids, foldl (append_key d) models ks)"
    using True by (simp add: reload_model_def t d_def ks_def Let_def)
  have keys: "set ks = ({dID d, dModel d, mcID m} \<union> set (dAliases d)) - {[]}"
    by (auto simp: ks_def index_keys_set)
  have match: "matchesModel d k" if "k \<in> set ks" for k
    using that by (auto simp: keys matchesModel_def d_def HasSuffix_def)
  note ok' = ok[unfolded t tables_ok_def prod.case]
  have models: "k \<noteq> [] \<and> ds \<noteq> [] \<and> set ds \<subseteq> set (al @ [d]) \<and> (\<forall>d \<in> set ds. matchesModel d k)"
    if "fmlookup (foldl (append_key d) models ks) k = Some ds" for k ds
  proof -
    have ds: "ds = fm_get [] models k @ replicate (count_list ks k) d"
      and "fm_has models k \<or> k \<in> set ks"
      using that by (auto simp: fm_get_has[where z = "[]"] append_keys_lookup append_keys_has)
    moreover have "count_list ks k \<noteq> 0 \<longleftrightarrow> k \<in> set ks" by (auto simp: count_list_0_iff)
    moreover have "k \<noteq> [] \<and> fm_get [] models k \<noteq> [] \<and>
        set (fm_get [] models k) \<subseteq> set al \<and> (\<forall>d \<in> set (fm_get [] models k). matchesModel d k)" if "fm_has models k"
    proof -
      have "fmlookup models k = Some (fm_get [] models k)" using that by (auto simp: fm_has_def fm_get_def split: option.splits)
      then show ?thesis using ok' by blast
    qed
    moreover have "\<not> fm_has models k \<Longrightarrow> fm_get [] models k = []" by (simp add: fm_has_def fm_get_def)
    ultimately show ?thesis using match keys by (cases "fm_has models k") auto
  qed
  have found: "e \<in> set (fm_get [] (foldl (append_key d) models ks) k)"
    if "e \<in> set (al @ [d])" "k \<in> {dID e, dModel e} \<union> set (dAliases e)" "k \<noteq> []" for e k
  proof (cases "e = d")
    case True
    then have "count_list ks k \<noteq> 0" using that keys by (auto simp: count_list_0_iff)
    with True show ?thesis by (simp add: append_keys_lookup)
  next
    case False
    then have "e \<in> set (fm_get [] models k)" using that ok' by auto
    then show ?thesis by (simp add: append_keys_lookup)
  qed
  show ?thesis
    unfolding res tables_ok_def prod.case
    using ok' P[OF True] models found by (auto simp: d_def split: if_splits)
qed

lemma build_tables_ok: "tables_ok (from_config cfg t) (build_tables cfg t)"
  unfolding build_tables_def
proof (rule foldl_invariant)
  show "tables_ok (from_config cfg t) ([], fmempty, fmempty)" by (simp add: tables_ok_def)
  fix a p assume p: "p \<in> set (Providers cfg)" and a: "tables_ok (from_config cfg t) a"
  show "tables_ok (from_config cfg t) (reload_provider (FromConfig cfg) t a p)"
  proof (cases "pcEnabled p")
    case True
    have "tables_ok (from_config cfg t) (foldl (reload_model (FromConfig cfg) t p) a (pcModels p))"
      by (rule foldl_invariant[where I = "tables_ok (from_config cfg t)", OF a]) (rule reload_model_ok, use p True in \<open>auto simp: from_config_def\<close>)
    with True show ?thesis by (simp add: reload_provider_def)
  qed (simp add: reload_provider_def a)
qed

section \<open>The tables, exactly\<close>

text \<open>The enabled models of enabled providers in the order of the configuration, and the names
under which a request can ask for one.\<close>

definition enabled_of :: "ProviderConfig list \<Rightarrow> (ProviderConfig \<times> ModelConfig) list" where
  "enabled_of ps = concat (map (\<lambda>p. if pcEnabled p then map (Pair p) (filter mcEnabled (pcModels p)) else []) ps)"

definition enabled_models :: "Config \<Rightarrow> (ProviderConfig \<times> ModelConfig) list" where
  "enabled_models cfg = enabled_of (Providers cfg)"

definition answers_to :: "ProviderConfig \<Rightarrow> ModelConfig \<Rightarrow> string \<Rightarrow> bool" where
  "answers_to p mc q \<longleftrightarrow> q = pcID p @ ''/'' @ mcID mc \<or> q = mcModel mc \<or> q = mcID mc \<or> q \<in> set (mcAliases mc)"

lemma reload_models_enabled:
  "foldl (reload_model b t p) T ms = foldl (\<lambda>T (p, mc). reload_model b t p T mc) T (map (Pair p) (filter mcEnabled ms))"
  by (induction ms arbitrary: T) (simp_all add: reload_model_def)

lemma reload_providers_enabled:
  "foldl (reload_provider b t) T ps = foldl (\<lambda>T (p, mc). reload_model b t p T mc) T (enabled_of ps)"
proof (induction ps arbitrary: T)
  case (Cons p ps)
  then show ?case
    using reload_models_enabled[of b t p T "pcModels p"] by (simp add: enabled_of_def reload_provider_def)
qed (simp add: enabled_of_def)

lemma distinct_index_keys: "distinct (index_keys seen ks)"
  by (induction seen ks rule: index_keys.induct) (auto simp: index_keys_set)

lemma index_count: "count_list (index_keys [] ks) k = (if k \<noteq> [] \<and> k \<in> set ks then 1 else 0)"
proof -
  have "count_list xs k = (if k \<in> set xs then 1 else 0)" if "distinct xs" for xs :: "string list"
    using that by (induction xs) (auto simp: count_list_0_iff)
  from this[OF distinct_index_keys[of "[]" ks]] show ?thesis by (auto simp: index_keys_set)
qed

lemma reload_pairs_exact:
  assumes "\<forall>(p, mc) \<in> set xs. mcEnabled mc"
  shows "(case foldl (\<lambda>T (p, mc). reload_model b t p T mc) ([], fmempty, fmempty) xs of (al, ids, models) \<Rightarrow>
     al = map (\<lambda>(p, mc). build_deployment b t p mc) xs \<and>
     (\<forall>k. fm_get [] models k =
        (if k = [] then [] else map (\<lambda>(p, mc). build_deployment b t p mc) (filter (\<lambda>(p, mc). answers_to p mc k) xs))))"
  using assms
proof (induction xs rule: rev_induct)
  case (snoc x xs)
  obtain p mc where x: "x = (p, mc)" by fastforce
  obtain al ids models where T: "foldl (\<lambda>T (p, mc). reload_model b t p T mc) ([], fmempty, fmempty) xs = (al, ids, models)"
    by (metis prod.exhaust)
  let ?d = "build_deployment b t p mc"
  have IH: "al = map (\<lambda>(p, mc). build_deployment b t p mc) xs"
    "fm_get [] models k = (if k = [] then [] else map (\<lambda>(p, mc). build_deployment b t p mc)
       (filter (\<lambda>(p, mc). answers_to p mc k) xs))" for k
    using snoc by (simp_all add: T)
  define ks where "ks = index_keys [] ([dID ?d, dModel ?d, mcID mc] @ dAliases ?d)"
  have "mcEnabled mc" using snoc.prems by (simp add: x)
  then have "foldl (\<lambda>T (p, mc). reload_model b t p T mc) ([], fmempty, fmempty) (xs @ [x]) =
      (al @ [?d], fmupd (dID ?d) ?d ids, foldl (append_key ?d) models ks)"
    unfolding foldl_append T x ks_def by (simp only: foldl.simps prod.case reload_model_def Let_def not_True_eq_False if_False)
  moreover have "count_list ks k = (if k \<noteq> [] \<and> answers_to p mc k then 1 else 0)" for k
    unfolding ks_def index_count by (auto simp: answers_to_def)
  ultimately show ?case by (simp only: prod.case append_keys_lookup IH) (simp add: x)
qed (simp add: fm_get_def)

lemma build_tables_exact:
  "fst (build_tables cfg t) = map (\<lambda>(p, mc). build_deployment (FromConfig cfg) t p mc) (enabled_models cfg)"
  "q \<noteq> [] \<Longrightarrow> fm_get [] (snd (snd (build_tables cfg t))) q =
     map (\<lambda>(p, mc). build_deployment (FromConfig cfg) t p mc) (filter (\<lambda>(p, mc). answers_to p mc q) (enabled_models cfg))"
proof -
  have "\<forall>(p, mc) \<in> set (enabled_models cfg). mcEnabled mc"
    by (auto simp: enabled_models_def enabled_of_def split: if_splits)
  from reload_pairs_exact[OF this, of "FromConfig cfg" t]
  show "fst (build_tables cfg t) = map (\<lambda>(p, mc). build_deployment (FromConfig cfg) t p mc) (enabled_models cfg)"
    and "q \<noteq> [] \<Longrightarrow> fm_get [] (snd (snd (build_tables cfg t))) q =
     map (\<lambda>(p, mc). build_deployment (FromConfig cfg) t p mc) (filter (\<lambda>(p, mc). answers_to p mc q) (enabled_models cfg))"
    by (simp_all add: build_tables_def enabled_models_def reload_providers_enabled split: prod.splits)
qed

section \<open>The invariant of the tables\<close>

text \<open>The invariant of the router's tables.\<close>

definition router_tables :: "Router \<Rightarrow> bool" where
  "router_tables r \<longleftrightarrow> (\<exists>t. tables_ok (from_config (rCfg r) t) (rAll r, rByID r, rByModel r))"

lemma Reload_tables: "router_tables (Reload cfg bookNow now r)"
  using build_tables_ok[of cfg bookNow]
  by (auto simp: router_tables_def Reload_def Let_def split_beta intro!: exI[of _ bookNow])

lemma router_tables_cong:
  "rCfg r' = rCfg r \<Longrightarrow> rAll r' = rAll r \<Longrightarrow> rByID r' = rByID r \<Longrightarrow> rByModel r' = rByModel r \<Longrightarrow>
   router_tables r' = router_tables r"
  by (simp add: router_tables_def)

end
