(* ===== verification/Explain.thy ===== *)
theory Explain
  imports Router
begin

text \<open>
  Routing explanations (\<^verbatim>\<open>src/internal/router/explain.go\<close>): the same funnel and the same
  ordering as selection, with a verdict recorded for every deployment considered.  The
  clock function gives three readings per deployment: the two of the funnel and the one
  of the health lookup for the verdict.  The record \<open>explain_clock\<close> holds the readings
  outside that loop, in the order the code takes them.
\<close>

record CandidateDecision =
  cdDeploymentID :: string
  cdProviderID :: string
  cdModel :: string
  cdPriority :: int
  cdWeight :: rat
  cdTrainsOnData :: string
  cdCapabilities :: Capabilities
  cdIncluded :: bool
  cdExcludedReason :: string
  cdScore :: rat
  cdScoreBase :: rat
  cdHealthAdjustment :: rat
  cdWeightContribution :: rat
  cdPriorityPenalty :: rat
  cdLatencyPenalty :: rat
  cdCapacityPenalty :: rat
  cdFailurePenalty :: rat
  cdHealthStatus :: Status
  cdEWMALatencyMS :: rat
  cdEWMAFailureRate :: rat
  cdCapacityPressure :: rat
  cdEstimatedCostUSD :: rat
  cdPriceKnown :: bool

record Explanation =
  exSimulated :: bool
  exDeterministic :: bool
  exRotationPredictive :: bool
  exStrategy :: string
  exModel :: string
  exKnownModel :: bool
  exUsedUnknownModelFallback :: bool
  exSessionAffinityEnabled :: bool
  exPinnedDeployment :: string
  exPinnedApplied :: bool
  exPinnedSessionTurns :: int
  exPinnedLastCacheReadTokens :: int
  exPinnedCacheBenefitUSD :: gofloat
  exCandidates :: "Scored list"
  exCandidateCount :: nat
  exIncludedCount :: nat
  exDecisions :: "CandidateDecision list"
  exConsideredCount :: nat
  exDecisionsTruncated :: bool

definition decisionLimit :: nat where
  "decisionLimit = 1000"

definition IsRotatingStrategy :: "string \<Rightarrow> bool" where
  "IsRotatingStrategy s \<longleftrightarrow> s = ''round_robin'' \<or> s = ''adaptive_round_robin''"

definition decision :: "Deployment \<Rightarrow> exclusion + Scored \<Rightarrow> Status \<Rightarrow> CandidateDecision" where
  "decision d res st =
     (let cd = \<lparr>cdDeploymentID = dID d, cdProviderID = dProviderID d, cdModel = dModel d,
        cdPriority = dPriority d, cdWeight = dWeight d, cdTrainsOnData = dTrainsOnData d,
        cdCapabilities = dCapabilities d, cdIncluded = False, cdExcludedReason = [],
        cdScore = 0, cdScoreBase = 0, cdHealthAdjustment = 0, cdWeightContribution = 0,
        cdPriorityPenalty = 0, cdLatencyPenalty = 0, cdCapacityPenalty = 0, cdFailurePenalty = 0,
        cdHealthStatus = st, cdEWMALatencyMS = 0, cdEWMAFailureRate = 0, cdCapacityPressure = 0,
        cdEstimatedCostUSD = 0, cdPriceKnown = False\<rparr>
      in case res of
           Inr s \<Rightarrow> cd\<lparr>cdIncluded := True, cdScore := scScore s, cdScoreBase := scScoreBase s,
             cdHealthAdjustment := scHealthAdjustment s,
             cdWeightContribution := scWeightContribution s,
             cdPriorityPenalty := scPriorityPenalty s, cdLatencyPenalty := scLatencyPenalty s,
             cdCapacityPenalty := scCapacityPenalty s, cdFailurePenalty := scFailurePenalty s,
             cdHealthStatus := hsStatus (scHealth s), cdEWMALatencyMS := EWMALatencyMS (scHealth s),
             cdEWMAFailureRate := EWMAFailureRate (scHealth s),
             cdCapacityPressure := scCapacityPressure s,
             cdEstimatedCostUSD := scEstimatedCostUSD s, cdPriceKnown := scPriceKnown s\<rparr>
         | Inl x \<Rightarrow> cd\<lparr>cdExcludedReason := reason_code x\<rparr>)"

type_synonym verdicts = "(string, CandidateDecision) fmap"

definition addDecision ::
    "Deployment \<Rightarrow> exclusion + Scored \<Rightarrow> gotime \<Rightarrow> verdicts \<Rightarrow> Manager \<Rightarrow> verdicts \<times> Manager" where
  "addDecision d res t vs m =
     (if fm_has vs (dID d) then (vs, m)
      else (let (st, m') = Get (dID d) t m in (fmupd (dID d) (decision d res (hsStatus st)) vs, m')))"

fun explain_build ::
    "(nat \<Rightarrow> gotime) \<Rightarrow> nat \<Rightarrow> Requirement \<Rightarrow> Config \<Rightarrow> bool \<Rightarrow> Deployment list \<Rightarrow> verdicts \<Rightarrow> Manager
       \<Rightarrow> Scored list \<times> verdicts \<times> Manager" where
  "explain_build clk i req cfg ignore [] vs m = ([], vs, m)"
| "explain_build clk i req cfg ignore (d # ds) vs m =
     (let (res, m1) = evaluateDeployment d req cfg ignore (req_scopes req)
                        (clk (3 * i)) (clk (3 * i + 1)) m;
          (vs', m2) = addDecision d res (clk (3 * i + 2)) vs m1;
          (rest, vs'', m3) = explain_build clk (Suc i) req cfg ignore ds vs' m2
      in (case res of Inl _ \<Rightarrow> rest | Inr s \<Rightarrow> s # rest, vs'', m3))"

definition list_decisions :: "Deployment list \<Rightarrow> verdicts \<Rightarrow> CandidateDecision list" where
  "list_decisions order vs = take decisionLimit (List.map_filter (\<lambda>d. fmlookup vs (dID d)) order)"

record explain_clock =
  ecPinRead :: gotime
  ecPinWrite :: gotime
  ecPinRecord :: gotime
  ecPrice :: gotime
  ecOrderRead :: gotime
  ecOrderWrite :: gotime

definition cache_benefit :: "Config \<Rightarrow> sessionPin \<Rightarrow> gotime \<Rightarrow> gofloat" where
  "cache_benefit cfg pin t =
     (if pinLastCacheReadTokens pin \<le> 0 then Fin 0
      else (let (entry, source) = ResolveFor (FromConfig cfg) cfg (pinDeployment pin) t in
            if source \<noteq> ''unpriced'' \<and> glt (CacheRead entry) (InputPerMTok entry)
            then gdiv_const (gmul (gfloat_of_int (pinLastCacheReadTokens pin))
                   (gsub (InputPerMTok entry) (CacheRead entry))) 1000000
            else Fin 0))"

definition rotation_predictive :: "Config \<Rightarrow> Requirement \<Rightarrow> bool" where
  "rotation_predictive cfg req \<longleftrightarrow>
     \<not> IsRotatingStrategy (Strategy (Routing cfg)) \<and>
     (Strategy (Routing cfg) \<noteq> ''ready_mesh'' \<or> rqSelectionKey req \<noteq> [] \<or> rqSessionKey req \<noteq> [])"

definition Explain ::
    "Requirement \<Rightarrow> (nat \<Rightarrow> gotime) \<Rightarrow> explain_clock \<Rightarrow> Router \<Rightarrow> Manager
       \<Rightarrow> Explanation \<times> Router \<times> Manager" where
  "Explain req clk ec r m =
     (let cfg = rCfg r; source = model_source req r; known = model_known req r;
          affinity = SessionAffinity (Routing cfg);
          (pinDep, r1) = (if affinity then pinned req cfg (ecPinRead ec) (ecPinWrite ec) r else ([], r));
          rec = (if affinity then sessionPinRecord req cfg (ecPinRecord ec) r1 else None);
          (out1, vs1, m1) = explain_build clk 0 req cfg False source fmempty m;
          fallback = (out1 = [] \<and> \<not> known \<and> FallbackOnUnknownModel (Routing cfg));
          (out, vs, m2) = (if fallback
                           then explain_build clk (length source) req cfg True (rAll r) vs1 m1
                           else (out1, vs1, m1));
          decisions = list_decisions (if fallback then rAll r else source) vs;
          (cands, r2) = (if 1 < length out
                         then applyStrategySimulated out req cfg (ecOrderRead ec) (ecOrderWrite ec) r1
                         else (out, r1))
      in (\<lparr>exSimulated = True, exDeterministic = True,
           exRotationPredictive = rotation_predictive cfg req,
           exStrategy = Strategy (Routing cfg), exModel = rqModel req, exKnownModel = known,
           exUsedUnknownModelFallback = fallback, exSessionAffinityEnabled = affinity,
           exPinnedDeployment = pinDep,
           exPinnedApplied = (pinDep \<noteq> [] \<and> cands \<noteq> [] \<and> sc_id (hd cands) = pinDep),
           exPinnedSessionTurns = (case rec of None \<Rightarrow> 0 | Some p \<Rightarrow> pinTurns p),
           exPinnedLastCacheReadTokens = (case rec of None \<Rightarrow> 0 | Some p \<Rightarrow> pinLastCacheReadTokens p),
           exPinnedCacheBenefitUSD = (case rec of None \<Rightarrow> Fin 0 | Some p \<Rightarrow> cache_benefit cfg p (ecPrice ec)),
           exCandidates = cands, exCandidateCount = length cands, exIncludedCount = length out,
           exDecisions = decisions, exConsideredCount = fm_len vs,
           exDecisionsTruncated = (length decisions < fm_len vs)\<rparr>, r2, m2))"

end
