(* ===== verification/RouterFunnel.thy ===== *)
theory RouterFunnel
  imports RouterStrategies RouterTables Explain HealthInvariant
begin

text \<open>
  Selection and explanation.  The first part shows that every path that yields a
  candidate passes the funnel.  The second part fixes an instant: reading the health
  manager at one instant is a pure view of it, so at an instant the candidates are
  exactly the deployments that pass, \<^verbatim>\<open>Eligible\<close> agrees with \<^verbatim>\<open>Candidates\<close>, and
  \<^verbatim>\<open>Explain\<close> reports what \<^verbatim>\<open>Candidates\<close> returns without touching the round-robin
  counter.
\<close>

section \<open>Everything selected has passed the funnel\<close>

text \<open>The conditions a selected deployment meets, with the health state it was scored on.\<close>

definition admissible :: "Deployment \<Rightarrow> Requirement \<Rightarrow> Config \<Rightarrow> bool \<Rightarrow> State \<Rightarrow> bool" where
  "admissible d req cfg ignore hs \<longleftrightarrow>
     (ignore \<or> matchesModel d (rqModel req)) \<and>
     (rqProviderType req = [] \<or> dProviderType d = rqProviderType req) \<and>
     (rqRequireNoTraining req \<longrightarrow> SatisfiesNoTraining (dTrainsOnData d)) \<and>
     capability_gate d req = None \<and>
     hsStatus hs \<noteq> Retired \<and>
     (if IsReadyStrategy (Strategy (Routing cfg)) then hsStatus hs = Healthy else hsStatus hs \<noteq> Cooldown)"

lemma evaluate_admissible:
  assumes "evaluateDeployment d req cfg ignore scopes t1 t2 m = (Inr s, m')"
  shows "\<exists>hs. s = scored d hs req cfg \<and> admissible d req cfg ignore hs"
  using assms
  by (auto simp: evaluateDeployment_def static_gate_def health_gate_def admissible_def Let_def
      split: prod.splits if_splits option.splits)

lemma scored_deployment [simp]: "scDeployment (scored d hs req cfg) = d" "scHealth (scored d hs req cfg) = hs"
  by (simp_all add: scored_def Let_def split_beta)

lemma eligible_admissible:
  assumes "eligibleDeployment d req cfg ignore scopes t1 t2 m = (Some s, m')"
  shows "scDeployment s = d \<and> admissible d req cfg ignore (scHealth s)"
  using assms evaluate_admissible
  by (fastforce simp: eligibleDeployment_def Let_def split: prod.splits sum.splits)

lemma build_admissible:
  "s \<in> set (fst (build clk i req cfg ignore ds m)) \<Longrightarrow>
   scDeployment s \<in> set ds \<and> admissible (scDeployment s) req cfg ignore (scHealth s)"
proof (induction ds arbitrary: i m)
  case (Cons d ds)
  obtain x m1 where e: "eligibleDeployment d req cfg ignore (req_scopes req)
      (clk (2 * i)) (clk (2 * i + 1)) m = (x, m1)" by fastforce
  have "s \<in> set (fst (build clk (Suc i) req cfg ignore ds m1)) \<or> x = Some s"
    using Cons.prems e by (auto simp: Let_def split_beta split: option.splits)
  then show ?case
    using Cons.IH[of "Suc i" m1] eligible_admissible[of d req cfg ignore] e by auto
qed simp

text \<open>What a router returns comes from one of the two builds.\<close>

lemma mset_Candidates: "mset (fst (Candidates req clk t t' r m)) = mset (fst (collect req clk r m))"
  by (simp add: Candidates_def Let_def split_beta applyStrategy_def mset_applyStrategyMode)

lemma set_Candidates: "set (fst (Candidates req clk t t' r m)) = set (fst (collect req clk r m))"
  by (metis mset_Candidates set_mset_mset)

lemma collect_source:
  assumes "s \<in> set (fst (collect req clk r m))"
  obtains ignore ds i m' where "s \<in> set (fst (build clk i req (rCfg r) ignore ds m'))"
    and "ds = (if ignore then rAll r else model_source req r)"
    and "ignore \<longrightarrow> \<not> model_known req r \<and> FallbackOnUnknownModel (Routing (rCfg r))"
proof (cases "fst (build clk 0 req (rCfg r) False (model_source req r) m) = [] \<and>
    \<not> model_known req r \<and> FallbackOnUnknownModel (Routing (rCfg r))")
  case True
  with assms have "s \<in> set (fst (build clk (length (model_source req r)) req (rCfg r) True (rAll r)
      (snd (build clk 0 req (rCfg r) False (model_source req r) m))))"
    by (simp add: collect_def Let_def split_beta)
  from that[OF this] True show thesis by simp
next
  case False
  with assms have "s \<in> set (fst (build clk 0 req (rCfg r) False (model_source req r) m))"
    by (simp add: collect_def Let_def split_beta split: if_splits)
  from that[OF this] show thesis by simp
qed

lemma Candidates_admissible:
  assumes "s \<in> set (fst (Candidates req clk t t' r m))"
  shows "(scDeployment s \<in> set (rAll r) \<or> scDeployment s \<in> set (fm_get [] (rByModel r) (rqModel req))) \<and>
     (\<exists>ignore. admissible (scDeployment s) req (rCfg r) ignore (scHealth s) \<and>
       (ignore \<longrightarrow> \<not> model_known req r \<and> FallbackOnUnknownModel (Routing (rCfg r))))"
  using assms unfolding set_Candidates
  by (elim collect_source) (auto dest!: build_admissible simp: model_source_def split: if_splits)

lemma Eligible_admissible:
  assumes "fst (Eligible did req t1 t2 r m) = Some s"
  shows "fmlookup (rByID r) did = Some (scDeployment s) \<and>
     (\<exists>ignore. admissible (scDeployment s) req (rCfg r) ignore (scHealth s))"
proof (cases "fmlookup (rByID r) did")
  case None
  with assms show ?thesis by (simp add: Eligible_def)
next
  case (Some d)
  then obtain ignore where
    "fst (eligibleDeployment d req (rCfg r) ignore (req_scopes req) t1 t2 m) = Some s"
    using assms by (auto simp: Eligible_def Let_def)
  with Some show ?thesis
    by (metis eligible_admissible prod.collapse)
qed

section \<open>Privacy\<close>

lemma no_training_provider:
  assumes "SatisfiesNoTraining (dTrainsOnData (build_deployment b t p m))"
  shows "SatisfiesNoTraining (TrainsOnData (pcDataHandling p))"
proof -
  define x where "x = ToLower (TrimSpace (TrainsOnData (pcDataHandling p)))"
  have "ToLower (TrimSpace (if x = [] then ''unknown'' else x)) = ''no''"
    using assms unfolding SatisfiesNoTraining_def build_deployment_fields Let_def x_def[symmetric] .
  moreover have "ToLower (TrimSpace ''unknown'') \<noteq> ''no''" by code_simp
  moreover have "ToLower (TrimSpace x) = x" by (simp add: x_def TrimSpace_ToLower)
  ultimately have "x = ''no''" by (auto split: if_splits)
  then show ?thesis by (simp add: SatisfiesNoTraining_def x_def)
qed

lemma router_tablesD:
  assumes "router_tables r"
  shows "d \<in> set (rAll r) \<Longrightarrow> \<exists>t. from_config (rCfg r) t d"
    and "d \<in> set (rAll r) \<Longrightarrow> fm_has (rByID r) (dID d)"
    and "fmlookup (rByID r) k = Some d \<Longrightarrow> d \<in> set (rAll r) \<and> dID d = k"
    and "fmlookup (rByModel r) k = Some ds \<Longrightarrow>
       k \<noteq> [] \<and> ds \<noteq> [] \<and> set ds \<subseteq> set (rAll r) \<and> (\<forall>d \<in> set ds. matchesModel d k)"
    and "d \<in> set (rAll r) \<Longrightarrow> k \<in> {dID d, dModel d} \<union> set (dAliases d) \<Longrightarrow> k \<noteq> [] \<Longrightarrow>
       d \<in> set (fm_get [] (rByModel r) k)"
  using assms unfolding router_tables_def tables_ok_def prod.case by blast+

lemma tables_provider:
  assumes "router_tables r" and "d \<in> set (rAll r)" and "SatisfiesNoTraining (dTrainsOnData d)"
  shows "\<exists>p \<in> set (Providers (rCfg r)). pcEnabled p \<and> pcID p = dProviderID d \<and>
     SatisfiesNoTraining (TrainsOnData (pcDataHandling p))"
proof -
  obtain t where "from_config (rCfg r) t d" using router_tablesD(1)[OF assms(1,2)] by blast
  then show ?thesis using assms(3) no_training_provider by (auto simp: from_config_def)
qed

lemma tables_index:
  assumes "router_tables r" and "d \<in> set (fm_get [] (rByModel r) k)"
  shows "d \<in> set (rAll r)"
  using assms(2) router_tablesD(4)[OF assms(1), of k]
  by (cases "fmlookup (rByModel r) k") (auto simp: fm_get_def)

lemma Candidates_listed:
  assumes "router_tables r" and "s \<in> set (fst (Candidates req clk t t' r m))"
  shows "scDeployment s \<in> set (rAll r)"
  using Candidates_admissible[OF assms(2)] tables_index[OF assms(1)] by blast

definition demo_model :: "string \<Rightarrow> ModelConfig" where
  "demo_model mid = \<lparr>mcID = mid, mcModel = ''gpt'', mcAliases = [''fast''], mcEnabled = True,
     mcPriority = 0, mcWeight = 1, mcContextWindow = 0, mcInputCostPerMTok = 1,
     mcOutputCostPerMTok = 2, mcSource = [], mcTestState = [],
     mcCapabilities = \<lparr>capStreaming = True, capTools = True, capVision = False, capReasoning = False\<rparr>\<rparr>"

definition demo_provider :: "string \<Rightarrow> string \<Rightarrow> ProviderConfig" where
  "demo_provider pid trains = \<lparr>pcID = pid, pcName = pid, pcType = ''openai_compatible'',
     pcDataHandling = \<lparr>TrainsOnData = trains, Retention = [], Note = []\<rparr>,
     pcEnabled = True, pcModels = [demo_model ''a'']\<rparr>"

definition demo_cfg :: Config where
  "demo_cfg = zero_Config\<lparr>Routing := zero_RoutingConfig\<lparr>Strategy := ''priority''\<rparr>,
     Providers := [demo_provider ''p'' '' No '', demo_provider ''q'' ''unknown'']\<rparr>"

definition demo_live :: Router where
  "demo_live = NewRouter demo_cfg 10 10"

definition demo_private :: Requirement where
  "demo_private = demo_req\<lparr>rqModel := ''fast'', rqRequireNoTraining := True\<rparr>"

lemma demo_live_tables: "router_tables demo_live"
  unfolding demo_live_def NewRouter_def by (rule Reload_tables)

text \<open>C1: The no-training requirement fails closed on every path that selects a deployment:
whatever candidate list or re-check a request gets while it requires no training, each
selected deployment belongs to an enabled provider of the configuration whose declared
data handling is exactly "no" (up to case and surrounding space). Undeclared and unknown
providers are never selected.\<close>

theorem no_training_fails_closed:
  assumes "router_tables r" and "rqRequireNoTraining req"
    and "s \<in> set (fst (Candidates req clk now now' r m)) \<or> fst (Eligible did req t1 t2 r m) = Some s"
  shows "\<exists>p \<in> set (Providers (rCfg r)). pcEnabled p \<and> pcID p = dProviderID (scDeployment s) \<and>
     ToLower (TrimSpace (TrainsOnData (pcDataHandling p))) = ''no''"
proof -
  have "scDeployment s \<in> set (rAll r) \<and> SatisfiesNoTraining (dTrainsOnData (scDeployment s))"
    using assms(3)
  proof
    assume "s \<in> set (fst (Candidates req clk now now' r m))"
    then show ?thesis
      using Candidates_admissible Candidates_listed[OF assms(1)] assms(2)
      unfolding admissible_def by blast
  next
    assume "fst (Eligible did req t1 t2 r m) = Some s"
    then have "fmlookup (rByID r) did = Some (scDeployment s) \<and>
        (\<exists>ignore. admissible (scDeployment s) req (rCfg r) ignore (scHealth s))"
      by (rule Eligible_admissible)
    then show ?thesis
      using assms(2) router_tablesD(3)[OF assms(1)] by (auto simp: admissible_def)
  qed
  then show ?thesis
    using tables_provider[OF assms(1)] unfolding SatisfiesNoTraining_def by blast
qed

lemma demo_selected:
  "map sc_id (fst (Candidates demo_private (\<lambda>_. 11) 11 11 demo_live (New 3 second))) = [''p/a'']"
  by code_simp

theorem no_training_fails_closed_witness:
  "map sc_id (fst (Candidates demo_private (\<lambda>_. 11) 11 11 demo_live (New 3 second))) = [''p/a''] \<and>
   (\<exists>p \<in> set (Providers (rCfg demo_live)). pcEnabled p \<and>
     pcID p = dProviderID (scDeployment (hd (fst (Candidates demo_private (\<lambda>_. 11) 11 11 demo_live (New 3 second))))) \<and>
     ToLower (TrimSpace (TrainsOnData (pcDataHandling p))) = ''no'')"
proof (rule conjI)
  show one: "map sc_id (fst (Candidates demo_private (\<lambda>_. 11) 11 11 demo_live (New 3 second))) = [''p/a'']"
    by (rule demo_selected)
  show "\<exists>p \<in> set (Providers (rCfg demo_live)). pcEnabled p \<and>
     pcID p = dProviderID (scDeployment (hd (fst (Candidates demo_private (\<lambda>_. 11) 11 11 demo_live (New 3 second))))) \<and>
     ToLower (TrimSpace (TrainsOnData (pcDataHandling p))) = ''no''"
    by (rule no_training_fails_closed[OF demo_live_tables, of demo_private _ "\<lambda>_. 11" 11 11 "New 3 second"])
      (use one in \<open>auto simp: demo_private_def intro!: disjI1 hd_in_set\<close>)
qed

end
