(* ===== verification/RouterAgreement.thy ===== *)
theory RouterAgreement
  imports RouterFunnel HealthBreaker
begin

text \<open>
  Selection at an instant.  When all readings of a call return the same time, a health
  lookup is a function of a view of the manager that the lookups themselves do not
  change.  The funnel is then a pure verdict per deployment, so that the candidate
  list, the per-attempt re-check and the explanation can be compared.
\<close>

section \<open>The view of the health manager at an instant\<close>

definition norm_state :: "gotime \<Rightarrow> State \<Rightarrow> State" where
  "norm_state t s = normalizeScopes (normalizeGlobal s t) t"

definition state_view :: "gotime \<Rightarrow> Manager \<Rightarrow> string \<Rightarrow> State" where
  "state_view t m did = (case fmlookup (mStates m) did of
     None \<Rightarrow> unknown_state did | Some s \<Rightarrow> norm_state t s)"

definition provider_view :: "gotime \<Rightarrow> Manager \<Rightarrow> string \<Rightarrow> bool" where
  "provider_view t m p \<longleftrightarrow> p = [] \<or> (case fmlookup (mProviders m) p of
     None \<Rightarrow> True | Some st \<Rightarrow> psStatus (normalizeProviderState st t) \<noteq> Cooldown)"

definition same_view :: "gotime \<Rightarrow> Manager \<Rightarrow> Manager \<Rightarrow> bool" where
  "same_view t m m' \<longleftrightarrow> state_view t m = state_view t m' \<and> provider_view t m = provider_view t m'"

lemma same_view_refl [simp]: "same_view t m m"
  by (simp add: same_view_def)

lemma same_view_trans: "same_view t m m' \<Longrightarrow> same_view t m' m'' \<Longrightarrow> same_view t m m''"
  by (simp add: same_view_def)

lemma normalizeScope_idem: "normalizeScope t (normalizeScope t st) = normalizeScope t st"
  by (simp add: normalizeScope_def cooldown_over_def)

lemma norm_state_idem: "norm_state t (norm_state t s) = norm_state t s"
  by (cases "cooldown_over (hsStatus s) (CooldownUntil s) t")
    (auto simp: norm_state_def normalizeScopes_def normalizeGlobal_def cooldown_over_def
      normalizeScope_idem fmap.map_comp comp_def)

lemma norm_state_idle: "\<not> stateNeedsNormalization s t \<Longrightarrow> norm_state t s = s"
  unfolding norm_state_def by (rule normalize_idle)

lemma scopesReady_unknown [simp]: "scopesReadyState (unknown_state did) scopes"
  by (simp add: scopesReadyState_def unknown_state_def zero_State_def list_all_iff)

lemma GetWithScopes_at:
  "fst (GetWithScopes did scopes t m) = (state_view t m did, scopesReadyState (state_view t m did) scopes)"
  "same_view t m (snd (GetWithScopes did scopes t m))"
proof -
  show "fst (GetWithScopes did scopes t m) =
      (state_view t m did, scopesReadyState (state_view t m did) scopes)"
    using norm_state_idle[of _ t]
    by (cases "fmlookup (mStates m) did")
      (auto simp: GetWithScopes_def GetWithScopes_read_def GetWithScopes_write_def state_view_def Let_def
        simp flip: norm_state_def)
  have "state_view t (put_state did (norm_state t s) m) = state_view t m"
    if "fmlookup (mStates m) did = Some s" for s
    using that by (auto simp: put_state_def state_view_def fun_eq_iff norm_state_idem)
  moreover have "provider_view t (put_state did s m) = provider_view t m" for s
    by (simp add: put_state_def provider_view_def fun_eq_iff)
  ultimately show "same_view t m (snd (GetWithScopes did scopes t m))"
    by (cases "fmlookup (mStates m) did")
      (auto simp: GetWithScopes_def GetWithScopes_read_def GetWithScopes_write_def same_view_def Let_def
        simp flip: norm_state_def)
qed

lemma Get_at: "fst (Get did t m) = state_view t m did" "same_view t m (snd (Get did t m))"
  using GetWithScopes_at[where did = did and scopes = "[]" and t = t and m = m] by (simp_all add: Get_def split_beta Let_def)

lemma provider_norm_idem:
  "normalizeProviderState (normalizeProviderState st t) t = normalizeProviderState st t"
  by (simp add: normalizeProviderState_def cooldown_over_def)

lemma ProviderAvailable_at:
  "fst (ProviderAvailable p t m) = provider_view t m p"
  "same_view t m (snd (ProviderAvailable p t m))"
proof -
  show "fst (ProviderAvailable p t m) = provider_view t m p"
    by (auto simp: ProviderAvailable_def ProviderAvailable_read_def ProviderAvailable_write_def
        provider_view_def normalizeProviderState_def cooldown_over_def IsZero_def Before_def After_def
        Let_def split: option.split)
  show "same_view t m (snd (ProviderAvailable p t m))"
    by (auto simp: ProviderAvailable_def ProviderAvailable_read_def ProviderAvailable_write_def
        same_view_def provider_view_def state_view_def put_provider_def provider_norm_idem
        fun_eq_iff Let_def split: option.split)
qed

section \<open>The funnel at an instant\<close>

definition verdict ::
    "gotime \<Rightarrow> Manager \<Rightarrow> Requirement \<Rightarrow> Config \<Rightarrow> bool \<Rightarrow> Deployment \<Rightarrow> exclusion + Scored" where
  "verdict t m req cfg ignore d =
     (case static_gate d req ignore of
        Some x \<Rightarrow> Inl x
      | None \<Rightarrow>
          if \<not> provider_view t m (dProviderID d) then Inl ExcludeProviderCircuit
          else case capability_gate d req of
                 Some x \<Rightarrow> Inl x
               | None \<Rightarrow>
                   (let strategy = Strategy (Routing cfg); hs = state_view t m (dID d);
                        scopes = (if strategy = ''ready_mesh'' \<or> strategy = ''cost_aware''
                                  then req_scopes req else [])
                    in case health_gate strategy hs (scopesReadyState hs scopes) of
                         Some x \<Rightarrow> Inl x
                       | None \<Rightarrow> Inr (scored d hs req cfg)))"

lemma verdict_same_view: "same_view t m m' \<Longrightarrow> verdict t m = verdict t m'"
  unfolding same_view_def by (elim conjE, intro ext) (simp only: verdict_def)

lemma evaluate_at:
  "fst (evaluateDeployment d req cfg ignore (req_scopes req) t t m) = verdict t m req cfg ignore d"
  "same_view t m (snd (evaluateDeployment d req cfg ignore (req_scopes req) t t m))"
proof -
  obtain up m1 where p: "ProviderAvailable (dProviderID d) t m = (up, m1)" by fastforce
  then have up: "up = provider_view t m (dProviderID d)" and v1: "same_view t m m1"
    using ProviderAvailable_at[where p = "dProviderID d" and t = t and m = m] by simp_all
  let ?scopes = "if Strategy (Routing cfg) = ''ready_mesh'' \<or> Strategy (Routing cfg) = ''cost_aware''
     then req_scopes req else []"
  obtain hs rdy m2 where g: "GetWithScopes (dID d) ?scopes t m1 = ((hs, rdy), m2)"
    by (metis prod.exhaust)
  then have hs: "hs = state_view t m (dID d)" "rdy = scopesReadyState (state_view t m (dID d)) ?scopes"
    and v2: "same_view t m m2"
    using GetWithScopes_at[where did = "dID d" and scopes = ?scopes and t = t and m = m1] v1
    by (auto simp: same_view_def)
  show "fst (evaluateDeployment d req cfg ignore (req_scopes req) t t m) = verdict t m req cfg ignore d"
    using p g by (auto simp: evaluateDeployment_def verdict_def up hs Let_def split: option.split)
  show "same_view t m (snd (evaluateDeployment d req cfg ignore (req_scopes req) t t m))"
    using p g v1 v2 by (auto simp: evaluateDeployment_def Let_def split: option.split)
qed

definition passing :: "gotime \<Rightarrow> Manager \<Rightarrow> Requirement \<Rightarrow> Config \<Rightarrow> bool \<Rightarrow> Deployment list \<Rightarrow> Scored list" where
  "passing t m req cfg ignore ds =
     List.map_filter (\<lambda>d. case verdict t m req cfg ignore d of Inl _ \<Rightarrow> None | Inr s \<Rightarrow> Some s) ds"

lemma passing_simps [simp]:
  "passing t m req cfg ignore [] = []"
  "passing t m req cfg ignore (d # ds) =
     (case verdict t m req cfg ignore d of Inl _ \<Rightarrow> passing t m req cfg ignore ds
      | Inr s \<Rightarrow> s # passing t m req cfg ignore ds)"
  by (simp_all add: passing_def List.map_filter_def split: sum.split)

lemma passing_same_view: "same_view t m m' \<Longrightarrow> passing t m = passing t m'"
  by (intro ext) (simp only: passing_def verdict_same_view)

lemma build_at:
  "fst (build (\<lambda>_. t) i req cfg ignore ds m) = passing t m req cfg ignore ds \<and>
   same_view t m (snd (build (\<lambda>_. t) i req cfg ignore ds m))"
proof (induction ds arbitrary: i m)
  case (Cons d ds)
  obtain res m1 where e: "evaluateDeployment d req cfg ignore (req_scopes req) t t m = (res, m1)"
    by fastforce
  then have res: "res = verdict t m req cfg ignore d" and v: "same_view t m m1"
    using evaluate_at[where d = d and req = req and cfg = cfg and ignore = ignore and t = t and m = m] by simp_all
  have "fst (build (\<lambda>_. t) (Suc i) req cfg ignore ds m1) = passing t m req cfg ignore ds \<and>
      same_view t m (snd (build (\<lambda>_. t) (Suc i) req cfg ignore ds m1))"
    using Cons.IH[of "Suc i" m1] passing_same_view[OF v] same_view_trans[OF v] by simp
  then show ?case
    by (simp add: eligibleDeployment_def e Let_def split_beta res[symmetric] split: sum.split)
qed simp

definition selected :: "gotime \<Rightarrow> Requirement \<Rightarrow> Router \<Rightarrow> Manager \<Rightarrow> Scored list" where
  "selected t req r m =
     (let out = passing t m req (rCfg r) False (model_source req r)
      in if out = [] \<and> \<not> model_known req r \<and> FallbackOnUnknownModel (Routing (rCfg r))
         then passing t m req (rCfg r) True (rAll r) else out)"

lemma collect_at:
  "fst (collect req (\<lambda>_. t) r m) = selected t req r m"
  "same_view t m (snd (collect req (\<lambda>_. t) r m))"
proof -
  let ?b = "build (\<lambda>_. t) 0 req (rCfg r) False (model_source req r) m"
  have b: "fst ?b = passing t m req (rCfg r) False (model_source req r)" "same_view t m (snd ?b)"
    using build_at[of t 0 req "rCfg r" False "model_source req r" m] by auto
  let ?b2 = "build (\<lambda>_. t) (length (model_source req r)) req (rCfg r) True (rAll r) (snd ?b)"
  have b2: "fst ?b2 = passing t m req (rCfg r) True (rAll r)" "same_view t m (snd ?b2)"
    using build_at[of t "length (model_source req r)" req "rCfg r" True "rAll r" "snd ?b"]
      passing_same_view[OF b(2)] same_view_trans[OF b(2)] by auto
  show "fst (collect req (\<lambda>_. t) r m) = selected t req r m"
    using b b2 by (simp add: collect_def selected_def Let_def split_beta)
  show "same_view t m (snd (collect req (\<lambda>_. t) r m))"
    using b b2 by (simp add: collect_def Let_def split_beta)
qed

section \<open>Selection, re-check and explanation agree\<close>

lemma Candidates_at: "set (fst (Candidates req (\<lambda>_. t) now now' r m)) = set (selected t req r m)"
  by (simp add: set_Candidates collect_at)

lemma Candidates_view: "same_view t m (snd (snd (Candidates req (\<lambda>_. t) now now' r m)))"
  using collect_at(2)[of t m req r] by (simp add: Candidates_def Let_def split_beta)

lemma in_passing: "s \<in> set (passing t m req cfg ignore ds) \<longleftrightarrow> (\<exists>d \<in> set ds. verdict t m req cfg ignore d = Inr s)"
  by (induction ds) (auto split: sum.split)

lemma verdict_deployment: "verdict t m req cfg ignore d = Inr s \<Longrightarrow> scDeployment s = d"
  by (auto simp: verdict_def Let_def split: option.splits if_splits)

text \<open>C4: At an instant, selection on freshly loaded tables is exact, whatever the rotation counter
and the session pins are.  The candidates of a request are the deployments of the enabled
models of enabled providers that answer to the requested name (the deployment identifier, the
model, the model's identifier in the configuration or an alias; every deployment for an
empty or automatic name) and pass the whole funnel, each with the score the funnel computed;
if no configured deployment answers to the name and the fallback for unknown models is on,
they are all the deployments that pass the rest of the funnel.  No eligible deployment is left
out and nothing else is selected.\<close>

theorem selection_is_exact:
  "set (fst (Candidates req (\<lambda>_. t) now now' ((Reload cfg bn rn r)\<lparr>rRR := n, rSessions := pins\<rparr>) m)) =
     (let answering = filter (\<lambda>(p, mc). any_model (rqModel req) \<or> answers_to p mc (rqModel req)) (enabled_models cfg);
          eligible = (\<lambda>ignoreModel ds. {s. \<exists>(p, mc) \<in> set ds.
             verdict t m req cfg ignoreModel (build_deployment (FromConfig cfg) bn p mc) = Inr s})
      in if answering = [] \<and> FallbackOnUnknownModel (Routing cfg) then eligible True (enabled_models cfg)
         else eligible False answering)"
proof -
  let ?r = "(Reload cfg bn rn r)\<lparr>rRR := n, rSessions := pins\<rparr>"
  let ?b = "\<lambda>(p, mc). build_deployment (FromConfig cfg) bn p mc"
  let ?ans = "filter (\<lambda>(p, mc). any_model (rqModel req) \<or> answers_to p mc (rqModel req)) (enabled_models cfg)"
  have tabs: "rCfg ?r = cfg" "rAll ?r = fst (build_tables cfg bn)" "rByModel ?r = snd (snd (build_tables cfg bn))"
    by (simp_all add: Reload_def Let_def split_beta)
  have "any_model []" by (simp add: any_model_def)
  then have src: "model_source req ?r = map ?b ?ans"
    by (cases "rqModel req = []") (simp_all add: model_source_def tabs build_tables_exact)
  have known: "model_known req ?r \<longleftrightarrow> any_model (rqModel req) \<or> ?ans \<noteq> []"
    using src by (auto simp: model_known_def model_source_def simp del: filter_empty_conv)
  have pass: "set (passing t m req cfg ig (map ?b ds)) = {s. \<exists>(p, mc) \<in> set ds. verdict t m req cfg ig (?b (p, mc)) = Inr s}" for ig ds
    by (simp add: set_eq_iff in_passing case_prod_beta)
  have none: "passing t m req cfg False [] = []" by simp
  show ?thesis
  proof (cases "?ans = []")
    case True
    then have "any_model (rqModel req) \<Longrightarrow> enabled_models cfg = []" by simp
    with True show ?thesis
      unfolding Candidates_at selected_def src known tabs build_tables_exact Let_def
      by (auto simp: pass simp del: filter_empty_conv)
  next
    case False
    then show ?thesis
      unfolding Candidates_at selected_def src known tabs build_tables_exact Let_def
      by (auto simp: pass simp del: filter_empty_conv)
  qed
qed

lemma demo_answering:
  "map (\<lambda>(p, mc). pcID p @ ''/'' @ mcID mc) (filter (\<lambda>(p, mc). answers_to p mc (rqModel demo_private)) (enabled_models (rCfg demo_live))) \<noteq> []"
  by code_simp

lemma model_known_iff:
  assumes "router_tables r"
  shows "model_known req r \<longleftrightarrow> any_model (rqModel req) \<or> fm_has (rByModel r) (rqModel req)"
  using router_tablesD(4)[OF assms, of "rqModel req"]
  by (cases "fmlookup (rByModel r) (rqModel req)") (auto simp: model_known_def fm_get_def fm_has_def)

lemma selected_verdict:
  assumes "router_tables r" and "s \<in> set (selected t req r m)"
  obtains d ignore where "d \<in> set (rAll r)" and "verdict t m req (rCfg r) ignore d = Inr s"
    and "ignore = (\<not> model_known req r \<and> FallbackOnUnknownModel (Routing (rCfg r)))"
proof (cases "model_known req r")
  case True
  with assms(2) obtain d where d: "d \<in> set (model_source req r)" "verdict t m req (rCfg r) False d = Inr s"
    by (auto simp: selected_def Let_def in_passing)
  then have "d \<in> set (rAll r)"
    using tables_index[OF assms(1)] by (auto simp: model_source_def split: if_splits)
  with d True that show thesis by auto
next
  case False
  then have "model_source req r = []" by (auto simp: model_known_def model_source_def)
  with assms(2) False obtain d where "d \<in> set (rAll r)" "verdict t m req (rCfg r) True d = Inr s"
    and "FallbackOnUnknownModel (Routing (rCfg r))"
    by (auto simp: selected_def Let_def in_passing split: if_splits)
  with False that show thesis by auto
qed

lemma byID_lookup:
  assumes "router_tables r" and "distinct (map dID (rAll r))" and "d \<in> set (rAll r)"
  shows "fmlookup (rByID r) (dID d) = Some d"
proof -
  obtain d' where d': "fmlookup (rByID r) (dID d) = Some d'"
    using router_tablesD(2)[OF assms(1,3)] by (auto simp: fm_has_def)
  with router_tablesD(3)[OF assms(1) d'] assms(2,3) show ?thesis
    by (auto simp: distinct_map dest: inj_onD)
qed

text \<open>C3: The per-attempt re-check agrees with selection: a candidate returned at an instant
is still eligible when it is re-checked at that instant on the health state selection
left behind, under known, unknown and fallback models alike, and with the same score.  The
deployment identifiers of the tables are distinct, which the validation of a configuration
enforces.\<close>

theorem recheck_agrees_with_selection:
  assumes "router_tables r" and "distinct (map dID (rAll r))"
    and "Candidates req (\<lambda>_. t) now now' r m = (out, r', m')" and "s \<in> set out"
  shows "fst (Eligible (sc_id s) req t t r m') = Some s"
proof -
  have sel: "s \<in> set (selected t req r m)" and v: "same_view t m m'"
    using assms(3,4) Candidates_at[of req t now now' r m] Candidates_view[of t m req now now' r] by auto
  obtain d ignore where d: "d \<in> set (rAll r)" "verdict t m req (rCfg r) ignore d = Inr s"
    and ig: "ignore = (\<not> model_known req r \<and> FallbackOnUnknownModel (Routing (rCfg r)))"
    by (rule selected_verdict[OF assms(1) sel])
  have "fst (evaluateDeployment d req (rCfg r) ignore (req_scopes req) t t m') = Inr s"
    using d(2) verdict_same_view[OF v]
      evaluate_at(1)[where d = d and req = req and cfg = "rCfg r" and ignore = ignore and t = t and m = m']
    by simp
  then have "fst (eligibleDeployment d req (rCfg r) ignore (req_scopes req) t t m') = Some s"
    by (simp add: eligibleDeployment_def Let_def split_beta)
  moreover have "sc_id s = dID d" using verdict_deployment[OF d(2)] by simp
  ultimately show ?thesis
    using byID_lookup[OF assms(1,2) d(1)]
    by (simp add: Eligible_def Let_def ig model_known_iff[OF assms(1)])
qed

theorem recheck_agrees_with_selection_witness:
  "fst (Eligible ''p/a'' demo_private 11 11 demo_live
     (snd (snd (Candidates demo_private (\<lambda>_. 11) 11 11 demo_live (New 3 second))))) =
   Some (hd (fst (Candidates demo_private (\<lambda>_. 11) 11 11 demo_live (New 3 second))))"
proof -
  let ?c = "Candidates demo_private (\<lambda>_. 11) 11 11 demo_live (New 3 second)"
  note ids = demo_selected
  then have mem: "hd (fst ?c) \<in> set (fst ?c)" "sc_id (hd (fst ?c)) = ''p/a''" by auto
  have "distinct (map dID (rAll demo_live))" by code_simp
  from recheck_agrees_with_selection[OF demo_live_tables this _ mem(1)] mem(2)
  show ?thesis by (metis prod.collapse)
qed

subsection \<open>Explanations\<close>

lemma addDecision_view: "same_view t m (snd (addDecision d res t vs m))"
  using Get_at(2)[of t m "dID d"] by (simp add: addDecision_def Let_def split_beta)

lemma explain_build_at:
  "fst (explain_build (\<lambda>_. t) i req cfg ignore ds vs m) = passing t m req cfg ignore ds \<and>
   same_view t m (snd (snd (explain_build (\<lambda>_. t) i req cfg ignore ds vs m)))"
proof (induction ds arbitrary: i vs m)
  case (Cons d ds)
  obtain res m1 where e: "evaluateDeployment d req cfg ignore (req_scopes req) t t m = (res, m1)"
    by fastforce
  then have res: "res = verdict t m req cfg ignore d" and v: "same_view t m m1"
    using evaluate_at[where d = d and req = req and cfg = cfg and ignore = ignore and t = t and m = m]
    by simp_all
  obtain vs' m2 where a: "addDecision d res t vs m1 = (vs', m2)" by fastforce
  have v2: "same_view t m m2" using same_view_trans[OF v] addDecision_view[of t m1 d res vs] a by simp
  have "fst (explain_build (\<lambda>_. t) (Suc i) req cfg ignore ds vs' m2) = passing t m req cfg ignore ds \<and>
      same_view t m (snd (snd (explain_build (\<lambda>_. t) (Suc i) req cfg ignore ds vs' m2)))"
    using Cons.IH[of "Suc i" vs' m2] passing_same_view[OF v2] same_view_trans[OF v2] by simp
  then show ?case using a by (cases res) (simp_all add: e Let_def split_beta flip: res)
qed simp

lemma pinned_idem: "fst (pinned req cfg t t (snd (pinned req cfg t t r))) = fst (pinned req cfg t t r)"
  by (auto simp: pinned_def pinned_read_def pinned_write_def Let_def split: option.splits)

lemma pinned_frame [simp]:
  "rCfg (snd (pinned req cfg t t' r)) = rCfg r" "rAll (snd (pinned req cfg t t' r)) = rAll r"
  "rByID (snd (pinned req cfg t t' r)) = rByID r" "rByModel (snd (pinned req cfg t t' r)) = rByModel r"
  "rRR (snd (pinned req cfg t t' r)) = rRR r"
  by (auto simp: pinned_def pinned_write_def Let_def split: option.splits)

lemma ordering_depends_on_pin:
  assumes "rotation_predictive cfg req"
    and "fst (pinned req cfg t t r1) = fst (pinned req cfg t t r2)"
  shows "fst (applyStrategyMode out req cfg True t t r1) = fst (applyStrategyMode out req cfg sim t t r2)"
  using assms
  by (auto simp: applyStrategyMode_def orderReadyMesh_def orderCostAware_def rotation_predictive_def
      IsRotatingStrategy_def p2c_key_def Let_def split_beta split: option.split)

lemma simulated_frame:
  "rRR (snd (applyStrategyMode out req cfg True t t' r)) = rRR r"
  by (auto simp: applyStrategyMode_def orderReadyMesh_def orderCostAware_def rotate_window_def
      rotation_def p2c_key_def Let_def split_beta split: option.split)

definition at_once :: "gotime \<Rightarrow> explain_clock" where
  "at_once t = \<lparr>ecPinRead = t, ecPinWrite = t, ecPinRecord = t, ecPrice = t, ecOrderRead = t, ecOrderWrite = t\<rparr>"

lemma at_once_simps [simp]:
  "ecPinRead (at_once t) = t" "ecPinWrite (at_once t) = t" "ecPinRecord (at_once t) = t"
  "ecPrice (at_once t) = t" "ecOrderRead (at_once t) = t" "ecOrderWrite (at_once t) = t"
  by (simp_all add: at_once_def)

text \<open>The list an explanation orders, and the router it orders it with.\<close>

definition explain_pin :: "Requirement \<Rightarrow> gotime \<Rightarrow> Router \<Rightarrow> string \<times> Router" where
  "explain_pin req t r = (if SessionAffinity (Routing (rCfg r)) then pinned req (rCfg r) t t r else ([], r))"

lemma Explain_candidates:
  "exCandidates (fst (Explain req (\<lambda>_. t) (at_once t) r m)) =
     (if 1 < length (selected t req r m)
      then fst (applyStrategyMode (selected t req r m) req (rCfg r) True t t (snd (explain_pin req t r)))
      else selected t req r m)"
  "rRR (fst (snd (Explain req (\<lambda>_. t) (at_once t) r m))) = rRR r"
proof -
  let ?b = "explain_build (\<lambda>_. t) 0 req (rCfg r) False (model_source req r) fmempty m"
  obtain out1 vs1 m1 where b: "?b = (out1, vs1, m1)" by (metis prod.exhaust)
  then have o1: "out1 = passing t m req (rCfg r) False (model_source req r)" "same_view t m m1"
    using explain_build_at[of t 0 req "rCfg r" False "model_source req r" fmempty m] by auto
  obtain out2 vs2 m2 where b2: "explain_build (\<lambda>_. t) (length (model_source req r)) req (rCfg r) True
      (rAll r) vs1 m1 = (out2, vs2, m2)" by (metis prod.exhaust)
  then have o2: "out2 = passing t m req (rCfg r) True (rAll r)"
    using explain_build_at[of t "length (model_source req r)" req "rCfg r" True "rAll r" vs1 m1]
      passing_same_view[OF o1(2)] by auto
  show "exCandidates (fst (Explain req (\<lambda>_. t) (at_once t) r m)) =
     (if 1 < length (selected t req r m)
      then fst (applyStrategyMode (selected t req r m) req (rCfg r) True t t (snd (explain_pin req t r)))
      else selected t req r m)"
    by (simp add: Explain_def Let_def b b2 split_beta o1 o2 selected_def applyStrategySimulated_def
        explain_pin_def)
  show "rRR (fst (snd (Explain req (\<lambda>_. t) (at_once t) r m))) = rRR r"
    by (simp add: Explain_def Let_def b b2 split_beta applyStrategySimulated_def simulated_frame)
qed

lemma explain_pin_same: "fst (pinned req (rCfg r) t t (snd (explain_pin req t r))) = fst (pinned req (rCfg r) t t r)"
  by (simp add: explain_pin_def pinned_idem)

text \<open>C2: An explanation never drifts from real routing. At an instant it lists exactly the
candidates selection returns, in the very same order whenever it declares its rotation
predictive, and computing it leaves the live round-robin counter untouched.\<close>

theorem explanation_agrees_with_routing:
  "mset (exCandidates (fst (Explain req (\<lambda>_. t) (at_once t) r m))) =
     mset (fst (Candidates req (\<lambda>_. t) t t r m)) \<and>
   (exRotationPredictive (fst (Explain req (\<lambda>_. t) (at_once t) r m)) \<longrightarrow>
     exCandidates (fst (Explain req (\<lambda>_. t) (at_once t) r m)) = fst (Candidates req (\<lambda>_. t) t t r m)) \<and>
   rRR (fst (snd (Explain req (\<lambda>_. t) (at_once t) r m))) = rRR r"
proof -
  have c: "fst (Candidates req (\<lambda>_. t) t t r m) =
     (if 1 < length (selected t req r m)
      then fst (applyStrategyMode (selected t req r m) req (rCfg r) False t t r) else selected t req r m)"
    by (simp add: Candidates_def Let_def split_beta collect_at applyStrategy_def)
  have p: "exRotationPredictive (fst (Explain req (\<lambda>_. t) (at_once t) r m)) = rotation_predictive (rCfg r) req"
    by (simp add: Explain_def Let_def split_beta)
  show ?thesis
    unfolding p c Explain_candidates
    using ordering_depends_on_pin[OF _ explain_pin_same[of req r t],
        where out = "selected t req r m" and sim = False]
    by (simp add: mset_applyStrategyMode)
qed

theorem explanation_agrees_with_routing_witness:
  "exCandidates (fst (Explain demo_private (\<lambda>_. 11) (at_once 11) demo_live (New 3 second))) =
   fst (Candidates demo_private (\<lambda>_. 11) 11 11 demo_live (New 3 second))"
proof -
  have "exRotationPredictive (fst (Explain demo_private (\<lambda>_. 11) (at_once 11) demo_live (New 3 second)))"
    by (simp add: Explain_def Let_def split_beta rotation_predictive_def IsRotatingStrategy_def
        demo_live_def NewRouter_def Reload_def demo_cfg_def)
  then show ?thesis
    using explanation_agrees_with_routing[of demo_private 11 demo_live "New 3 second"] by blast
qed

end
