(* ===== verification/RouterInvariant.thy ===== *)
theory RouterInvariant
  imports RouterAgreement
begin

text \<open>
  The router as a state machine: the operations that change it, the states they reach,
  and what holds in all of them.
\<close>

datatype router_op =
    ReloadOp Config gotime gotime
  | ObserveSessionOp Requirement string gotime
  | ObserveSessionCacheOp Requirement string int int
  | PinnedOp Requirement gotime gotime
  | SessionCountOp gotime
  | CandidatesOp Requirement "nat \<Rightarrow> gotime" gotime gotime Manager
  | ExplainOp Requirement "nat \<Rightarrow> gotime" explain_clock Manager

primrec router_apply :: "(string fset \<Rightarrow> string list) \<Rightarrow> router_op \<Rightarrow> Router \<Rightarrow> Router" where
  "router_apply iter (ReloadOp cfg bn now) r = Reload cfg bn now r"
| "router_apply iter (ObserveSessionOp req did now) r = ObserveSession iter req did now r"
| "router_apply iter (ObserveSessionCacheOp req did i c) r = ObserveSessionCache req did i c r"
| "router_apply iter (PinnedOp req t t') r = snd (PinnedDeploymentID req t t' r)"
| "router_apply iter (SessionCountOp now) r = snd (SessionCount now r)"
| "router_apply iter (CandidatesOp req clk t t' m) r = fst (snd (Candidates req clk t t' r m))"
| "router_apply iter (ExplainOp req clk ec m) r = fst (snd (Explain req clk ec r m))"

inductive router_reachable :: "(string fset \<Rightarrow> string list) \<Rightarrow> Router \<Rightarrow> bool" for iter where
  start: "router_reachable iter (NewRouter cfg bn now)"
| step: "router_reachable iter r \<Longrightarrow> router_reachable iter (router_apply iter op r)"

inductive_cases router_reachableE: "router_reachable iter r"

text \<open>Every pin has a non-empty deployment identifier and sits under a non-empty bucket, and the
table is bounded.\<close>

definition pins_ok :: "(string, sessionPin) fmap \<Rightarrow> bool" where
  "pins_ok pins \<longleftrightarrow> fm_len pins \<le> maxSessionPins \<and>
     (\<forall>k pin. fmlookup pins k = Some pin \<longrightarrow> k \<noteq> [] \<and> pinDeployment pin \<noteq> [])"

definition router_ok :: "Router \<Rightarrow> bool" where
  "router_ok r \<longleftrightarrow> router_tables r \<and> pins_ok (rSessions r)"

lemma fm_len_filter: "fm_len (fmfilter P m) \<le> fm_len m"
  by (auto simp: fm_len_def fmdom_filter intro!: fcard_mono)

lemma pins_ok_filter: "pins_ok pins \<Longrightarrow> pins_ok (fmfilter P pins)"
  using fm_len_filter[of P pins] by (auto simp: pins_ok_def)

lemma pins_ok_empty [simp]: "pins_ok fmempty"
  by (simp add: pins_ok_def)

lemma pins_ok_drop: "pins_ok pins \<Longrightarrow> pins_ok (fmdrop k pins)"
  by (auto simp: pins_ok_def fm_len_drop)

lemma pins_ok_replace:
  "pins_ok pins \<Longrightarrow> fm_has pins k \<Longrightarrow> pinDeployment pin \<noteq> [] \<Longrightarrow> k \<noteq> [] \<Longrightarrow> pins_ok (fmupd k pin pins)"
  by (auto simp: pins_ok_def fm_len_upd)

text \<open>Evicting one pin makes room for a new one.\<close>

lemma evict_makes_room:
  assumes "map_order iter" and "pins_ok pins"
  shows "fm_len (fmupd key pin (evict_one iter key pins)) \<le> maxSessionPins"
    and "pins_ok (evict_one iter key pins)"
proof -
  show "pins_ok (evict_one iter key pins)"
    using assms(2) by (simp add: evict_one_def pins_ok_drop)
  show "fm_len (fmupd key pin (evict_one iter key pins)) \<le> maxSessionPins"
  proof (cases "\<not> fm_has pins key \<and> maxSessionPins \<le> fm_len pins")
    case True
    then have "fmdom pins \<noteq> {||}" by (auto simp: fm_len_def maxSessionPins_def fcard.rep_eq)
    then have "fm_has pins (hd (iter (fmdom pins)))"
      using map_order.iter_hd[OF assms(1)] by (simp add: fm_has_fmdom)
    with True assms(2) show ?thesis
      by (auto simp: evict_one_def fm_len_upd fm_len_drop pins_ok_def maxSessionPins_def)
  next
    case False
    with assms(2) show ?thesis by (auto simp: evict_one_def fm_len_upd pins_ok_def)
  qed
qed

lemma affinityBucket_nonempty: "TrimSpace (rqSessionKey req) \<noteq> [] \<Longrightarrow> affinityBucket req \<noteq> []"
  by (simp add: affinityBucket_def)

lemma ObserveSession_pins:
  assumes "map_order iter" and "pins_ok (rSessions r)"
  shows "pins_ok (rSessions (ObserveSession iter req did now r))"
proof (cases "\<not> SessionAffinity (Routing (rCfg r)) \<or> TrimSpace (rqSessionKey req) = [] \<or> did = []")
  case True
  then show ?thesis using assms by (auto simp: ObserveSession_def)
next
  case False
  let ?key = "affinityBucket req"
  let ?pins = "evict_one iter ?key (rSessions r)"
  obtain pin where r: "rSessions (ObserveSession iter req did now r) = fmupd ?key pin ?pins"
      and pin: "pinDeployment pin = did"
    using False by (auto simp: ObserveSession_def Let_def)
  have "fm_len (fmupd ?key pin ?pins) \<le> maxSessionPins" "pins_ok ?pins"
    by (rule evict_makes_room[OF assms])+
  then show ?thesis
    using False pin affinityBucket_nonempty[of req] unfolding r pins_ok_def by auto
qed

lemma pinned_pins: "pins_ok (rSessions r) \<Longrightarrow> pins_ok (rSessions (snd (pinned req cfg t t' r)))"
  by (auto simp: pinned_def pinned_write_def Let_def pins_ok_drop split: option.splits)

lemma rotate_window_frame [simp]:
  "rCfg (snd (rotate_window sim req w out r)) = rCfg r" "rAll (snd (rotate_window sim req w out r)) = rAll r"
  "rByID (snd (rotate_window sim req w out r)) = rByID r" "rByModel (snd (rotate_window sim req w out r)) = rByModel r"
  by (simp_all add: rotate_window_def rotation_def Let_def split_beta split: option.split)

lemma pinned_tables [simp]:
  "rCfg (snd (pinned req cfg t t' r)) = rCfg r" "rAll (snd (pinned req cfg t t' r)) = rAll r"
  "rByID (snd (pinned req cfg t t' r)) = rByID r" "rByModel (snd (pinned req cfg t t' r)) = rByModel r"
  by (auto simp: pinned_def pinned_write_def Let_def split: option.split)

lemma orderReadyMesh_frame [simp]:
  "rCfg (snd (orderReadyMesh out req cfg sim t t' r)) = rCfg r" "rAll (snd (orderReadyMesh out req cfg sim t t' r)) = rAll r"
  "rByID (snd (orderReadyMesh out req cfg sim t t' r)) = rByID r" "rByModel (snd (orderReadyMesh out req cfg sim t t' r)) = rByModel r"
  by (simp_all add: orderReadyMesh_def p2c_key_def Let_def split_beta split: option.split)

lemma orderCostAware_frame [simp]:
  "rCfg (snd (orderCostAware out req cfg t t' r)) = rCfg r" "rAll (snd (orderCostAware out req cfg t t' r)) = rAll r"
  "rByID (snd (orderCostAware out req cfg t t' r)) = rByID r" "rByModel (snd (orderCostAware out req cfg t t' r)) = rByModel r"
  by (simp_all add: orderCostAware_def Let_def split_beta split: option.split)

lemma applyStrategyMode_frame:
  "rCfg (snd (applyStrategyMode out req cfg sim t t' r)) = rCfg r"
  "rAll (snd (applyStrategyMode out req cfg sim t t' r)) = rAll r"
  "rByID (snd (applyStrategyMode out req cfg sim t t' r)) = rByID r"
  "rByModel (snd (applyStrategyMode out req cfg sim t t' r)) = rByModel r"
  by (simp_all add: applyStrategyMode_def Let_def)

lemma applyStrategyMode_pins:
  "pins_ok (rSessions r) \<Longrightarrow> pins_ok (rSessions (snd (applyStrategyMode out req cfg sim t t' r)))"
  by (auto simp: applyStrategyMode_def orderReadyMesh_def orderCostAware_def rotate_window_def
      rotation_def p2c_key_def Let_def split_beta pinned_pins split: option.split)

lemma router_ok_frame:
  "router_ok r \<Longrightarrow> rCfg r' = rCfg r \<Longrightarrow> rAll r' = rAll r \<Longrightarrow> rByID r' = rByID r \<Longrightarrow>
   rByModel r' = rByModel r \<Longrightarrow> pins_ok (rSessions r') \<Longrightarrow> router_ok r'"
  using router_tables_cong[of r' r] by (simp add: router_ok_def)

lemma Reload_ok: "pins_ok (rSessions r) \<Longrightarrow> router_ok (Reload cfg bn now r)"
  unfolding router_ok_def using Reload_tables
  by (auto simp: Reload_def Let_def split_beta pins_ok_filter)

lemma pinned_ok: "router_ok r \<Longrightarrow> router_ok (snd (pinned req cfg t t' r))"
  by (rule router_ok_frame[of r]) (simp_all add: pinned_pins router_ok_def)

lemma applyStrategyMode_ok: "router_ok r \<Longrightarrow> router_ok (snd (applyStrategyMode out req cfg sim t t' r))"
  by (rule router_ok_frame[of r]) (simp_all add: applyStrategyMode_frame applyStrategyMode_pins router_ok_def)

lemma ObserveSession_ok: "map_order iter \<Longrightarrow> router_ok r \<Longrightarrow> router_ok (ObserveSession iter req did now r)"
  by (rule router_ok_frame[of r]) (simp_all add: ObserveSession_pins router_ok_def, simp_all add: ObserveSession_def Let_def)

lemma ObserveSessionCache_ok: "router_ok r \<Longrightarrow> router_ok (ObserveSessionCache req did i c r)"
proof (rule router_ok_frame[of r])
  assume ok: "router_ok r"
  then show "router_ok r" .
  show "pins_ok (rSessions (ObserveSessionCache req did i c r))"
    using ok affinityBucket_nonempty[of req]
    by (auto simp: ObserveSessionCache_def Let_def router_ok_def fm_has_def
        intro!: pins_ok_replace split: option.splits)
qed (simp_all add: ObserveSessionCache_def Let_def split: option.split)

lemma SessionCount_ok: "router_ok r \<Longrightarrow> router_ok (snd (SessionCount now r))"
  by (rule router_ok_frame[of r]) (simp_all add: SessionCount_def Let_def pins_ok_filter router_ok_def)

lemma router_apply_ok:
  assumes "map_order iter" and "router_ok r"
  shows "router_ok (router_apply iter op r)"
proof (cases op)
  case (CandidatesOp req clk t t' m)
  then show ?thesis using assms(2)
    by (simp add: Candidates_def applyStrategy_def Let_def split_beta applyStrategyMode_ok)
next
  case (ExplainOp req clk ec m)
  then show ?thesis using assms(2)
    by (simp add: Explain_def applyStrategySimulated_def Let_def split_beta applyStrategyMode_ok pinned_ok)
next
  case (ReloadOp cfg bn now)
  then show ?thesis using assms(2) Reload_ok by (simp add: router_ok_def)
qed (use assms in \<open>simp_all add: ObserveSession_ok ObserveSessionCache_ok SessionCount_ok
      PinnedDeploymentID_def pinned_ok\<close>)

lemma reachable_router_ok:
  assumes "map_order iter" and "router_reachable iter r"
  shows "router_ok r"
  using assms(2)
proof induction
  case (start cfg bn now)
  then show ?case by (simp add: NewRouter_def Reload_ok)
next
  case (step r op)
  then show ?case by (simp add: router_apply_ok[OF assms(1)])
qed

lemma Reload_pins_listed:
  "fmlookup (rSessions (Reload cfg bn now r)) k = Some pin \<Longrightarrow>
   fm_has (rByID (Reload cfg bn now r)) (pinDeployment pin) \<and> now \<le> pinExpires pin"
  by (auto simp: Reload_def Let_def split_beta fm_get_def After_def not_less split: if_splits)

text \<open>C5: In every state the router can reach, whatever the order in which a map is
iterated, the session table never holds more than 10000 pins, each pin sits under a
non-empty bucket and has a non-empty deployment identifier, the identifier and model tables
only hold listed deployments, and a deployment listed under a model name matches that name.
A pin may outlive its deployment only until the configuration is reloaded: after a reload
every pin that is kept names a deployment of the new tables and has not expired.\<close>

theorem router_invariant:
  assumes "map_order iter" and "router_reachable iter r"
  shows "fm_len (rSessions r) \<le> 10000 \<and>
     (\<forall>k pin. fmlookup (rSessions r) k = Some pin \<longrightarrow> k \<noteq> [] \<and> pinDeployment pin \<noteq> []) \<and>
     (\<forall>k d. fmlookup (rByID r) k = Some d \<longrightarrow> d \<in> set (rAll r) \<and> dID d = k) \<and>
     (\<forall>k ds. fmlookup (rByModel r) k = Some ds \<longrightarrow> ds \<noteq> [] \<and>
        (\<forall>d \<in> set ds. d \<in> set (rAll r) \<and> matchesModel d k)) \<and>
     (\<forall>cfg bn now k pin. fmlookup (rSessions (Reload cfg bn now r)) k = Some pin \<longrightarrow>
        fm_has (rByID (Reload cfg bn now r)) (pinDeployment pin) \<and> now \<le> pinExpires pin)"
proof -
  have ok: "router_tables r" "pins_ok (rSessions r)"
    using reachable_router_ok[OF assms] by (simp_all add: router_ok_def)
  show ?thesis
    using ok(2) router_tablesD(3,4)[OF ok(1)] Reload_pins_listed unfolding pins_ok_def maxSessionPins_def by blast
qed

definition demo_pinned_router :: Router where
  "demo_pinned_router =
     ObserveSession sorted_list_of_fset demo_pin_req ''p/a'' 5 (NewRouter demo_pin_cfg 1 1)"

lemma demo_pinned_router:
  "\<exists>pin. fmlookup (rSessions demo_pinned_router) (affinityBucket demo_pin_req) = Some pin \<and> pinDeployment pin = ''p/a''"
proof -
  have "TrimSpace (rqSessionKey demo_pin_req) = ''s''" by code_simp
  then show ?thesis
    by (simp add: demo_pinned_router_def ObserveSession_def NewRouter_def Reload_def demo_pin_cfg_def Let_def split_beta)
qed

theorem router_invariant_witness:
  "\<exists>k pin. fmlookup (rSessions demo_pinned_router) k = Some pin \<and> pinDeployment pin = ''p/a'' \<and>
     k \<noteq> [] \<and> pinDeployment pin \<noteq> [] \<and> fm_len (rSessions demo_pinned_router) \<le> 10000"
proof -
  have "router_reachable sorted_list_of_fset
     (router_apply sorted_list_of_fset (ObserveSessionOp demo_pin_req ''p/a'' 5) (NewRouter demo_pin_cfg 1 1))"
    by (intro router_reachable.intros)
  then have "router_reachable sorted_list_of_fset demo_pinned_router" by (simp add: demo_pinned_router_def)
  from router_invariant[OF sorted_order.map_order_axioms this] demo_pinned_router show ?thesis by blast
qed

section \<open>Bounds\<close>

text \<open>The capacity pressure of a provider is always between 0 and 4, and it is 4 whenever
its quota is exhausted; so the capacity penalty of a score is bounded by four times the
configured weight.\<close>

theorem capacity_pressure_bounds:
  "0 \<le> capacityPressure l \<and> capacityPressure l \<le> 4 \<and> (plQuotaExhausted l \<longrightarrow> capacityPressure l = 4)"
  by (auto simp: capacityPressure_def Let_def)

theorem capacity_pressure_bounds_witness:
  "capacityPressure \<lparr>plActive = 1, plWaiting = 0, plLimit = 1, plQuotaExhausted = True, plQuotaPressure = 0\<rparr> = 4"
  using capacity_pressure_bounds[of "\<lparr>plActive = 1, plWaiting = 0, plLimit = 1,
     plQuotaExhausted = True, plQuotaPressure = 0\<rparr>"] by simp

section \<open>Readiness\<close>

definition demo_retired :: Manager where
  "demo_retired = Retire ''p/x'' ''gone'' ''model_not_found'' 5 (New 3 second)"

definition demo_single :: Router where
  "demo_single = demo_router\<lparr>rCfg := demo_routing ''priority'',
     rAll := [scDeployment (demo_scored ''p/x'' ''p'' 0 1)]\<rparr>"

text \<open>Readiness counts a retired deployment as usable under the strategies that are not
ready strategies, although the funnel never selects it: a router whose only deployment
is retired reports one usable deployment and has no candidate.\<close>

theorem readiness_counts_retired:
  "fst (Readiness ''priority'' (\<lambda>_. 6) demo_single demo_retired) = (1, 1) \<and>
   fst (Candidates demo_req (\<lambda>_. 6) 6 6 demo_single demo_retired) = []"
  by (rule conjI; code_simp)

end
