(* ===== verification/Resolver.thy ===== *)
theory Resolver
  imports RouterFunnel
begin

text \<open>
  Virtual endpoints (\<^verbatim>\<open>src/internal/route/resolver.go\<close>): indexes built from the
  configuration, expansion of candidate pools to deployment identifiers, resolution of a
  public model name to its route, and filtering of the router's candidates by the pools of
  the route, primary pool first, then the fallback chain.

  A Go set that may be nil is an \<^typ>\<open>string fset option\<close>; \<^const>\<open>None\<close> is nil, which
  \<^verbatim>\<open>FilterCandidates\<close> reads as "no restriction".  The lemmas show that a resolved route
  never contains such a set.
\<close>

record ResolvedRoute =
  rrVirtualEndpointID :: string
  rrVirtualEndpointName :: string
  rrPublicModel :: string
  rrRouteProfileID :: string
  rrRouteProfileName :: string
  rrPrimaryPoolID :: string
  rrPrimaryPoolName :: string
  rrPrimaryMode :: string
  rrFallbackChainID :: string
  rrFallbackChainName :: string
  rrOrderedPoolIDs :: "string list"
  rrAllowedDeployments :: "string fset option"
  rrFallbackAllowed :: "string fset list"
  rrAllAllowed :: "string fset"
  rrPools :: "(string, CandidatePoolConfig) fmap"

record Resolver =
  rvByPublicModel :: "(string, VirtualEndpointConfig) fmap"
  rvByID :: "(string, VirtualEndpointConfig) fmap"
  rvProfiles :: "(string, RouteProfileConfig) fmap"
  rvPools :: "(string, CandidatePoolConfig) fmap"
  rvChains :: "(string, FallbackChainConfig) fmap"
  rvExpanded :: "(string, string fset) fmap"
  rvVirtualEndpoints :: "VirtualEndpointConfig list"

section \<open>Building the indexes\<close>

definition matchesPoolEntry :: "Deployment \<Rightarrow> string \<Rightarrow> bool" where
  "matchesPoolEntry d entry \<longleftrightarrow> dID d = entry \<or> dModel d = entry \<or> entry \<in> set (dAliases d) \<or>
     HasSuffix (dID d) (''/'' @ entry)"

definition entry_matches :: "Deployment list \<Rightarrow> string \<Rightarrow> string fset" where
  "entry_matches all entry0 =
     (let entry = TrimSpace entry0 in
      if entry = [] then {||} else fset_of_list (map dID (filter (\<lambda>d. matchesPoolEntry d entry) all)))"

definition expand_pool :: "Deployment list \<Rightarrow> CandidatePoolConfig \<Rightarrow> string fset" where
  "expand_pool all cp =
     (if ToLower (cpMode cp) = ''all'' then fset_of_list (map dID all)
      else foldl (\<lambda>s entry. s |\<union>| entry_matches all entry) {||} (cpDeployments cp))"

text \<open>A map filled in a loop: a later element with the same key replaces an earlier one.\<close>

definition index_by :: "('a \<Rightarrow> string) \<Rightarrow> ('a \<Rightarrow> 'b) \<Rightarrow> 'a list \<Rightarrow> (string, 'b) fmap" where
  "index_by key val xs = foldl (\<lambda>m x. fmupd (key x) (val x) m) fmempty xs"

definition NewResolver :: "Config \<Rightarrow> Deployment list \<Rightarrow> Resolver" where
  "NewResolver cfg all =
     \<lparr>rvByPublicModel = index_by vePublicModel (\<lambda>v. v) (VirtualEndpoints cfg),
      rvByID = index_by veID (\<lambda>v. v) (VirtualEndpoints cfg),
      rvProfiles = index_by rpID (\<lambda>p. p) (RouteProfiles cfg),
      rvPools = index_by cpID (\<lambda>p. p) (CandidatePools cfg),
      rvChains = index_by fcID (\<lambda>c. c) (FallbackChains cfg),
      rvExpanded = index_by cpID (expand_pool all) (CandidatePools cfg),
      rvVirtualEndpoints = VirtualEndpoints cfg\<rparr>"

section \<open>Resolution\<close>

definition fallback_pools :: "Resolver \<Rightarrow> RouteProfileConfig \<Rightarrow> string \<Rightarrow> FallbackChainConfig option \<times> string list" where
  "fallback_pools r rp primary =
     (if rpFallbackChain rp = [] then (None, [])
      else case fmlookup (rvChains r) (rpFallbackChain rp) of
             None \<Rightarrow> (None, [])
           | Some fc \<Rightarrow> (Some fc, filter (\<lambda>pid. pid \<noteq> primary) (fcPools fc)))"

definition Resolve_route :: "Resolver \<Rightarrow> string \<Rightarrow> ResolvedRoute option" where
  "Resolve_route r model =
     (case fmlookup (rvByPublicModel r) model of
        None \<Rightarrow> None
      | Some ve \<Rightarrow>
        (case fmlookup (rvProfiles r) (veRouteProfile ve) of
           None \<Rightarrow> None
         | Some rp \<Rightarrow>
           (case fmlookup (rvPools r) (rpCandidatePool rp) of
              None \<Rightarrow> None
            | Some pool \<Rightarrow>
              (let primaryAllowed = fmlookup (rvExpanded r) (cpID pool);
                   (chain, pids) = fallback_pools r rp (cpID pool);
                   allowed = map (\<lambda>pid. fm_get {||} (rvExpanded r) pid) pids
               in Some \<lparr>rrVirtualEndpointID = veID ve, rrVirtualEndpointName = veName ve,
                    rrPublicModel = vePublicModel ve, rrRouteProfileID = rpID rp,
                    rrRouteProfileName = rpName rp, rrPrimaryPoolID = cpID pool,
                    rrPrimaryPoolName = cpName pool, rrPrimaryMode = cpMode pool,
                    rrFallbackChainID = (case chain of None \<Rightarrow> [] | Some fc \<Rightarrow> fcID fc),
                    rrFallbackChainName = (case chain of None \<Rightarrow> [] | Some fc \<Rightarrow> fcName fc),
                    rrOrderedPoolIDs = cpID pool # pids, rrAllowedDeployments = primaryAllowed,
                    rrFallbackAllowed = allowed,
                    rrAllAllowed = foldl (|\<union>|) (case primaryAllowed of None \<Rightarrow> {||} | Some s \<Rightarrow> s) allowed,
                    rrPools = rvPools r\<rparr>))))"

definition ResolveByID :: "Resolver \<Rightarrow> string \<Rightarrow> VirtualEndpointConfig option" where
  "ResolveByID r did = fmlookup (rvByID r) did"

definition ListVirtualEndpoints :: "Resolver \<Rightarrow> VirtualEndpointConfig list" where
  "ListVirtualEndpoints r = rvVirtualEndpoints r"

definition fm_values :: "(string fset \<Rightarrow> string list) \<Rightarrow> (string, 'v) fmap \<Rightarrow> 'v list" where
  "fm_values iter m = List.map_filter (fmlookup m) (iter (fmdom m))"

definition ListRouteProfiles :: "(string fset \<Rightarrow> string list) \<Rightarrow> Resolver \<Rightarrow> RouteProfileConfig list" where
  "ListRouteProfiles iter r = fm_values iter (rvProfiles r)"

definition ListCandidatePools :: "(string fset \<Rightarrow> string list) \<Rightarrow> Resolver \<Rightarrow> CandidatePoolConfig list" where
  "ListCandidatePools iter r = fm_values iter (rvPools r)"

definition ListFallbackChains :: "(string fset \<Rightarrow> string list) \<Rightarrow> Resolver \<Rightarrow> FallbackChainConfig list" where
  "ListFallbackChains iter r = fm_values iter (rvChains r)"

definition GetExpanded :: "Resolver \<Rightarrow> string \<Rightarrow> string fset option" where
  "GetExpanded r pid = fmlookup (rvExpanded r) pid"

section \<open>Filtering the candidates\<close>

definition FilterCandidates :: "Scored list \<Rightarrow> string fset option \<Rightarrow> string \<Rightarrow> Scored list" where
  "FilterCandidates cs allowed mode =
     (case allowed of
        None \<Rightarrow> cs
      | Some s \<Rightarrow> if s = {||} then [] else filter (\<lambda>c. sc_id c |\<in>| s) cs)"

text \<open>The allowed set and mode of the fallback pools, with the code's running index.\<close>

fun fallback_sets ::
    "Resolver \<Rightarrow> string fset list \<Rightarrow> string list \<Rightarrow> (string \<times> string fset option \<times> string) list" where
  "fallback_sets r fa [] = []"
| "fallback_sets r fa (pid # pids) =
     (let mode = (case fmlookup (rvPools r) pid of None \<Rightarrow> ''explicit'' | Some p \<Rightarrow> cpMode p) in
      case fa of
        s # fa' \<Rightarrow> (pid, Some s, mode) # fallback_sets r fa' pids
      | [] \<Rightarrow> (pid, GetExpanded r pid, mode) # fallback_sets r [] pids)"

fun first_pool ::
    "Scored list \<Rightarrow> (string \<times> string fset option \<times> string) list \<Rightarrow> Scored list \<times> string" where
  "first_pool cs [] = ([], [])"
| "first_pool cs ((pid, allowed, mode) # ps) =
     (let f = FilterCandidates cs allowed mode in if f \<noteq> [] then (f, pid) else first_pool cs ps)"

definition ResolveCandidates :: "Resolver \<Rightarrow> Scored list \<Rightarrow> ResolvedRoute \<Rightarrow> Scored list \<times> string" where
  "ResolveCandidates r cs res =
     (let filtered = FilterCandidates cs (rrAllowedDeployments res) (rrPrimaryMode res) in
      if filtered \<noteq> [] then (filtered, rrPrimaryPoolID res)
      else first_pool cs (fallback_sets r (rrFallbackAllowed res) (tl (rrOrderedPoolIDs res))))"

fun append_new :: "string fset \<Rightarrow> Scored list \<Rightarrow> Scored list \<times> string fset" where
  "append_new seen [] = ([], seen)"
| "append_new seen (c # cs) =
     (if sc_id c |\<in>| seen then append_new seen cs
      else (let (out, seen') = append_new (finsert (sc_id c) seen) cs in (c # out, seen')))"

fun append_pools ::
    "Scored list \<Rightarrow> string fset \<Rightarrow> (string \<times> string fset option \<times> string) list \<Rightarrow> Scored list" where
  "append_pools cs seen [] = []"
| "append_pools cs seen ((pid, allowed, mode) # ps) =
     (let (out, seen') = append_new seen (FilterCandidates cs allowed mode)
      in out @ append_pools cs seen' ps)"

definition AllFilteredCandidates :: "Resolver \<Rightarrow> Scored list \<Rightarrow> ResolvedRoute \<Rightarrow> Scored list" where
  "AllFilteredCandidates r cs res =
     append_pools cs {||} (([], rrAllowedDeployments res, rrPrimaryMode res) #
       fallback_sets r (rrFallbackAllowed res) (tl (rrOrderedPoolIDs res)))"

section \<open>Pools of a resolved route\<close>

lemma index_by_lookup_aux:
  "fmlookup (foldl (\<lambda>m x. fmupd (key x) (val x) m) m0 xs) k =
     (case find (\<lambda>x. key x = k) (rev xs) of Some x \<Rightarrow> Some (val x) | None \<Rightarrow> fmlookup m0 k)"
proof (induction xs rule: rev_induct)
  case (snoc x xs)
  then show ?case by (auto split: option.split)
qed simp

lemma index_by_lookup:
  "fmlookup (index_by key val xs) k = map_option val (find (\<lambda>x. key x = k) (rev xs))"
  by (simp add: index_by_def index_by_lookup_aux split: option.split)

lemma index_by_Some:
  assumes "fmlookup (index_by key val xs) k = Some v"
  shows "\<exists>x \<in> set xs. key x = k \<and> v = val x"
  using assms by (auto simp: index_by_lookup find_Some_iff in_set_conv_nth) (metis in_set_conv_nth nth_mem set_rev length_rev)

lemma expanded_of_pool:
  assumes "fmlookup (rvPools (NewResolver cfg all)) k = Some p"
  shows "cpID p = k" and "fmlookup (rvExpanded (NewResolver cfg all)) k = Some (expand_pool all p)"
    and "p \<in> set (CandidatePools cfg)"
  using assms index_by_Some[of cpID "\<lambda>p. p" "CandidatePools cfg" k p]
  by (auto simp: NewResolver_def index_by_lookup)

text \<open>The pools of a route with their allowed sets, in the order they are tried.\<close>

definition route_pools :: "ResolvedRoute \<Rightarrow> (string \<times> string fset) list" where
  "route_pools res = zip (rrOrderedPoolIDs res)
     ((case rrAllowedDeployments res of None \<Rightarrow> {||} | Some s \<Rightarrow> s) # rrFallbackAllowed res)"

lemma Resolve_route_shape:
  assumes "Resolve_route (NewResolver cfg all) model = Some res"
  obtains s pids where "rrAllowedDeployments res = Some s" and "rrOrderedPoolIDs res = rrPrimaryPoolID res # pids"
    and "rrFallbackAllowed res = map (\<lambda>pid. fm_get {||} (rvExpanded (NewResolver cfg all)) pid) pids"
    and "fmlookup (rvExpanded (NewResolver cfg all)) (rrPrimaryPoolID res) = Some s"
proof -
  let ?r = "NewResolver cfg all"
  obtain ve rp pool where p: "fmlookup (rvPools ?r) (rpCandidatePool rp) = Some pool"
    and ve: "fmlookup (rvByPublicModel ?r) model = Some ve"
    and rp: "fmlookup (rvProfiles ?r) (veRouteProfile ve) = Some rp"
    using assms by (auto simp: Resolve_route_def split: option.splits)
  obtain chain pids where f: "fallback_pools ?r rp (rpCandidatePool rp) = (chain, pids)" by fastforce
  from expanded_of_pool[OF p] show thesis
    using assms that[of "expand_pool all pool" pids] ve rp p
    by (auto simp: Resolve_route_def f Let_def)
qed

lemma fallback_sets_zip:
  "length fa = length pids \<Longrightarrow> map (\<lambda>(pid, a, mode). (pid, a)) (fallback_sets r fa pids) = zip pids (map Some fa)"
proof (induction pids arbitrary: fa)
  case (Cons pid pids)
  then show ?case by (cases fa) (simp_all add: Let_def)
qed simp

lemma FilterCandidates_Some: "FilterCandidates cs (Some s) mode = filter (\<lambda>c. sc_id c |\<in>| s) cs"
  by (auto simp: FilterCandidates_def)

text \<open>All pools as the filter loops see them.\<close>

definition tried :: "Resolver \<Rightarrow> ResolvedRoute \<Rightarrow> (string \<times> string fset option \<times> string) list" where
  "tried r res = (rrPrimaryPoolID res, rrAllowedDeployments res, rrPrimaryMode res) #
     fallback_sets r (rrFallbackAllowed res) (tl (rrOrderedPoolIDs res))"

lemma tried_route_pools:
  assumes "Resolve_route (NewResolver cfg all) model = Some res"
  shows "map (\<lambda>(pid, a, mode). (pid, a)) (tried (NewResolver cfg all) res) =
     map (\<lambda>(pid, s). (pid, Some s)) (route_pools res)"
proof -
  obtain s pids where "rrAllowedDeployments res = Some s" "rrOrderedPoolIDs res = rrPrimaryPoolID res # pids"
    "rrFallbackAllowed res = map (\<lambda>pid. fm_get {||} (rvExpanded (NewResolver cfg all)) pid) pids"
    by (rule Resolve_route_shape[OF assms])
  then show ?thesis
    by (simp add: tried_def route_pools_def fallback_sets_zip zip_map2 case_prod_beta comp_def)
qed

lemma ResolveCandidates_first: "ResolveCandidates r cs res = first_pool cs (tried r res)"
  by (simp add: ResolveCandidates_def tried_def Let_def)

lemma tried_list:
  assumes "Resolve_route (NewResolver cfg all) model = Some res"
  shows "list_all2 (\<lambda>(pid, a, mode) (pid', s). pid = pid' \<and> a = Some s)
     (tried (NewResolver cfg all) res) (route_pools res)"
proof -
  have "list_all2 (=) (map (\<lambda>(pid, a, mode). (pid, a)) (tried (NewResolver cfg all) res))
      (map (\<lambda>(pid, s). (pid, Some s)) (route_pools res))"
    unfolding list.rel_eq by (rule tried_route_pools[OF assms])
  then show ?thesis
    unfolding list.rel_map by (rule list_all2_mono) (auto split: prod.splits)
qed

abbreviation pool_filter :: "string fset \<Rightarrow> Scored list \<Rightarrow> Scored list" where
  "pool_filter s cs \<equiv> filter (\<lambda>c. sc_id c |\<in>| s) cs"

lemma first_pool_spec:
  assumes "list_all2 (\<lambda>(pid, a, mode) (pid', s). pid = pid' \<and> a = Some s) ts ps"
  shows "case dropWhile (\<lambda>(pid, s). pool_filter s cs = []) ps of
      [] \<Rightarrow> first_pool cs ts = ([], [])
    | (pid, s) # _ \<Rightarrow> first_pool cs ts = (pool_filter s cs, pid)"
  using assms
proof (induction ts arbitrary: ps)
  case (Cons t ts)
  obtain pid a mode where t: "t = (pid, a, mode)" by (cases t) auto
  with Cons.prems obtain s ps' where ps: "ps = (pid, s) # ps'" "a = Some s"
    and rest: "list_all2 (\<lambda>(pid, a, mode) (pid', s). pid = pid' \<and> a = Some s) ts ps'"
    by (auto simp: list_all2_Cons1)
  have step: "first_pool cs (t # ts) = (if pool_filter s cs = [] then first_pool cs ts else (pool_filter s cs, pid))"
    by (simp add: t ps FilterCandidates_Some Let_def)
  show ?case
  proof (cases "pool_filter s cs = []")
    case True
    then have eq: "first_pool cs (t # ts) = first_pool cs ts"
      "dropWhile (\<lambda>(pid, s). pool_filter s cs = []) ps = dropWhile (\<lambda>(pid, s). pool_filter s cs = []) ps'"
      using step ps(1) by simp_all
    show ?thesis unfolding eq by (rule Cons.IH[OF rest])
  next
    case False
    then have "first_pool cs (t # ts) = (pool_filter s cs, pid)"
      and "dropWhile (\<lambda>(pid, s). pool_filter s cs = []) ps = (pid, s) # ps'"
      using step ps(1) by simp_all
    then show ?thesis by simp
  qed
qed simp

subsection \<open>The route the configuration asks for\<close>

text \<open>
  The same order of pools, written down from the configuration without the resolver's indexes:
  an identifier means the last configured element that has it, a pool holds the deployments it
  lists (or all of them), and a route tries the pool of its profile and then the pools of the
  profile's fallback chain, in the order of the chain and without the primary pool.
\<close>

definition configured :: "('a \<Rightarrow> string) \<Rightarrow> 'a list \<Rightarrow> string \<Rightarrow> 'a option" where
  "configured key xs k = find (\<lambda>x. key x = k) (rev xs)"

definition in_pool :: "Deployment list \<Rightarrow> CandidatePoolConfig \<Rightarrow> Scored \<Rightarrow> bool" where
  "in_pool all cp c \<longleftrightarrow> (\<exists>d \<in> set all. dID d = sc_id c \<and> (ToLower (cpMode cp) = ''all'' \<or>
     (\<exists>entry \<in> set (cpDeployments cp). TrimSpace entry \<noteq> [] \<and> matchesPoolEntry d (TrimSpace entry))))"

definition pool_candidates :: "Config \<Rightarrow> Deployment list \<Rightarrow> Scored list \<Rightarrow> string \<Rightarrow> Scored list" where
  "pool_candidates cfg all cs pid =
     (case configured cpID (CandidatePools cfg) pid of None \<Rightarrow> [] | Some cp \<Rightarrow> filter (in_pool all cp) cs)"

definition route_plan :: "Config \<Rightarrow> RouteProfileConfig \<Rightarrow> string list" where
  "route_plan cfg rp = rpCandidatePool rp #
     (if rpFallbackChain rp = [] then []
      else case configured fcID (FallbackChains cfg) (rpFallbackChain rp) of
             None \<Rightarrow> [] | Some fc \<Rightarrow> filter (\<lambda>pid. pid \<noteq> rpCandidatePool rp) (fcPools fc))"

lemma expand_entries:
  "x |\<in>| foldl (\<lambda>s entry. s |\<union>| entry_matches all entry) s0 es \<longleftrightarrow> x |\<in>| s0 \<or> (\<exists>e \<in> set es. x |\<in>| entry_matches all e)"
  by (induction es arbitrary: s0) auto

lemma in_ids: "x |\<in>| fset_of_list (map f ds) \<longleftrightarrow> (\<exists>d \<in> set ds. f d = x)"
  by (induction ds) auto

lemma in_entry_matches:
  "x |\<in>| entry_matches all e \<longleftrightarrow>
     TrimSpace e \<noteq> [] \<and> (\<exists>d \<in> set all. dID d = x \<and> matchesPoolEntry d (TrimSpace e))"
proof (cases "TrimSpace e = []")
  case False
  then have "entry_matches all e = fset_of_list (map dID (filter (\<lambda>d. matchesPoolEntry d (TrimSpace e)) all))"
    by (simp add: entry_matches_def Let_def)
  then have "x |\<in>| entry_matches all e \<longleftrightarrow> (\<exists>d \<in> set (filter (\<lambda>d. matchesPoolEntry d (TrimSpace e)) all). dID d = x)"
    by (simp only: in_ids)
  with False show ?thesis by auto
qed (simp add: entry_matches_def)

lemma expand_pool_iff: "sc_id c |\<in>| expand_pool all cp \<longleftrightarrow> in_pool all cp c"
proof (cases "ToLower (cpMode cp) = ''all''")
  case True
  then have "expand_pool all cp = fset_of_list (map dID all)" by (simp add: expand_pool_def)
  then have "sc_id c |\<in>| expand_pool all cp \<longleftrightarrow> (\<exists>d \<in> set all. dID d = sc_id c)" by (simp only: in_ids)
  with True show ?thesis by (simp add: in_pool_def)
next
  case False
  then show ?thesis by (auto simp: expand_pool_def in_pool_def expand_entries in_entry_matches)
qed

lemma configured_pool:
  "pool_filter (fm_get {||} (rvExpanded (NewResolver cfg all)) pid) cs = pool_candidates cfg all cs pid"
proof (cases "configured cpID (CandidatePools cfg) pid")
  case None
  then show ?thesis by (simp add: NewResolver_def fm_get_def index_by_lookup pool_candidates_def configured_def)
next
  case (Some cp)
  then have "fm_get {||} (rvExpanded (NewResolver cfg all)) pid = expand_pool all cp"
    by (simp add: NewResolver_def fm_get_def index_by_lookup configured_def)
  then show ?thesis using Some by (simp add: pool_candidates_def expand_pool_iff)
qed

lemma route_pools_plan:
  assumes "configured vePublicModel (VirtualEndpoints cfg) model = Some ve"
    and "configured rpID (RouteProfiles cfg) (veRouteProfile ve) = Some rp"
    and "configured cpID (CandidatePools cfg) (rpCandidatePool rp) = Some cp"
  obtains res where "Resolve_route (NewResolver cfg all) model = Some res"
    and "route_pools res = map (\<lambda>pid. (pid, fm_get {||} (rvExpanded (NewResolver cfg all)) pid)) (route_plan cfg rp)"
proof -
  let ?r = "NewResolver cfg all"
  have ve: "fmlookup (rvByPublicModel ?r) model = Some ve" and rp: "fmlookup (rvProfiles ?r) (veRouteProfile ve) = Some rp"
    and cp: "fmlookup (rvPools ?r) (rpCandidatePool rp) = Some cp"
    and ch: "fmlookup (rvChains ?r) k = configured fcID (FallbackChains cfg) k" for k
    using assms by (simp_all add: NewResolver_def index_by_lookup configured_def map_option.identity)
  note ex = expanded_of_pool[OF cp]
  have plan: "route_plan cfg rp = cpID cp # snd (fallback_pools ?r rp (cpID cp))"
    by (simp add: route_plan_def fallback_pools_def ch ex(1) split: option.split)
  obtain chain pids where f: "fallback_pools ?r rp (cpID cp) = (chain, pids)" by fastforce
  show thesis
    by (rule that) (simp_all add: Resolve_route_def ve rp cp f ex(2)[folded ex(1)] Let_def route_pools_def plan
        fm_get_Some, simp add: zip_map2 zip_same_conv_map comp_def)
qed

lemma first_of_plan:
  assumes "\<And>pid. pool_filter (g pid) cs = f pid"
  shows "(case dropWhile (\<lambda>(pid, s). pool_filter s cs = []) (map (\<lambda>pid. (pid, g pid)) pids) of
      [] \<Rightarrow> y = ([], []) | (pid, s) # _ \<Rightarrow> y = (pool_filter s cs, pid)) \<longleftrightarrow>
    y = (case find (\<lambda>pid. f pid \<noteq> []) pids of None \<Rightarrow> ([], []) | Some pid \<Rightarrow> (f pid, pid))"
  by (induction pids) (simp_all add: assms)

text \<open>C30: A configured public model resolves, and the candidates of its route come from the
first pool that has an eligible candidate, in the order the configuration gives: the pool of
the route profile first, then the pools of its fallback chain in the order they are listed
there.  They are exactly the candidates of the router that are members of that pool, in the
router's order, and the pool is reported.  There is no candidate only if no pool of the
route has one.\<close>

theorem candidates_from_first_serving_pool:
  assumes "configured vePublicModel (VirtualEndpoints cfg) model = Some ve"
    and "configured rpID (RouteProfiles cfg) (veRouteProfile ve) = Some rp"
    and "configured cpID (CandidatePools cfg) (rpCandidatePool rp) = Some cp"
  shows "\<exists>res. Resolve_route (NewResolver cfg all) model = Some res \<and>
    ResolveCandidates (NewResolver cfg all) cs res =
      (case find (\<lambda>pid. pool_candidates cfg all cs pid \<noteq> []) (route_plan cfg rp) of
         None \<Rightarrow> ([], [])
       | Some pid \<Rightarrow> (pool_candidates cfg all cs pid, pid))"
proof -
  obtain res where res: "Resolve_route (NewResolver cfg all) model = Some res"
    and pools: "route_pools res = map (\<lambda>pid. (pid, fm_get {||} (rvExpanded (NewResolver cfg all)) pid)) (route_plan cfg rp)"
    using route_pools_plan[OF assms] by blast
  from first_pool_spec[OF tried_list[OF res], of cs] have "ResolveCandidates (NewResolver cfg all) cs res =
      (case find (\<lambda>pid. pool_candidates cfg all cs pid \<noteq> []) (route_plan cfg rp) of
         None \<Rightarrow> ([], []) | Some pid \<Rightarrow> (pool_candidates cfg all cs pid, pid))"
    unfolding pools ResolveCandidates_first first_of_plan[OF configured_pool] .
  with res show ?thesis by blast
qed

definition demo_route_cfg :: Config where
  "demo_route_cfg = zero_Config\<lparr>
     VirtualEndpoints := [\<lparr>veID = ''v'', veName = [], veEnabled = None, vePublicModel = ''smart'',
       veRouteProfile = ''rp'', veProtocols = []\<rparr>],
     RouteProfiles := [\<lparr>rpID = ''rp'', rpName = [], rpCandidatePool = ''a'', rpFallbackChain = ''f'',
       rpStrategy = [], rpDecisionPolicy = [], rpPrivacy = [], rpCanaryDeploymentID = [],
       rpCanaryPercent = 0, rpTaskIntelMode = [], rpTaskIntelMinConfidence = 0,
       rpTaskPools = fmempty, rpTaskEvalGates = fmempty, rpTaskOverride = []\<rparr>],
     CandidatePools := [\<lparr>cpID = ''a'', cpName = [], cpMode = ''explicit'', cpDeployments = [''none'']\<rparr>,
       \<lparr>cpID = ''b'', cpName = [], cpMode = ''explicit'', cpDeployments = [''y'']\<rparr>],
     FallbackChains := [\<lparr>fcID = ''f'', fcName = [], fcPools = [''a'', ''b'']\<rparr>]\<rparr>"

definition demo_route :: ResolvedRoute where
  "demo_route = the (Resolve_route (NewResolver demo_route_cfg (map scDeployment demo_list)) ''smart'')"

lemma demo_route: "Resolve_route (NewResolver demo_route_cfg (map scDeployment demo_list)) ''smart'' = Some demo_route"
  unfolding demo_route_def by code_simp

theorem candidates_from_first_serving_pool_witness:
  "(let all = map scDeployment demo_list; rp = hd (RouteProfiles demo_route_cfg) in
    route_plan demo_route_cfg rp = [''a'', ''b''] \<and>
    (\<exists>res. Resolve_route (NewResolver demo_route_cfg all) ''smart'' = Some res \<and>
      ResolveCandidates (NewResolver demo_route_cfg all) demo_list res =
        (pool_candidates demo_route_cfg all demo_list ''b'', ''b'')))"
proof -
  let ?all = "map scDeployment demo_list" and ?rp = "hd (RouteProfiles demo_route_cfg)"
  have plan: "route_plan demo_route_cfg ?rp = [''a'', ''b'']"
    and f: "find (\<lambda>pid. pool_candidates demo_route_cfg ?all demo_list pid \<noteq> []) [''a'', ''b''] = Some ''b''"
    by code_simp+
  have "configured vePublicModel (VirtualEndpoints demo_route_cfg) ''smart'' = Some (hd (VirtualEndpoints demo_route_cfg))"
    "configured rpID (RouteProfiles demo_route_cfg) (veRouteProfile (hd (VirtualEndpoints demo_route_cfg))) = Some ?rp"
    "configured cpID (CandidatePools demo_route_cfg) (rpCandidatePool ?rp) = Some (hd (CandidatePools demo_route_cfg))"
    by code_simp+
  from candidates_from_first_serving_pool[OF this, of ?all demo_list] show ?thesis
    unfolding Let_def plan f by simp
qed

section \<open>The failover list\<close>

lemma append_new_seen: "snd (append_new seen cs) = seen |\<union>| fset_of_list (map sc_id cs)"
  by (induction seen cs rule: append_new.induct) (auto simp: split_beta Let_def)

lemma append_new_subset: "set (fst (append_new seen cs)) \<subseteq> set cs"
  by (induction seen cs rule: append_new.induct) (auto simp: split_beta Let_def)

lemma append_new_ids: "sc_id ` set (fst (append_new seen cs)) = sc_id ` set cs - fset seen"
  by (induction seen cs rule: append_new.induct) (auto simp: split_beta Let_def)

lemma append_new_distinct: "distinct (map sc_id (fst (append_new seen cs)))"
  by (induction seen cs rule: append_new.induct) (auto simp: split_beta Let_def append_new_ids)

lemma append_new_fresh:
  "distinct (map sc_id cs) \<Longrightarrow> sc_id ` set cs \<inter> fset seen = {} \<Longrightarrow> fst (append_new seen cs) = cs"
  by (induction seen cs rule: append_new.induct) (auto simp: split_beta Let_def)

lemma append_new_append:
  "append_new seen (xs @ ys) =
     (let (a, s) = append_new seen xs; (b, s') = append_new s ys in (a @ b, s'))"
  by (induction seen xs rule: append_new.induct) (auto simp: split_beta Let_def)

text \<open>Appending pool after pool is one pass over the concatenated filters.\<close>

lemma append_pools_concat:
  assumes "list_all2 (\<lambda>(pid, a, mode) (pid', s). a = Some s) ts ps"
  shows "append_pools cs seen ts = fst (append_new seen (concat (map (\<lambda>(pid, s). pool_filter s cs) ps)))"
  using assms
proof (induction ts arbitrary: ps seen)
  case (Cons t ts)
  obtain pid a mode where t: "t = (pid, a, mode)" by (cases t) auto
  with Cons.prems obtain pid' s ps' where ps: "ps = (pid', s) # ps'" "a = Some s"
    and rest: "list_all2 (\<lambda>(pid, a, mode) (pid', s). a = Some s) ts ps'"
    by (auto simp: list_all2_Cons1)
  show ?case
    using Cons.IH[OF rest] by (simp add: t ps FilterCandidates_Some append_new_append split_beta Let_def)
qed simp

lemma AllFiltered_concat:
  assumes "Resolve_route (NewResolver cfg all) model = Some res"
  shows "AllFilteredCandidates (NewResolver cfg all) cs res =
     fst (append_new {||} (concat (map (\<lambda>(pid, s). pool_filter s cs) (route_pools res))))"
proof -
  let ?r = "NewResolver cfg all"
  let ?t = "([], rrAllowedDeployments res, rrPrimaryMode res) #
     fallback_sets ?r (rrFallbackAllowed res) (tl (rrOrderedPoolIDs res))"
  have "list_all2 (\<lambda>(pid, a, mode) (pid', s). pid = pid' \<and> a = Some s) (tried ?r res) (route_pools res)"
    by (rule tried_list[OF assms])
  then have "list_all2 (\<lambda>(pid, a, mode) (pid', s). a = Some s) ?t (route_pools res)"
    unfolding tried_def list_all2_Cons1 by (auto elim!: list_all2_mono split: prod.splits)
  then show ?thesis unfolding AllFilteredCandidates_def by (rule append_pools_concat)
qed

lemma first_is_prefix:
  assumes "distinct (map sc_id cs)"
    and "f = (case dropWhile (\<lambda>(pid, s). pool_filter s cs = []) ps of [] \<Rightarrow> [] | (pid, s) # _ \<Rightarrow> pool_filter s cs)"
  shows "take (length f) (fst (append_new {||} (concat (map (\<lambda>(pid, s). pool_filter s cs) ps)))) = f"
  using assms(2)
proof (induction ps)
  case (Cons p ps)
  obtain pid s where p: "p = (pid, s)" by fastforce
  show ?case
  proof (cases "pool_filter s cs = []")
    case True
    with Cons show ?thesis by (simp add: p)
  next
    case False
    have "distinct (map sc_id (pool_filter s cs))" using assms(1) by (rule distinct_map_filter)
    then have "fst (append_new {||} (pool_filter s cs)) = pool_filter s cs" by (rule append_new_fresh) simp
    with False Cons.prems show ?thesis by (simp add: p append_new_append split_beta Let_def)
  qed
qed simp

lemma route_pool_expanded:
  assumes "Resolve_route (NewResolver cfg all) model = Some res" and "(pid, s) \<in> set (route_pools res)"
    and "x |\<in>| s"
  shows "\<exists>cp \<in> set (CandidatePools cfg). cpID cp = pid \<and> x |\<in>| expand_pool all cp"
proof -
  let ?E = "rvExpanded (NewResolver cfg all)"
  obtain s0 pids where r: "rrAllowedDeployments res = Some s0" "rrOrderedPoolIDs res = rrPrimaryPoolID res # pids"
    "rrFallbackAllowed res = map (\<lambda>pid. fm_get {||} ?E pid) pids"
    "fmlookup ?E (rrPrimaryPoolID res) = Some s0"
    by (rule Resolve_route_shape[OF assms(1)])
  have "fm_get {||} ?E pid = s"
    using assms(2) r by (auto simp: route_pools_def in_set_zip fm_get_Some)
  then have "fmlookup ?E pid = Some s"
    using assms(3) by (cases "fmlookup ?E pid") (auto simp: fm_get_def)
  then show ?thesis
    using index_by_Some[of cpID "expand_pool all" "CandidatePools cfg" pid s] assms(3)
    by (auto simp: NewResolver_def)
qed

text \<open>The failover list of a resolved route never escapes the route: every candidate in
it is one of the router's candidates and a member of a configured pool of the route,
nothing is listed twice, no candidate of any pool of the route is lost, and the list
begins with the candidates of the first serving pool.\<close>

theorem failover_list_stays_in_route:
  assumes "Resolve_route (NewResolver cfg all) model = Some res"
    and "out = AllFilteredCandidates (NewResolver cfg all) cs res"
  shows "distinct (map sc_id out) \<and>
    (\<forall>c \<in> set out. c \<in> set cs \<and> (\<exists>cp \<in> set (CandidatePools cfg).
       cpID cp \<in> set (rrOrderedPoolIDs res) \<and> sc_id c |\<in>| expand_pool all cp)) \<and>
    (\<forall>c \<in> set cs. \<forall>(pid, s) \<in> set (route_pools res). sc_id c |\<in>| s \<longrightarrow> sc_id c \<in> sc_id ` set out) \<and>
    (distinct (map sc_id cs) \<longrightarrow>
       take (length (fst (ResolveCandidates (NewResolver cfg all) cs res))) out =
       fst (ResolveCandidates (NewResolver cfg all) cs res))"
proof (intro conjI impI)
  let ?all = "concat (map (\<lambda>(pid, s). pool_filter s cs) (route_pools res))"
  have out: "out = fst (append_new {||} ?all)" using AllFiltered_concat[OF assms(1)] assms(2) by simp
  show "distinct (map sc_id out)" unfolding out by (rule append_new_distinct)
  have ids: "sc_id ` set out = sc_id ` set ?all" unfolding out append_new_ids by simp
  show "\<forall>c \<in> set cs. \<forall>(pid, s) \<in> set (route_pools res). sc_id c |\<in>| s \<longrightarrow> sc_id c \<in> sc_id ` set out"
    unfolding ids by fastforce
  show "\<forall>c \<in> set out. c \<in> set cs \<and> (\<exists>cp \<in> set (CandidatePools cfg).
       cpID cp \<in> set (rrOrderedPoolIDs res) \<and> sc_id c |\<in>| expand_pool all cp)"
  proof
    fix c assume "c \<in> set out"
    then have "c \<in> set ?all" unfolding out using append_new_subset by blast
    then obtain pid s where ps: "(pid, s) \<in> set (route_pools res)" "c \<in> set cs" "sc_id c |\<in>| s" by auto
    then have "pid \<in> set (rrOrderedPoolIDs res)" by (auto simp: route_pools_def dest: set_zip_leftD)
    with route_pool_expanded[OF assms(1) ps(1,3)] ps(2)
    show "c \<in> set cs \<and> (\<exists>cp \<in> set (CandidatePools cfg).
       cpID cp \<in> set (rrOrderedPoolIDs res) \<and> sc_id c |\<in>| expand_pool all cp)" by blast
  qed
  assume d: "distinct (map sc_id cs)"
  have "fst (ResolveCandidates (NewResolver cfg all) cs res) =
     (case dropWhile (\<lambda>(pid, s). pool_filter s cs = []) (route_pools res) of
        [] \<Rightarrow> [] | (pid, s) # _ \<Rightarrow> pool_filter s cs)"
    using first_pool_spec[OF tried_list[OF assms(1)], of cs]
    unfolding ResolveCandidates_first
    by (cases "dropWhile (\<lambda>(pid, s). pool_filter s cs = []) (route_pools res)") (auto simp del: dropWhile_eq_Nil_conv)
  from first_is_prefix[OF d this] show "take (length (fst (ResolveCandidates (NewResolver cfg all) cs res))) out =
       fst (ResolveCandidates (NewResolver cfg all) cs res)" unfolding out .
qed

theorem failover_list_stays_in_route_witness:
  "distinct (map sc_id (AllFilteredCandidates (NewResolver demo_route_cfg (map scDeployment demo_list))
     demo_list demo_route)) \<and>
   map sc_id (AllFilteredCandidates (NewResolver demo_route_cfg (map scDeployment demo_list))
     demo_list demo_route) = [''p/y'']"
  by (rule conjI[OF conjunct1[OF failover_list_stays_in_route[OF demo_route refl]]]) code_simp

end
