(* ===== verification/Budget.thy ===== *)
theory Budget
  imports Prelude
begin

text \<open>
  The reservation ledger (\<^verbatim>\<open>src/internal/budget/ledger.go\<close>): integer budgets per key,
  reservations that hold part of a budget until they are settled or released, and
  threshold alerts.  Amounts are int64; every addition and subtraction is wrapped by
  \<^const>\<open>i64\<close> exactly where the code can overflow, and the invariant shows that it never
  does.
\<close>

datatype ledger_error = ErrBudgetExceeded | ErrReservationNotFound | ErrReservationClosed
  | ErrInvalidLimit

record Limit =
  limKey :: string
  limAmount :: int

record Reservation =
  resID :: string
  resKey :: string
  resReserved :: int
  resSettled :: int
  resClosed :: bool

record Alert =
  alKey :: string
  alThreshold :: int
  alUsed :: int
  alLimit :: int

record Ledger =
  lgLimits :: "(string, Limit) fmap"
  lgUsed :: "(string, int) fmap"
  lgReserved :: "(string, int) fmap"
  lgReservations :: "(string, Reservation) fmap"
  lgAlerted :: "(string, int fset) fmap"

definition empty_ledger :: Ledger where
  "empty_ledger = \<lparr>lgLimits = fmempty, lgUsed = fmempty, lgReserved = fmempty,
     lgReservations = fmempty, lgAlerted = fmempty\<rparr>"

fun add_limits :: "Limit list \<Rightarrow> Ledger \<Rightarrow> ledger_error + Ledger" where
  "add_limits [] l = Inr l"
| "add_limits (x # xs) l =
     (if limKey x = [] \<or> limAmount x < 0 then Inl ErrInvalidLimit
      else add_limits xs (l\<lparr>lgLimits := fmupd (limKey x) x (lgLimits l)\<rparr>))"

definition NewLedger :: "Limit list \<Rightarrow> ledger_error + Ledger" where
  "NewLedger limits = add_limits limits empty_ledger"

section \<open>Arithmetic\<close>

definition remainingBudget :: "int \<Rightarrow> int \<Rightarrow> int \<Rightarrow> int" where
  "remainingBudget limit used reserved =
     (if limit < used then - 1
      else if i64 (limit - used) < reserved then - 1
      else i64 (i64 (limit - used) - reserved))"

definition saturatingAdd :: "int \<Rightarrow> int \<Rightarrow> int" where
  "saturatingAdd a b = (if 0 < b \<and> i64 (MaxInt64 - b) < a then MaxInt64 else i64 (a + b))"

definition thresholdReached :: "int \<Rightarrow> int \<Rightarrow> int \<Rightarrow> bool" where
  "thresholdReached used limit threshold =
     (let q = quot limit 100; r = remt limit 100;
          need = i64 (i64 (q * threshold) + quot (i64 (r * threshold)) 100);
          need' = (if remt (i64 (r * threshold)) 100 \<noteq> 0 then i64 (need + 1) else need)
      in need' \<le> used)"

section \<open>Operations\<close>

definition Reserve :: "string \<Rightarrow> string \<Rightarrow> int \<Rightarrow> Ledger \<Rightarrow> (ledger_error + Reservation) \<times> Ledger" where
  "Reserve did key amount l =
     (if did = [] \<or> key = [] \<or> amount \<le> 0 then (Inl ErrBudgetExceeded, l)
      else if fm_has (lgReservations l) did then (Inl ErrReservationClosed, l)
      else case fmlookup (lgLimits l) key of
             None \<Rightarrow> (Inl ErrBudgetExceeded, l)
           | Some limit \<Rightarrow>
               if remainingBudget (limAmount limit) (fm_get 0 (lgUsed l) key) (fm_get 0 (lgReserved l) key) < amount
               then (Inl ErrBudgetExceeded, l)
               else (let r = \<lparr>resID = did, resKey = key, resReserved = amount, resSettled = 0, resClosed = False\<rparr>
                     in (Inr r, l\<lparr>lgReservations := fmupd did r (lgReservations l),
                          lgReserved := fmupd key (i64 (fm_get 0 (lgReserved l) key + amount)) (lgReserved l)\<rparr>)))"

fun alert_loop :: "string \<Rightarrow> int \<Rightarrow> int \<Rightarrow> int list \<Rightarrow> Ledger \<Rightarrow> Alert list \<times> Ledger" where
  "alert_loop key used limit [] l = ([], l)"
| "alert_loop key used limit (th # ths) l =
     (if thresholdReached used limit th \<and> th |\<notin>| fm_get {||} (lgAlerted l) key
      then (let l' = l\<lparr>lgAlerted := fmupd key (finsert th (fm_get {||} (lgAlerted l) key)) (lgAlerted l)\<rparr>;
                (out, l'') = alert_loop key used limit ths l'
            in (\<lparr>alKey = key, alThreshold = th, alUsed = used, alLimit = limit\<rparr> # out, l''))
      else alert_loop key used limit ths l)"

definition alertsLocked :: "string \<Rightarrow> Ledger \<Rightarrow> Alert list \<times> Ledger" where
  "alertsLocked key l =
     (let limit = (case fmlookup (lgLimits l) key of None \<Rightarrow> 0 | Some x \<Rightarrow> limAmount x) in
      if limit \<le> 0 then ([], l)
      else (let (out, l') = alert_loop key (fm_get 0 (lgUsed l) key) limit [50, 80, 95, 100] l
            in (SliceStable (\<lambda>a b. alThreshold a < alThreshold b) out, l')))"

definition Settle :: "string \<Rightarrow> int \<Rightarrow> Ledger \<Rightarrow> (ledger_error + Alert list) \<times> Ledger" where
  "Settle did actual0 l =
     (let actual = (if actual0 < 0 then 0 else actual0) in
      case fmlookup (lgReservations l) did of
        None \<Rightarrow> (Inl ErrReservationNotFound, l)
      | Some r \<Rightarrow>
          if resClosed r then (Inl ErrReservationClosed, l)
          else (let key = resKey r;
                    l1 = l\<lparr>lgReserved := fmupd key (i64 (fm_get 0 (lgReserved l) key - resReserved r)) (lgReserved l),
                           lgUsed := fmupd key (saturatingAdd (fm_get 0 (lgUsed l) key) actual) (lgUsed l),
                           lgReservations := fmupd did (r\<lparr>resSettled := actual, resClosed := True\<rparr>) (lgReservations l)\<rparr>;
                    (out, l2) = alertsLocked key l1
                in (Inr out, l2)))"

definition Release :: "string \<Rightarrow> Ledger \<Rightarrow> (ledger_error + unit) \<times> Ledger" where
  "Release did l =
     (case fmlookup (lgReservations l) did of
        None \<Rightarrow> (Inl ErrReservationNotFound, l)
      | Some r \<Rightarrow>
          if resClosed r then (Inl ErrReservationClosed, l)
          else (Inr (), l\<lparr>lgReserved := fmupd (resKey r) (i64 (fm_get 0 (lgReserved l) (resKey r) - resReserved r))
                   (lgReserved l),
                 lgReservations := fmupd did (r\<lparr>resClosed := True\<rparr>) (lgReservations l)\<rparr>))"

definition Usage :: "string \<Rightarrow> Ledger \<Rightarrow> int \<times> int \<times> bool" where
  "Usage key l = (fm_get 0 (lgUsed l) key, fm_get 0 (lgReserved l) key, fm_has (lgLimits l) key)"

section \<open>The arithmetic never wraps\<close>

lemma remainingBudget_exact:
  assumes "0 \<le> used" and "0 \<le> reserved" and "0 \<le> limit" and "limit \<le> MaxInt64"
  shows "remainingBudget limit used reserved =
     (if used + reserved \<le> limit then limit - used - reserved else - 1)"
proof (cases "used \<le> limit")
  case True
  then have u: "i64 (limit - used) = limit - used" using assms by (intro i64_id) auto
  show ?thesis
  proof (cases "reserved \<le> limit - used")
    case True
    then have "i64 (limit - used - reserved) = limit - used - reserved" using assms by (intro i64_id) auto
    with u True \<open>used \<le> limit\<close> show ?thesis by (simp add: remainingBudget_def)
  qed (use u True in \<open>simp add: remainingBudget_def\<close>)
qed (use assms in \<open>simp add: remainingBudget_def\<close>)

lemma saturatingAdd_exact:
  assumes "0 \<le> a" and "a \<le> MaxInt64" and "0 \<le> b" and "b \<le> MaxInt64"
  shows "saturatingAdd a b = min MaxInt64 (a + b)"
proof -
  have s: "i64 (MaxInt64 - b) = MaxInt64 - b" using assms by (intro i64_id) auto
  show ?thesis
  proof (cases "a + b \<le> MaxInt64")
    case True
    then have "i64 (a + b) = a + b" using assms by (intro i64_id) auto
    with True s show ?thesis by (simp add: saturatingAdd_def)
  next
    case False
    with assms s show ?thesis by (simp add: saturatingAdd_def)
  qed
qed

text \<open>The ceiling of a hundredth, as the code computes it.\<close>

lemma ceil_hundredth:
  fixes x y :: int
  shows "(if x mod 100 \<noteq> 0 then x div 100 + 1 else x div 100) \<le> y \<longleftrightarrow> x \<le> y * 100"
proof -
  define q where "q = x div 100"
  define r where "r = x mod 100"
  have x: "x = 100 * q + r" "0 \<le> r" "r < 100" by (simp_all add: q_def r_def)
  show ?thesis unfolding q_def[symmetric] r_def[symmetric] using x by auto
qed

lemma threshold_exact:
  assumes "0 \<le> limit" and "limit \<le> MaxInt64" and "0 \<le> th" and "th \<le> 100"
  shows "thresholdReached used limit th \<longleftrightarrow> limit * th \<le> used * 100"
proof -
  define q where "q = limit div 100"
  define r where "r = limit mod 100"
  have qr: "limit = 100 * q + r" "0 \<le> q" "0 \<le> r" "r < 100" using assms(1) by (simp_all add: q_def r_def)
  define d where "d = r * th div 100"
  define m where "m = r * th mod 100"
  have rt: "0 \<le> r * th" "r * th \<le> r * 100" using qr assms mult_left_mono[of th 100 r] by auto
  have qt: "0 \<le> q * th" "q * th \<le> q * 100" using qr assms mult_left_mono[of th 100 q] by auto
  have dm: "r * th = 100 * d + m" "0 \<le> m" "m < 100" by (simp_all add: d_def m_def)
  then have d: "0 \<le> d" "d \<le> r" "m \<noteq> 0 \<Longrightarrow> d + 1 \<le> r" using rt by auto
  have ids: "i64 (q * th) = q * th" "i64 (r * th) = r * th" "i64 (q * th + d) = q * th + d"
    "m \<noteq> 0 \<Longrightarrow> i64 (q * th + d + 1) = q * th + d + 1"
    using qt rt d qr assms(2) by (auto intro!: i64_id)
  have "thresholdReached used limit th \<longleftrightarrow> (if m \<noteq> 0 then d + 1 else d) \<le> used - q * th"
    using assms(1) rt ids
    by (auto simp: thresholdReached_def quot_nonneg remt_nonneg Let_def simp flip: q_def r_def d_def m_def)
  also have "\<dots> \<longleftrightarrow> r * th \<le> (used - q * th) * 100" unfolding d_def m_def by (rule ceil_hundredth)
  also have "\<dots> \<longleftrightarrow> limit * th \<le> used * 100" by (simp add: qr(1) algebra_simps)
  finally show ?thesis .
qed

section \<open>The ledger invariant\<close>

definition hold :: "string \<Rightarrow> Reservation \<Rightarrow> int" where
  "hold k r = (if resKey r = k \<and> \<not> resClosed r then resReserved r else 0)"

text \<open>What the open reservations of a key hold.\<close>

definition open_sum :: "string \<Rightarrow> (string, Reservation) fmap \<Rightarrow> int" where
  "open_sum k rs = (\<Sum>i \<in> fset (fmdom rs). hold k (the (fmlookup rs i)))"

lemma open_sum_upd:
  "open_sum k (fmupd i r rs) =
     open_sum k rs - (case fmlookup rs i of None \<Rightarrow> 0 | Some r0 \<Rightarrow> hold k r0) + hold k r"
proof (cases "fmlookup rs i")
  case None
  then have "i \<notin> fset (fmdom rs)" by (simp add: fmdom_notI)
  moreover have "(\<Sum>j \<in> fset (fmdom rs). hold k (the (fmlookup (fmupd i r rs) j))) = open_sum k rs"
    unfolding open_sum_def by (rule sum.cong) (use calculation in auto)
  ultimately show ?thesis using None by (simp add: open_sum_def)
next
  case (Some r0)
  then have i: "i \<in> fset (fmdom rs)" by (simp add: fmdomI)
  have "(\<Sum>j \<in> fset (fmdom rs) - {i}. hold k (the (fmlookup (fmupd i r rs) j))) =
      (\<Sum>j \<in> fset (fmdom rs) - {i}. hold k (the (fmlookup rs j)))"
    by (rule sum.cong) auto
  moreover have "insert i (fset (fmdom rs)) = fset (fmdom rs)" using i by auto
  ultimately show ?thesis
    using Some i sum.remove[of "fset (fmdom rs)" i "\<lambda>j. hold k (the (fmlookup rs j))"]
      sum.remove[of "fset (fmdom rs)" i "\<lambda>j. hold k (the (fmlookup (fmupd i r rs) j))"]
    by (simp add: open_sum_def)
qed

definition limit_of :: "Ledger \<Rightarrow> string \<Rightarrow> int" where
  "limit_of l k = (case fmlookup (lgLimits l) k of None \<Rightarrow> 0 | Some x \<Rightarrow> limAmount x)"

definition ledger_inv :: "Ledger \<Rightarrow> bool" where
  "ledger_inv l \<longleftrightarrow>
     (\<forall>k. 0 \<le> limit_of l k \<and> limit_of l k \<le> MaxInt64) \<and>
     (\<forall>k. 0 \<le> fm_get 0 (lgUsed l) k \<and> fm_get 0 (lgUsed l) k \<le> MaxInt64) \<and>
     (\<forall>k. fm_get 0 (lgReserved l) k = open_sum k (lgReservations l)) \<and>
     (\<forall>k. open_sum k (lgReservations l) \<le> limit_of l k) \<and>
     (\<forall>i r. fmlookup (lgReservations l) i = Some r \<longrightarrow> 0 < resReserved r)"

lemma open_sum_nonneg:
  assumes "\<forall>i r. fmlookup rs i = Some r \<longrightarrow> 0 < resReserved r"
  shows "0 \<le> open_sum k rs"
  unfolding open_sum_def
proof (rule sum_nonneg)
  fix i assume "i \<in> fset (fmdom rs)"
  then obtain r where "fmlookup rs i = Some r" by (auto elim: fmdomE)
  with assms show "0 \<le> hold k (the (fmlookup rs i))" by (auto simp: hold_def less_imp_le)
qed

lemma open_sum_member:
  assumes "\<forall>i r. fmlookup rs i = Some r \<longrightarrow> 0 < resReserved r" and "fmlookup rs i = Some r" and "\<not> resClosed r"
  shows "resReserved r \<le> open_sum (resKey r) rs"
proof -
  have "0 \<le> open_sum (resKey r) (fmupd i (r\<lparr>resClosed := True\<rparr>) rs)"
    by (rule open_sum_nonneg) (use assms(1,2) in auto)
  then show ?thesis using assms(2,3) by (simp add: open_sum_upd hold_def)
qed

lemma ledger_invD:
  assumes "ledger_inv l"
  shows "0 \<le> limit_of l k" "limit_of l k \<le> MaxInt64"
    and "0 \<le> fm_get 0 (lgUsed l) k" "fm_get 0 (lgUsed l) k \<le> MaxInt64"
    and "fm_get 0 (lgReserved l) k = open_sum k (lgReservations l)"
    and "0 \<le> fm_get 0 (lgReserved l) k" "fm_get 0 (lgReserved l) k \<le> limit_of l k"
    and "fmlookup (lgReservations l) i = Some r \<Longrightarrow> 0 < resReserved r"
  using assms open_sum_nonneg[of "lgReservations l" k] by (simp_all add: ledger_inv_def)

text \<open>A reservation is granted exactly when the unbounded sum fits.\<close>

lemma Reserve_exact:
  assumes "ledger_inv l" and "0 < amount" and "did \<noteq> []" and "key \<noteq> []"
    and "\<not> fm_has (lgReservations l) did" and "fm_has (lgLimits l) key"
  shows "Reserve did key amount l =
     (if fm_get 0 (lgUsed l) key + fm_get 0 (lgReserved l) key + amount \<le> limit_of l key
      then (let r = \<lparr>resID = did, resKey = key, resReserved = amount, resSettled = 0, resClosed = False\<rparr>
            in (Inr r, l\<lparr>lgReservations := fmupd did r (lgReservations l),
                 lgReserved := fmupd key (fm_get 0 (lgReserved l) key + amount) (lgReserved l)\<rparr>))
      else (Inl ErrBudgetExceeded, l))"
proof -
  obtain lim where lim: "fmlookup (lgLimits l) key = Some lim" "limAmount lim = limit_of l key"
    using assms(6) by (auto simp: fm_has_def limit_of_def)
  note inv = ledger_invD(1-7)[OF assms(1), where k = key]
  have rem: "remainingBudget (limit_of l key) (fm_get 0 (lgUsed l) key) (fm_get 0 (lgReserved l) key) =
      (if fm_get 0 (lgUsed l) key + fm_get 0 (lgReserved l) key \<le> limit_of l key
       then limit_of l key - fm_get 0 (lgUsed l) key - fm_get 0 (lgReserved l) key else - 1)"
    by (rule remainingBudget_exact) (use inv in auto)
  have add: "i64 (fm_get 0 (lgReserved l) key + amount) = fm_get 0 (lgReserved l) key + amount"
    if "fm_get 0 (lgUsed l) key + fm_get 0 (lgReserved l) key + amount \<le> limit_of l key"
    using that inv assms(2) by (intro i64_id) auto
  show ?thesis using assms(2-5) lim rem add by (auto simp: Reserve_def fm_has_def Let_def)
qed

lemma Reserve_inv:
  assumes "ledger_inv l"
  shows "ledger_inv (snd (Reserve did key amount l))"
proof (cases "0 < amount \<and> did \<noteq> [] \<and> key \<noteq> [] \<and> \<not> fm_has (lgReservations l) did \<and> fm_has (lgLimits l) key \<and>
    fm_get 0 (lgUsed l) key + fm_get 0 (lgReserved l) key + amount \<le> limit_of l key")
  case True
  note inv = ledger_invD[OF assms]
  have "fmlookup (lgReservations l) did = None" using True by (simp add: fm_has_def)
  then have sums: "open_sum k (fmupd did \<lparr>resID = did, resKey = key, resReserved = amount, resSettled = 0,
      resClosed = False\<rparr> (lgReservations l)) = open_sum k (lgReservations l) + (if k = key then amount else 0)" for k
    by (simp add: open_sum_upd hold_def)
  have "open_sum key (lgReservations l) + amount \<le> limit_of l key"
    using True inv(3,5)[of key] by simp
  moreover have "snd (Reserve did key amount l) =
     l\<lparr>lgReservations := fmupd did \<lparr>resID = did, resKey = key, resReserved = amount, resSettled = 0,
         resClosed = False\<rparr> (lgReservations l),
       lgReserved := fmupd key (fm_get 0 (lgReserved l) key + amount) (lgReserved l)\<rparr>"
    using Reserve_exact[OF assms, of amount did key] True by (simp add: Let_def)
  ultimately show ?thesis
    using assms True by (auto simp: ledger_inv_def sums limit_of_def)
next
  case False
  then show ?thesis
    using assms Reserve_exact[OF assms, of amount did key]
    by (cases "0 < amount \<and> did \<noteq> [] \<and> key \<noteq> [] \<and> \<not> fm_has (lgReservations l) did \<and> fm_has (lgLimits l) key")
      (auto simp: Reserve_def fm_has_def split: option.splits)
qed

text \<open>Closing a reservation gives back exactly what it held.\<close>

lemma close_exact:
  assumes "ledger_inv l" and "fmlookup (lgReservations l) did = Some r" and "\<not> resClosed r"
  shows "i64 (fm_get 0 (lgReserved l) (resKey r) - resReserved r) = fm_get 0 (lgReserved l) (resKey r) - resReserved r"
    and "0 \<le> fm_get 0 (lgReserved l) (resKey r) - resReserved r"
proof -
  note inv = ledger_invD[OF assms(1)]
  have "resReserved r \<le> open_sum (resKey r) (lgReservations l)"
    by (rule open_sum_member[OF _ assms(2,3)]) (use inv(8) in blast)
  then show nn: "0 \<le> fm_get 0 (lgReserved l) (resKey r) - resReserved r" using inv(5)[of "resKey r"] by simp
  show "i64 (fm_get 0 (lgReserved l) (resKey r) - resReserved r) = fm_get 0 (lgReserved l) (resKey r) - resReserved r"
    by (rule i64_id) (use nn inv(7)[of "resKey r"] inv(2)[of "resKey r"] inv(8)[OF assms(2)] in auto)
qed

lemma close_inv:
  assumes "ledger_inv l" and "fmlookup (lgReservations l) did = Some r" and "\<not> resClosed r"
    and "resKey r' = resKey r" and "resReserved r' = resReserved r" and "resClosed r'"
    and "0 \<le> u" and "u \<le> MaxInt64"
  shows "ledger_inv (l\<lparr>lgReserved := fmupd (resKey r) (i64 (fm_get 0 (lgReserved l) (resKey r) - resReserved r)) (lgReserved l),
     lgUsed := fmupd (resKey r) u (lgUsed l), lgReservations := fmupd did r' (lgReservations l)\<rparr>)"
proof -
  have sums: "open_sum k (fmupd did r' (lgReservations l)) =
      open_sum k (lgReservations l) - (if k = resKey r then resReserved r else 0)" for k
    using assms(2-6) by (simp add: open_sum_upd hold_def)
  have "0 < resReserved r" using ledger_invD(8)[OF assms(1,2)] .
  then show ?thesis
    using assms close_exact[OF assms(1-3)] ledger_invD(5)[OF assms(1), of "resKey r"]
    by (auto simp: ledger_inv_def sums limit_of_def) (smt (verit, ccfv_SIG))
qed

lemma alert_loop_frame:
  "lgLimits (snd (alert_loop key used limit ths l)) = lgLimits l"
  "lgUsed (snd (alert_loop key used limit ths l)) = lgUsed l"
  "lgReserved (snd (alert_loop key used limit ths l)) = lgReserved l"
  "lgReservations (snd (alert_loop key used limit ths l)) = lgReservations l"
  by (induction key used limit ths l rule: alert_loop.induct) (simp_all add: Let_def split_beta)

lemma alertsLocked_frame:
  "lgLimits (snd (alertsLocked key l)) = lgLimits l" "lgUsed (snd (alertsLocked key l)) = lgUsed l"
  "lgReserved (snd (alertsLocked key l)) = lgReserved l"
  "lgReservations (snd (alertsLocked key l)) = lgReservations l"
  by (simp_all add: alertsLocked_def Let_def split_beta alert_loop_frame del: alert_loop.simps)

lemma ledger_inv_frame:
  "lgLimits l' = lgLimits l \<Longrightarrow> lgUsed l' = lgUsed l \<Longrightarrow> lgReserved l' = lgReserved l \<Longrightarrow>
   lgReservations l' = lgReservations l \<Longrightarrow> ledger_inv l' = ledger_inv l"
  by (simp add: ledger_inv_def limit_of_def)

lemma Settle_inv:
  assumes "ledger_inv l" and "actual \<le> MaxInt64"
  shows "ledger_inv (snd (Settle did actual l))"
proof (cases "\<exists>r. fmlookup (lgReservations l) did = Some r \<and> \<not> resClosed r")
  case True
  then obtain r where r: "fmlookup (lgReservations l) did = Some r" "\<not> resClosed r" by blast
  define a where "a = (if actual < 0 then 0 else actual)"
  note used = ledger_invD(3,4)[OF assms(1), of "resKey r"]
  have a: "0 \<le> a" "a \<le> MaxInt64" using assms(2) by (auto simp: a_def)
  have sat: "0 \<le> saturatingAdd (fm_get 0 (lgUsed l) (resKey r)) a"
    "saturatingAdd (fm_get 0 (lgUsed l) (resKey r)) a \<le> MaxInt64"
    using saturatingAdd_exact[OF used a] used a by auto
  have "ledger_inv (l\<lparr>lgReserved := fmupd (resKey r) (i64 (fm_get 0 (lgReserved l) (resKey r) - resReserved r)) (lgReserved l),
     lgUsed := fmupd (resKey r) (saturatingAdd (fm_get 0 (lgUsed l) (resKey r)) a) (lgUsed l),
     lgReservations := fmupd did (r\<lparr>resSettled := a, resClosed := True\<rparr>) (lgReservations l)\<rparr>)"
    by (rule close_inv[OF assms(1) r _ _ _ sat]) simp_all
  then show ?thesis
    using r by (simp add: Settle_def Let_def split_beta a_def
        ledger_inv_frame[OF alertsLocked_frame])
qed (use assms in \<open>auto simp: Settle_def Let_def split: option.splits\<close>)

lemma Release_inv:
  assumes "ledger_inv l"
  shows "ledger_inv (snd (Release did l))"
proof (cases "\<exists>r. fmlookup (lgReservations l) did = Some r \<and> \<not> resClosed r")
  case True
  then obtain r where r: "fmlookup (lgReservations l) did = Some r" "\<not> resClosed r" by blast
  have "ledger_inv (l\<lparr>lgReserved := fmupd (resKey r) (i64 (fm_get 0 (lgReserved l) (resKey r) - resReserved r)) (lgReserved l),
     lgUsed := fmupd (resKey r) (fm_get 0 (lgUsed l) (resKey r)) (lgUsed l),
     lgReservations := fmupd did (r\<lparr>resClosed := True\<rparr>) (lgReservations l)\<rparr>)"
    by (rule close_inv[OF assms r]) (use ledger_invD(3,4)[OF assms, of "resKey r"] in auto)
  then show ?thesis using r ledger_invD(3,4)[OF assms] by (simp add: Release_def ledger_inv_def limit_of_def)
qed (use assms in \<open>auto simp: Release_def split: option.splits\<close>)

section \<open>Alerts\<close>

definition alerted_set :: "Ledger \<Rightarrow> string \<Rightarrow> int set" where
  "alerted_set l k = fset (fm_get {||} (lgAlerted l) k)"

definition mark :: "string \<Rightarrow> int \<Rightarrow> Ledger \<Rightarrow> Ledger" where
  "mark key th l = l\<lparr>lgAlerted := fmupd key (finsert th (fm_get {||} (lgAlerted l) key)) (lgAlerted l)\<rparr>"

lemma alerted_set_mark [simp]:
  "alerted_set (mark key th l) k = (if k = key then insert th (alerted_set l key) else alerted_set l k)"
  by (simp add: alerted_set_def mark_def)

lemma alert_loop_Cons:
  "alert_loop key used limit (th # ths) l =
     (if thresholdReached used limit th \<and> th \<notin> alerted_set l key
      then (\<lparr>alKey = key, alThreshold = th, alUsed = used, alLimit = limit\<rparr> #
              fst (alert_loop key used limit ths (mark key th l)),
            snd (alert_loop key used limit ths (mark key th l)))
      else alert_loop key used limit ths l)"
  by (simp add: alerted_set_def mark_def Let_def split_beta)

lemma alert_loop_alerted:
  "alerted_set (snd (alert_loop key used limit ths l)) k =
     alerted_set l k \<union> (if k = key then {th \<in> set ths. thresholdReached used limit th} else {})"
  by (induction ths arbitrary: l) (auto simp: alert_loop_Cons simp del: alert_loop.simps(2))

abbreviation alert_ids :: "Alert list \<Rightarrow> (string \<times> int) list" where
  "alert_ids \<equiv> map (\<lambda>a. (alKey a, alThreshold a))"

lemma alert_loop_emits:
  "distinct ths \<Longrightarrow> set (alert_ids (fst (alert_loop key used limit ths l))) =
     {(key, th) |th. th \<in> set ths \<and> thresholdReached used limit th \<and> th \<notin> alerted_set l key}"
proof (induction ths arbitrary: l)
  case (Cons th ths)
  then show ?case
    using Cons.IH[of l] Cons.IH[of "mark key th l"]
    by (auto simp: alert_loop_Cons simp del: alert_loop.simps(2) set_map)
qed simp

lemma alert_loop_distinct:
  "distinct ths \<Longrightarrow> distinct (alert_ids (fst (alert_loop key used limit ths l)))"
proof (induction ths arbitrary: l)
  case (Cons th ths)
  then have "(key, th) \<notin> set (alert_ids (fst (alert_loop key used limit ths (mark key th l))))"
    using alert_loop_emits[of ths key used limit "mark key th l"] by auto
  with Cons show ?case
    by (simp add: alert_loop_Cons del: alert_loop.simps(2) set_map)
qed simp

definition thresholds :: "int set" where
  "thresholds = {50, 80, 95, 100}"

text \<open>The thresholds a key's committed usage has reached, in unbounded arithmetic.\<close>

definition reached :: "Ledger \<Rightarrow> string \<Rightarrow> int set" where
  "reached l k = {th \<in> thresholds. 0 < limit_of l k \<and> limit_of l k * th \<le> fm_get 0 (lgUsed l) k * 100}"

lemma alertsLocked_spec:
  assumes "ledger_inv l"
  shows "alerted_set (snd (alertsLocked key l)) k = alerted_set l k \<union> (if k = key then reached l key else {})"
    and "set (alert_ids (fst (alertsLocked key l))) =
      {(key, th) |th. th \<in> reached l key - alerted_set l key}"
    and "distinct (alert_ids (fst (alertsLocked key l)))"
proof -
  note loop = alert_loop_alerted[of key "fm_get 0 (lgUsed l) key" "limit_of l key" "[50, 80, 95, 100]" l]
    alert_loop_emits[of "[50, 80, 95, 100]" key "fm_get 0 (lgUsed l) key" "limit_of l key" l]
    alert_loop_distinct[of "[50, 80, 95, 100]" key "fm_get 0 (lgUsed l) key" "limit_of l key" l]
  have eq: "alertsLocked key l = (if limit_of l key \<le> 0 then ([], l)
      else (SliceStable (\<lambda>a b. alThreshold a < alThreshold b)
              (fst (alert_loop key (fm_get 0 (lgUsed l) key) (limit_of l key) [50, 80, 95, 100] l)),
            snd (alert_loop key (fm_get 0 (lgUsed l) key) (limit_of l key) [50, 80, 95, 100] l)))"
    by (simp add: alertsLocked_def limit_of_def Let_def split_beta)
  have th: "{th \<in> set [50, 80, 95, 100]. thresholdReached (fm_get 0 (lgUsed l) key) (limit_of l key) th} = reached l key"
    if "0 < limit_of l key"
    using that threshold_exact[OF _ ledger_invD(2)[OF assms, of key]] by (auto simp: reached_def thresholds_def)
  have none: "\<not> 0 < limit_of l key \<Longrightarrow> reached l key = {}" by (auto simp: reached_def)
  show "alerted_set (snd (alertsLocked key l)) k = alerted_set l k \<union> (if k = key then reached l key else {})"
    unfolding eq using loop(1) th none by auto
  show "set (alert_ids (fst (alertsLocked key l))) =
      {(key, th) |th. th \<in> reached l key - alerted_set l key}"
    unfolding eq using loop(2) th[symmetric] none by auto
  show "distinct (alert_ids (fst (alertsLocked key l)))"
    unfolding eq using loop(3) by (auto simp: distinct_map)
qed

section \<open>Runs of the ledger\<close>

datatype ledger_op = LReserve string string int | LSettle string int | LRelease string

text \<open>The amounts of an operation are int64 values.\<close>

fun op_int64 :: "ledger_op \<Rightarrow> bool" where
  "op_int64 (LReserve i k a) = (MinInt64 \<le> a \<and> a \<le> MaxInt64)"
| "op_int64 (LSettle i a) = (MinInt64 \<le> a \<and> a \<le> MaxInt64)"
| "op_int64 (LRelease i) = True"

fun ledger_step :: "ledger_op \<Rightarrow> Ledger \<Rightarrow> Alert list \<times> Ledger" where
  "ledger_step (LReserve i k a) l = ([], snd (Reserve i k a l))"
| "ledger_step (LSettle i a) l =
     (case Settle i a l of (Inl e, l') \<Rightarrow> ([], l') | (Inr out, l') \<Rightarrow> (out, l'))"
| "ledger_step (LRelease i) l = ([], snd (Release i l))"

fun ledger_run :: "ledger_op list \<Rightarrow> Ledger \<Rightarrow> Alert list \<times> Ledger" where
  "ledger_run [] l = ([], l)"
| "ledger_run (c # cs) l =
     (case ledger_step c l of (out, l1) \<Rightarrow> case ledger_run cs l1 of (out', l2) \<Rightarrow> (out @ out', l2))"

text \<open>The invariant together with the state of the alerts.\<close>

definition ledger_ok :: "Ledger \<Rightarrow> bool" where
  "ledger_ok l \<longleftrightarrow> ledger_inv l \<and> (\<forall>k. alerted_set l k = reached l k)"

lemma Reserve_frame:
  "lgLimits (snd (Reserve i k a l)) = lgLimits l" "lgUsed (snd (Reserve i k a l)) = lgUsed l"
  "lgAlerted (snd (Reserve i k a l)) = lgAlerted l"
  by (auto simp: Reserve_def Let_def split: option.splits)

lemma Release_frame:
  "lgLimits (snd (Release i l)) = lgLimits l" "lgUsed (snd (Release i l)) = lgUsed l"
  "lgAlerted (snd (Release i l)) = lgAlerted l"
  by (auto simp: Release_def split: option.splits)

lemma ledger_ok_frame:
  "lgLimits l' = lgLimits l \<Longrightarrow> lgUsed l' = lgUsed l \<Longrightarrow> lgAlerted l' = lgAlerted l \<Longrightarrow>
   ledger_inv l' \<Longrightarrow> ledger_ok l \<Longrightarrow> ledger_ok l' \<and> reached l' = reached l"
  by (auto simp: ledger_ok_def alerted_set_def reached_def limit_of_def fun_eq_iff)

lemma Settle_ok:
  fixes did
  assumes "ledger_ok l" and "actual \<le> MaxInt64"
  defines "s \<equiv> ledger_step (LSettle did actual) l"
  shows "ledger_ok (snd s) \<and> (\<forall>k. reached l k \<subseteq> reached (snd s) k) \<and>
    set (alert_ids (fst s)) = {(k, th). th \<in> reached (snd s) k - reached l k} \<and> distinct (alert_ids (fst s))"
proof (cases "\<exists>r. fmlookup (lgReservations l) did = Some r \<and> \<not> resClosed r")
  case True
  then obtain r where r: "fmlookup (lgReservations l) did = Some r" "\<not> resClosed r" by blast
  define a where "a = (if actual < 0 then 0 else actual)"
  define key where "key = resKey r"
  define l1 where "l1 = l\<lparr>lgReserved := fmupd key (i64 (fm_get 0 (lgReserved l) key - resReserved r)) (lgReserved l),
     lgUsed := fmupd key (saturatingAdd (fm_get 0 (lgUsed l) key) a) (lgUsed l),
     lgReservations := fmupd did (r\<lparr>resSettled := a, resClosed := True\<rparr>) (lgReservations l)\<rparr>"
  have inv: "ledger_inv l" and al: "\<And>k. alerted_set l k = reached l k" using assms(1) by (auto simp: ledger_ok_def)
  have S: "Settle did actual l = (Inr (fst (alertsLocked key l1)), snd (alertsLocked key l1))"
    using r by (simp add: Settle_def Let_def split_beta a_def key_def l1_def)
  then have s: "s = alertsLocked key l1" by (simp add: s_def)
  have "ledger_inv (snd (alertsLocked key l1))" using Settle_inv[OF inv assms(2), of did] S by simp
  then have inv1: "ledger_inv l1" by (simp add: ledger_inv_frame[OF alertsLocked_frame])
  note used = ledger_invD(3,4)[OF inv, of key]
  have "fm_get 0 (lgUsed l) key \<le> saturatingAdd (fm_get 0 (lgUsed l) key) a"
    using saturatingAdd_exact[OF used] used assms(2) by (auto simp: a_def)
  then have mono: "reached l k \<subseteq> reached l1 k" "k \<noteq> key \<Longrightarrow> reached l1 k = reached l k" for k
    by (auto simp: reached_def limit_of_def l1_def)
  have al1: "alerted_set l1 k = reached l k" for k using al[of k] by (simp add: alerted_set_def l1_def)
  have same: "reached (snd (alertsLocked key l1)) k = reached l1 k" for k
    by (simp add: reached_def limit_of_def alertsLocked_frame)
  note spec = alertsLocked_spec[OF inv1, of key, unfolded al1]
  have al2: "alerted_set (snd (alertsLocked key l1)) k = reached l1 k" for k
    using spec(1)[of k] mono[of k] by auto
  have diff: "(k, th) \<in> set (alert_ids (fst (alertsLocked key l1))) \<longleftrightarrow> th \<in> reached l1 k - reached l k" for k th
    unfolding spec(2) using mono(2)[of k] by (cases "k = key") simp_all
  have "set (alert_ids (fst s)) = {(k, th). th \<in> reached (snd s) k - reached l k}"
    unfolding s same using diff by (simp only: set_eq_iff split_paired_All mem_Collect_eq case_prod_conv simp_thms)
  with \<open>ledger_inv (snd (alertsLocked key l1))\<close> show ?thesis
    using spec(3) mono(1) by (simp add: s same ledger_ok_def al2)
qed (use assms in \<open>auto simp: Settle_def Let_def split: option.splits\<close>)

lemma step_ok:
  assumes "ledger_ok l" and "op_int64 c"
  shows "ledger_ok (snd (ledger_step c l)) \<and> (\<forall>k. reached l k \<subseteq> reached (snd (ledger_step c l)) k) \<and>
    set (alert_ids (fst (ledger_step c l))) = {(k, th). th \<in> reached (snd (ledger_step c l)) k - reached l k} \<and>
    distinct (alert_ids (fst (ledger_step c l)))"
proof (cases c)
  case (LReserve i k a)
  with assms show ?thesis
    using ledger_ok_frame[OF Reserve_frame Reserve_inv, of l i k a] by (auto simp: ledger_ok_def)
next
  case (LSettle i a)
  with assms show ?thesis using Settle_ok[OF assms(1), of a i] by (simp del: ledger_step.simps)
next
  case (LRelease i)
  with assms show ?thesis
    using ledger_ok_frame[OF Release_frame Release_inv, of l i] by (auto simp: ledger_ok_def)
qed

lemma run_ok:
  "ledger_ok l \<Longrightarrow> list_all op_int64 cs \<Longrightarrow>
   ledger_ok (snd (ledger_run cs l)) \<and> (\<forall>k. reached l k \<subseteq> reached (snd (ledger_run cs l)) k) \<and>
   set (alert_ids (fst (ledger_run cs l))) = {(k, th). th \<in> reached (snd (ledger_run cs l)) k - reached l k} \<and>
   distinct (alert_ids (fst (ledger_run cs l)))"
proof (induction cs arbitrary: l)
  case (Cons c cs)
  define l1 where "l1 = snd (ledger_step c l)"
  have st: "ledger_ok l1" "\<And>k. reached l k \<subseteq> reached l1 k"
    "set (alert_ids (fst (ledger_step c l))) = {(k, th). th \<in> reached l1 k - reached l k}"
    "distinct (alert_ids (fst (ledger_step c l)))"
    using step_ok[of l c] Cons.prems unfolding l1_def by auto
  define l2 where "l2 = snd (ledger_run cs l1)"
  have rn: "ledger_ok l2" "\<And>k. reached l1 k \<subseteq> reached l2 k"
    "set (alert_ids (fst (ledger_run cs l1))) = {(k, th). th \<in> reached l2 k - reached l1 k}"
    "distinct (alert_ids (fst (ledger_run cs l1)))"
    using Cons.IH[OF st(1)] Cons.prems unfolding l2_def by auto
  have run: "fst (ledger_run (c # cs) l) = fst (ledger_step c l) @ fst (ledger_run cs l1)"
    "snd (ledger_run (c # cs) l) = l2"
    by (simp_all add: split_beta l1_def l2_def)
  have "set (alert_ids (fst (ledger_run (c # cs) l))) = {(k, th). th \<in> reached l2 k - reached l k}"
    unfolding run map_append set_append st(3) rn(3) using st(2) rn(2) by blast
  moreover have "distinct (alert_ids (fst (ledger_run (c # cs) l)))"
    unfolding run map_append distinct_append st(3) rn(3) using st(4) rn(4) by blast
  ultimately show ?case unfolding run(2) using rn(1,2) st(2) by blast
qed simp

lemma add_limits_spec:
  "add_limits xs l = Inr l' \<Longrightarrow> list_all (\<lambda>x. limAmount x \<le> MaxInt64) xs \<Longrightarrow>
   (\<forall>k. 0 \<le> limit_of l k \<and> limit_of l k \<le> MaxInt64) \<Longrightarrow>
   (\<forall>k. 0 \<le> limit_of l' k \<and> limit_of l' k \<le> MaxInt64) \<and> lgUsed l' = lgUsed l \<and> lgReserved l' = lgReserved l \<and>
   lgReservations l' = lgReservations l \<and> lgAlerted l' = lgAlerted l"
proof (induction xs l rule: add_limits.induct)
  case (2 x xs l)
  define l1 where "l1 = l\<lparr>lgLimits := fmupd (limKey x) x (lgLimits l)\<rparr>"
  have *: "add_limits xs l1 = Inr l'" "\<not> (limKey x = [] \<or> limAmount x < 0)"
    using 2(2) by (auto simp: l1_def split: if_splits)
  moreover have "\<forall>k. 0 \<le> limit_of l1 k \<and> limit_of l1 k \<le> MaxInt64"
    using 2(3,4) * by (auto simp: limit_of_def l1_def)
  ultimately show ?case using 2(1)[folded l1_def] 2(3) by (auto simp: l1_def)
qed simp

lemma NewLedger_ok:
  assumes "NewLedger limits = Inr l" and "list_all (\<lambda>x. limAmount x \<le> MaxInt64) limits"
  shows "ledger_ok l" and "reached l k = {}"
proof -
  note spec = add_limits_spec[OF assms(1)[unfolded NewLedger_def] assms(2)]
  have e: "(\<forall>k. 0 \<le> limit_of l k \<and> limit_of l k \<le> MaxInt64) \<and> lgUsed l = fmempty \<and> lgReserved l = fmempty \<and>
      lgReservations l = fmempty \<and> lgAlerted l = fmempty"
    using spec by (simp add: empty_ledger_def limit_of_def)
  then show r: "reached l k = {}" for k
    by (auto simp: reached_def thresholds_def fm_get_def)
  show "ledger_ok l"
    using e r by (simp add: ledger_ok_def ledger_inv_def open_sum_def alerted_set_def fm_get_def)
qed

section \<open>Properties\<close>

text \<open>C26: Whatever int64 amounts are passed to Reserve, Settle and Release, in any order,
  committed usage stays within int64 and never becomes negative, the reserved total of a
  key is exactly the sum of its open reservations, and it never exceeds the key's limit:
  no addition or subtraction of the ledger wraps.
\<close>

theorem ledger_invariant:
  assumes "NewLedger limits = Inr l0" and "list_all (\<lambda>x. limAmount x \<le> MaxInt64) limits"
    and "list_all op_int64 cs"
  defines "l \<equiv> snd (ledger_run cs l0)"
  shows "0 \<le> fm_get 0 (lgUsed l) k \<and> fm_get 0 (lgUsed l) k \<le> MaxInt64 \<and>
    fm_get 0 (lgReserved l) k = open_sum k (lgReservations l) \<and>
    0 \<le> fm_get 0 (lgReserved l) k \<and> fm_get 0 (lgReserved l) k \<le> limit_of l k"
proof -
  have "ledger_inv l"
    using run_ok[OF NewLedger_ok(1)[OF assms(1,2)] assms(3)] by (simp add: l_def ledger_ok_def)
  then show ?thesis using ledger_invD(3-7)[of l k] by blast
qed

definition ledger_of_limit :: "int \<Rightarrow> Ledger" where
  "ledger_of_limit n = (case NewLedger [\<lparr>limKey = ''k'', limAmount = n\<rparr>] of Inr l \<Rightarrow> l | Inl _ \<Rightarrow> empty_ledger)"

theorem ledger_invariant_witness:
  "0 \<le> fm_get 0 (lgReserved (snd (ledger_run
      [LReserve ''a'' ''k'' 60, LReserve ''b'' ''k'' 50, LReserve ''c'' ''k'' 40, LSettle ''a'' MaxInt64, LRelease ''c'']
      (ledger_of_limit 100)))) ''k''"
  using ledger_invariant[of "[\<lparr>limKey = ''k'', limAmount = 100\<rparr>]" "ledger_of_limit 100"
      "[LReserve ''a'' ''k'' 60, LReserve ''b'' ''k'' 50, LReserve ''c'' ''k'' 40, LSettle ''a'' MaxInt64, LRelease ''c'']" "''k''"]
  by (simp add: NewLedger_def ledger_of_limit_def)

text \<open>C27: A reservation of a positive amount with a fresh, non-empty id on a known, non-empty key is granted exactly when committed usage,
  reserved amounts and the new amount fit into the limit as unbounded integers; a granted
  reservation holds exactly its amount, and a refused one changes nothing.
\<close>

theorem reserve_admits_exactly:
  assumes "NewLedger limits = Inr l0" and "list_all (\<lambda>x. limAmount x \<le> MaxInt64) limits"
    and "list_all op_int64 cs"
  defines "l \<equiv> snd (ledger_run cs l0)"
  assumes "0 < amount" and "did \<noteq> []" and "key \<noteq> []"
    and "\<not> fm_has (lgReservations l) did" and "fm_has (lgLimits l) key"
  shows "Reserve did key amount l =
     (if fm_get 0 (lgUsed l) key + fm_get 0 (lgReserved l) key + amount \<le> limit_of l key
      then (let r = \<lparr>resID = did, resKey = key, resReserved = amount, resSettled = 0, resClosed = False\<rparr>
            in (Inr r, l\<lparr>lgReservations := fmupd did r (lgReservations l),
                 lgReserved := fmupd key (fm_get 0 (lgReserved l) key + amount) (lgReserved l)\<rparr>))
      else (Inl ErrBudgetExceeded, l))"
proof (rule Reserve_exact)
  show "ledger_inv l"
    using run_ok[OF NewLedger_ok(1)[OF assms(1,2)] assms(3)] by (simp add: l_def ledger_ok_def)
qed (use assms in auto)

theorem reserve_admits_exactly_witness:
  "fst (Reserve ''b'' ''k'' 41 (snd (ledger_run [LReserve ''a'' ''k'' 60] (ledger_of_limit 100)))) = Inl ErrBudgetExceeded \<and>
   isl (fst (Reserve ''b'' ''k'' 40 (snd (ledger_run [LReserve ''a'' ''k'' 60] (ledger_of_limit 100))))) = False"
proof -
  have start: "NewLedger [\<lparr>limKey = ''k'', limAmount = 100\<rparr>] = Inr (ledger_of_limit 100)"
    by (simp add: NewLedger_def ledger_of_limit_def)
  define l where "l = snd (ledger_run [LReserve ''a'' ''k'' 60] (ledger_of_limit 100))"
  have facts: "fm_get 0 (lgUsed l) ''k'' = 0" "fm_get 0 (lgReserved l) ''k'' = 60" "limit_of l ''k'' = 100"
    "\<not> fm_has (lgReservations l) ''b''" "fm_has (lgLimits l) ''k''"
    unfolding l_def by code_simp+
  note use = reserve_admits_exactly[OF start, of "[LReserve ''a'' ''k'' 60]" _ "''b''" "''k''", folded l_def]
  show ?thesis
    unfolding l_def[symmetric] using use[of 41] use[of 40] facts by (simp add: Let_def)
qed

text \<open>C28: Over any run, each threshold alert of a key is emitted at most once, and the alerts
  emitted are exactly the thresholds 50, 80, 95 and 100 that the committed usage has
  reached, in exact arithmetic, by the end of the run.
\<close>

theorem alerts_once_and_exact:
  assumes "NewLedger limits = Inr l0" and "list_all (\<lambda>x. limAmount x \<le> MaxInt64) limits"
    and "list_all op_int64 cs"
  shows "distinct (map (\<lambda>a. (alKey a, alThreshold a)) (fst (ledger_run cs l0))) \<and>
    set (map (\<lambda>a. (alKey a, alThreshold a)) (fst (ledger_run cs l0))) =
      {(k, th). th \<in> {50, 80, 95, 100} \<and> 0 < limit_of (snd (ledger_run cs l0)) k \<and>
         limit_of (snd (ledger_run cs l0)) k * th \<le> fm_get 0 (lgUsed (snd (ledger_run cs l0))) k * 100}"
  using run_ok[OF NewLedger_ok(1)[OF assms(1,2)] assms(3)] NewLedger_ok(2)[OF assms(1,2)]
  unfolding reached_def thresholds_def by simp

theorem alerts_once_and_exact_witness:
  "map alThreshold (fst (ledger_run
      [LReserve ''a'' ''k'' 60, LSettle ''a'' 60, LReserve ''b'' ''k'' 40, LSettle ''b'' 35]
      (ledger_of_limit 100))) = [50, 80, 95] \<and>
   distinct (map (\<lambda>a. (alKey a, alThreshold a)) (fst (ledger_run
      [LReserve ''a'' ''k'' 60, LSettle ''a'' 60, LReserve ''b'' ''k'' 40, LSettle ''b'' 35]
      (ledger_of_limit 100))))"
proof
  show "map alThreshold (fst (ledger_run
      [LReserve ''a'' ''k'' 60, LSettle ''a'' 60, LReserve ''b'' ''k'' 40, LSettle ''b'' 35]
      (ledger_of_limit 100))) = [50, 80, 95]"
    by code_simp
  show "distinct (map (\<lambda>a. (alKey a, alThreshold a)) (fst (ledger_run
      [LReserve ''a'' ''k'' 60, LSettle ''a'' 60, LReserve ''b'' ''k'' 40, LSettle ''b'' 35]
      (ledger_of_limit 100))))"
    using alerts_once_and_exact[of "[\<lparr>limKey = ''k'', limAmount = 100\<rparr>]" "ledger_of_limit 100"
      "[LReserve ''a'' ''k'' 60, LSettle ''a'' 60, LReserve ''b'' ''k'' 40, LSettle ''b'' 35]"]
    by (simp add: NewLedger_def ledger_of_limit_def del: ledger_run.simps)
qed

end
