(* ===== verification/LinkedList.thy ===== *)
theory LinkedList
  imports Prelude
begin

text \<open>
  The intrusive doubly linked list both response caches are built on
  (\<^verbatim>\<open>src/internal/cache/cache.go\<close>, \<^verbatim>\<open>lruNode\<close> and \<^verbatim>\<open>lruList\<close>; the semantic cache repeats
  the same code).  Pointers are addresses into an explicit heap of nodes, nil is
  \<^const>\<open>None\<close>, and every field assignment of the source is one heap update, in the source's
  order, so aliasing is visible.  The lemmas show that the pointer surgery implements
  insertion at the front and removal on the sequence of nodes the list stands for.
\<close>

record 'e lruNode =
  nKey :: string
  nEntry :: 'e
  nPrev :: "nat option"
  nNext :: "nat option"

record lruList =
  lHead :: "nat option"
  lTail :: "nat option"
  lLen :: int

type_synonym 'e node_heap = "(nat, 'e lruNode) fmap"

definition set_prev :: "nat \<Rightarrow> nat option \<Rightarrow> 'e node_heap \<Rightarrow> 'e node_heap" where
  "set_prev a p h = (case fmlookup h a of None \<Rightarrow> h | Some n \<Rightarrow> fmupd a (n\<lparr>nPrev := p\<rparr>) h)"

definition set_next :: "nat \<Rightarrow> nat option \<Rightarrow> 'e node_heap \<Rightarrow> 'e node_heap" where
  "set_next a p h = (case fmlookup h a of None \<Rightarrow> h | Some n \<Rightarrow> fmupd a (n\<lparr>nNext := p\<rparr>) h)"

definition prev_of :: "'e node_heap \<Rightarrow> nat \<Rightarrow> nat option" where
  "prev_of h a = (case fmlookup h a of None \<Rightarrow> None | Some n \<Rightarrow> nPrev n)"

definition next_of :: "'e node_heap \<Rightarrow> nat \<Rightarrow> nat option" where
  "next_of h a = (case fmlookup h a of None \<Rightarrow> None | Some n \<Rightarrow> nNext n)"

section \<open>Operations\<close>

definition pushFront :: "nat \<Rightarrow> lruList \<times> 'e node_heap \<Rightarrow> lruList \<times> 'e node_heap" where
  "pushFront n s =
     (let (l, h) = s;
          h1 = set_next n (lHead l) (set_prev n None h);
          h2 = (case lHead l of None \<Rightarrow> h1 | Some x \<Rightarrow> set_prev x (Some n) h1);
          l1 = l\<lparr>lHead := Some n\<rparr>;
          l2 = (if lTail l1 = None then l1\<lparr>lTail := Some n\<rparr> else l1)
      in (l2\<lparr>lLen := i64 (lLen l2 + 1)\<rparr>, h2))"

definition unlink :: "nat \<Rightarrow> lruList \<times> 'e node_heap \<Rightarrow> lruList \<times> 'e node_heap" where
  "unlink n s =
     (let (l, h) = s;
          (l1, h1) = (case prev_of h n of
                        Some p \<Rightarrow> (l, set_next p (next_of h n) h)
                      | None \<Rightarrow> (l\<lparr>lHead := next_of h n\<rparr>, h));
          (l2, h2) = (case next_of h1 n of
                        Some q \<Rightarrow> (l1, set_prev q (prev_of h1 n) h1)
                      | None \<Rightarrow> (l1\<lparr>lTail := prev_of h1 n\<rparr>, h1));
          h3 = set_next n None (set_prev n None h2)
      in (l2\<lparr>lLen := i64 (lLen l2 - 1)\<rparr>, h3))"

definition moveToFront :: "nat \<Rightarrow> lruList \<times> 'e node_heap \<Rightarrow> lruList \<times> 'e node_heap" where
  "moveToFront n s = (if lHead (fst s) = Some n then s else pushFront n (unlink n s))"

section \<open>The sequence a list stands for\<close>

fun walk :: "nat \<Rightarrow> 'e node_heap \<Rightarrow> nat option \<Rightarrow> nat list" where
  "walk 0 h p = []"
| "walk (Suc n) h None = []"
| "walk (Suc n) h (Some a) = a # walk n h (next_of h a)"

definition first :: "'a list \<Rightarrow> 'a option \<Rightarrow> 'a option" where
  "first as n = (case as of [] \<Rightarrow> n | a # _ \<Rightarrow> Some a)"

definition final :: "'a list \<Rightarrow> 'a option \<Rightarrow> 'a option" where
  "final as p = (if as = [] then p else Some (last as))"

lemma first_simps [simp]: "first [] n = n" "first (a # as) n = Some a" "first (us @ vs) n = first us (first vs n)"
  by (simp_all add: first_def split: list.split)

lemma final_simps [simp]: "final [] p = p" "final (us @ vs) p = final vs (final us p)"
  "final (a # as) p = final as (Some a)"
  by (simp_all add: final_def)

lemma final_snoc: "as \<noteq> [] \<Longrightarrow> final as p = Some (last as)"
  by (simp add: final_def)

text \<open>A segment: linked nodes with the given neighbours on either side.\<close>

fun seg :: "'e node_heap \<Rightarrow> nat option \<Rightarrow> nat list \<Rightarrow> nat option \<Rightarrow> bool" where
  "seg h p [] n = True"
| "seg h p (a # as) n \<longleftrightarrow>
     a |\<in>| fmdom h \<and> prev_of h a = p \<and> next_of h a = first as n \<and> seg h (Some a) as n"

lemma seg_append [simp]:
  "seg h p (us @ vs) n \<longleftrightarrow> seg h p us (first vs n) \<and> seg h (final us p) vs n"
  by (induction us arbitrary: p) auto

lemma dom_set [simp]: "fmdom (set_prev a p h) = fmdom h" "fmdom (set_next a p h) = fmdom h"
  by (rule fset_eqI; simp add: set_prev_def set_next_def fmlookup_dom_iff split: option.split)+

lemma lookup_set:
  "fmlookup (set_prev a p h) b = (if b = a then map_option (nPrev_update (\<lambda>_. p)) (fmlookup h b) else fmlookup h b)"
  "fmlookup (set_next a p h) b = (if b = a then map_option (nNext_update (\<lambda>_. p)) (fmlookup h b) else fmlookup h b)"
  by (cases "fmlookup h a"; simp add: set_prev_def set_next_def)+

lemma prev_of_set [simp]:
  "prev_of (set_next a p h) b = prev_of h b"
  "prev_of (set_prev a p h) b = (if b = a \<and> a |\<in>| fmdom h then p else prev_of h b)"
  by (cases "b = a"; cases "fmlookup h b"; auto simp: prev_of_def lookup_set fmlookup_dom_iff)+

lemma next_of_set [simp]:
  "next_of (set_prev a p h) b = next_of h b"
  "next_of (set_next a p h) b = (if b = a \<and> a |\<in>| fmdom h then p else next_of h b)"
  by (cases "b = a"; cases "fmlookup h b"; auto simp: next_of_def lookup_set fmlookup_dom_iff)+

lemma seg_cong:
  assumes "\<forall>a \<in> set as. (a |\<in>| fmdom h \<longleftrightarrow> a |\<in>| fmdom h') \<and> prev_of h a = prev_of h' a \<and> next_of h a = next_of h' a"
  shows "seg h p as n = seg h' p as n"
  using assms by (induction as arbitrary: p) auto

lemma seg_frame [simp]:
  "a \<notin> set as \<Longrightarrow> seg (set_prev a x h) p as n = seg h p as n"
  "a \<notin> set as \<Longrightarrow> seg (set_next a x h) p as n = seg h p as n"
  using seg_cong[of as "set_prev a x h" h p n] seg_cong[of as "set_next a x h" h p n] by auto

lemma seg_dom: "seg h p as n \<Longrightarrow> a \<in> set as \<Longrightarrow> a |\<in>| fmdom h"
  by (induction as arbitrary: p) auto

lemma seg_relink_first:
  "seg h p (a # as) n \<Longrightarrow> a \<notin> set as \<Longrightarrow> seg (set_prev a q h) q (a # as) n"
  by simp

lemma seg_relink_last:
  "seg h p (as @ [a]) n \<Longrightarrow> a \<notin> set as \<Longrightarrow> seg (set_next a m h) p (as @ [a]) m"
  by simp

lemma walk_seg: "seg h p as None \<Longrightarrow> walk (length as) h (first as None) = as"
  by (induction as arbitrary: p) auto

lemma next_of_seg: "seg h p (us @ a # vs) n \<Longrightarrow> next_of h a = first vs n"
  by simp

lemma prev_of_seg: "seg h p (us @ a # vs) n \<Longrightarrow> prev_of h a = final us p"
  by simp

section \<open>Well-formed lists\<close>

definition dll :: "lruList \<times> 'e node_heap \<Rightarrow> nat list \<Rightarrow> bool" where
  "dll s as \<longleftrightarrow> seg (snd s) None as None \<and> distinct as \<and>
     lHead (fst s) = first as None \<and> lTail (fst s) = final as None \<and> lLen (fst s) = int (length as)"

lemma dll_walk: "dll (l, h) as \<Longrightarrow> walk (nat (lLen l)) h (lHead l) = as"
  by (auto simp: dll_def intro: walk_seg)

text \<open>What an entry carries is never touched by relinking.\<close>

definition payload :: "'e node_heap \<Rightarrow> nat \<Rightarrow> (string \<times> 'e) option" where
  "payload h a = map_option (\<lambda>n. (nKey n, nEntry n)) (fmlookup h a)"

lemma payload_set [simp]: "payload (set_prev a p h) = payload h" "payload (set_next a p h) = payload h"
  by (auto simp: payload_def set_prev_def set_next_def fun_eq_iff split: option.split)

lemma payload_ops [simp]:
  "payload (snd (pushFront n s)) = payload (snd s)"
  "payload (snd (unlink n s)) = payload (snd s)"
  "payload (snd (moveToFront n s)) = payload (snd s)"
  "fmdom (snd (pushFront n s)) = fmdom (snd s)"
  "fmdom (snd (unlink n s)) = fmdom (snd s)"
  "fmdom (snd (moveToFront n s)) = fmdom (snd s)"
  by (auto simp: moveToFront_def pushFront_def unlink_def Let_def split_beta split: option.split)

lemma pushFront_dll:
  assumes "dll s as" and "n \<notin> set as" and "n |\<in>| fmdom (snd s)" and "int (length as) < MaxInt64"
  shows "dll (pushFront n s) (n # as)"
proof -
  obtain l h where s: "s = (l, h)" by (cases s)
  have len: "i64 (lLen l + 1) = 1 + int (length as)"
    using assms(1,4) by (simp add: s dll_def) (subst i64_id, auto)
  show ?thesis
  proof (cases as)
    case Nil
    with assms len show ?thesis by (simp add: s dll_def pushFront_def)
  next
    case (Cons x xs)
    with assms len show ?thesis
      by (auto simp: s dll_def pushFront_def final_def)
  qed
qed

lemma unlink_dll:
  assumes "dll s (us @ n # vs)" and "int (length (us @ n # vs)) \<le> MaxInt64"
  shows "dll (unlink n s) (us @ vs)"
proof -
  obtain l h where s: "s = (l, h)" by (cases s)
  have sg: "seg h None (us @ n # vs) None" and d: "distinct (us @ n # vs)"
    and hd: "lHead l = first (us @ n # vs) None" and tl: "lTail l = final (us @ n # vs) None"
    and ln: "lLen l = int (length (us @ n # vs))"
    using assms(1) by (simp_all add: s dll_def)
  have pr: "prev_of h n = final us None" and nx: "next_of h n = first vs None" using sg by auto
  define h1 where "h1 = (case prev_of h n of Some p \<Rightarrow> set_next p (next_of h n) h | None \<Rightarrow> h)"
  define h2 where "h2 = (case next_of h n of Some q \<Rightarrow> set_prev q (prev_of h n) h1 | None \<Rightarrow> h1)"
  have h1n: "prev_of h1 n = prev_of h n" "next_of h1 n = next_of h n"
    using d pr by (auto simp: h1_def final_def split: option.split)
  have u: "unlink n s = (\<lparr>lHead = (if prev_of h n = None then next_of h n else lHead l),
      lTail = (if next_of h n = None then prev_of h n else lTail l), lLen = i64 (lLen l - 1)\<rparr>,
      set_next n None (set_prev n None h2))"
    by (cases l) (simp add: s unlink_def Let_def h1n[unfolded h1_def] h1_def h2_def split: option.split)
  have su: "seg h1 None us (first vs None)"
  proof (cases us rule: rev_cases)
    case (snoc ws w)
    then show ?thesis using sg d pr nx by (auto simp: h1_def)
  qed simp
  have lu: "us \<noteq> [] \<Longrightarrow> last us \<notin> set vs" using d last_in_set by fastforce
  have sv: "seg h1 (Some n) vs None"
    using sg lu pr by (auto simp: h1_def final_def split: option.split)
  have su2: "seg h2 None us (first vs None)"
    using su d nx by (cases vs) (auto simp: h2_def)
  have sv2: "seg h2 (final us None) vs None"
    using sv d nx pr by (cases vs) (auto simp: h2_def)
  have "i64 (lLen l - 1) = int (length (us @ vs))" using ln assms(2) by (subst i64_id) auto
  with su2 sv2 d hd tl pr nx show ?thesis
    by (auto simp: u dll_def final_def first_def split: list.splits if_splits)
qed

lemma moveToFront_dll:
  assumes "dll s (us @ n # vs)" and "int (length (us @ n # vs)) \<le> MaxInt64"
  shows "dll (moveToFront n s) (n # us @ vs)"
proof (cases "lHead (fst s) = Some n")
  case True
  then have "us = []" using assms(1) by (cases us) (auto simp: dll_def)
  with True assms(1) show ?thesis by (simp add: moveToFront_def)
next
  case False
  have d: "dll (unlink n s) (us @ vs)" by (rule unlink_dll[OF assms])
  have "dll (pushFront n (unlink n s)) (n # us @ vs)"
    by (rule pushFront_dll[OF d]) (use assms in \<open>auto simp: dll_def\<close>)
  with False show ?thesis by (simp add: moveToFront_def)
qed

end
