(* ===== verification/LruTable.thy ===== *)
theory LruTable
  imports LinkedList
begin

text \<open>
  The table both response caches keep (\<^verbatim>\<open>src/internal/cache/cache.go\<close>,
  \<^verbatim>\<open>src/internal/cache/semantic.go\<close>): a map from keys to nodes of the recency list and the
  number of bytes the bodies take.  The two caches repeat the code for their entry types; here
  it is written once, with the body of an entry as an argument.  The heap of nodes and the next
  address an allocation returns complete the state.
\<close>

record 'e table =
  tEntries :: "(string, nat) fmap"
  tOrder :: lruList
  tBytes :: int
  tHeap :: "'e node_heap"
  tFresh :: nat

definition empty_list :: lruList where
  "empty_list = \<lparr>lHead = None, lTail = None, lLen = 0\<rparr>"

definition empty_table :: "'e table" where
  "empty_table = \<lparr>tEntries = fmempty, tOrder = empty_list, tBytes = 0, tHeap = fmempty, tFresh = 0\<rparr>"

text \<open>Clearing replaces the map and the list; the nodes become garbage.\<close>

definition clear_table :: "'e table \<Rightarrow> 'e table" where
  "clear_table t = t\<lparr>tEntries := fmempty, tOrder := empty_list, tBytes := 0\<rparr>"

definition len64 :: "string \<Rightarrow> int" where
  "len64 s = int (length s)"

definition removeNode :: "('e \<Rightarrow> string) \<Rightarrow> nat option \<Rightarrow> 'e table \<Rightarrow> 'e table option" where
  "removeNode body p t =
     (case p of
        None \<Rightarrow> None
      | Some a \<Rightarrow>
        (case fmlookup (tHeap t) a of
           None \<Rightarrow> None
         | Some n \<Rightarrow>
             (let t1 = (if fm_has (tEntries t) (nKey n)
                        then (let b = i64 (tBytes t - len64 (body (nEntry n)))
                              in t\<lparr>tEntries := fmdrop (nKey n) (tEntries t), tBytes := (if b < 0 then 0 else b)\<rparr>)
                        else t);
                  (l, h) = unlink a (tOrder t1, tHeap t1)
              in Some (t1\<lparr>tOrder := l, tHeap := h\<rparr>))))"

definition insert_node :: "('e \<Rightarrow> string) \<Rightarrow> string \<Rightarrow> 'e \<Rightarrow> 'e table \<Rightarrow> 'e table" where
  "insert_node body key e t =
     (let a = tFresh t;
          h0 = fmupd a \<lparr>nKey = key, nEntry = e, nPrev = None, nNext = None\<rparr> (tHeap t);
          (l, h) = pushFront a (tOrder t, h0)
      in t\<lparr>tEntries := fmupd key a (tEntries t), tOrder := l, tHeap := h, tFresh := Suc a,
           tBytes := i64 (tBytes t + len64 (body e))\<rparr>)"

definition touch_node :: "nat \<Rightarrow> 'e table \<Rightarrow> 'e table" where
  "touch_node a t = (let (l, h) = moveToFront a (tOrder t, tHeap t) in t\<lparr>tOrder := l, tHeap := h\<rparr>)"

lemma removeNode_len:
  "removeNode body p t = Some t' \<Longrightarrow> lLen (tOrder t') = i64 (lLen (tOrder t) - 1)"
  by (auto simp: removeNode_def unlink_def Let_def split: option.splits if_splits prod.splits)

lemma i64_pred_less: "0 < x \<Longrightarrow> i64 (x - 1) < x"
proof (cases "x \<le> MaxInt64")
  case True
  moreover assume "0 < x"
  ultimately show ?thesis by (subst i64_id) auto
next
  case False
  then show ?thesis using i64_bounds[of "x - 1"] by linarith
qed

section \<open>Sequences of keys and entries\<close>

type_synonym 'e lru = "(string \<times> 'e) list"

definition bytes_of :: "('e \<Rightarrow> string) \<Rightarrow> 'e lru \<Rightarrow> int" where
  "bytes_of body xs = sum_list (map (\<lambda>x. len64 (body (snd x))) xs)"

definition without :: "string \<Rightarrow> 'e lru \<Rightarrow> 'e lru" where
  "without k xs = filter (\<lambda>x. fst x \<noteq> k) xs"

text \<open>The longest prefix whose bodies take at most a number of bytes.\<close>

fun fit :: "('e \<Rightarrow> string) \<Rightarrow> int \<Rightarrow> 'e lru \<Rightarrow> 'e lru" where
  "fit body b [] = []"
| "fit body b (x # xs) =
     (if len64 (body (snd x)) \<le> b then x # fit body (b - len64 (body (snd x))) xs else [])"

lemma len64_nonneg: "0 \<le> len64 s"
  by (simp add: len64_def)

lemma bytes_simps [simp]:
  "bytes_of body [] = 0" "bytes_of body (x # xs) = len64 (body (snd x)) + bytes_of body xs"
  "bytes_of body (xs @ ys) = bytes_of body xs + bytes_of body ys"
  by (simp_all add: bytes_of_def)

lemma bytes_nonneg: "0 \<le> bytes_of body xs"
  by (induction xs) (auto simp: len64_nonneg)

lemma fit_all: "bytes_of body xs \<le> b \<Longrightarrow> fit body b xs = xs"
proof (induction xs arbitrary: b)
  case (Cons x xs)
  then show ?case using bytes_nonneg[of body xs] by auto
qed simp

lemma fit_snoc: "b < bytes_of body (xs @ [x]) \<Longrightarrow> fit body b (xs @ [x]) = fit body b xs"
  by (induction xs arbitrary: b) auto

lemma fit_bytes: "0 \<le> b \<Longrightarrow> bytes_of body (fit body b xs) \<le> b"
proof (induction xs arbitrary: b)
  case (Cons x xs)
  have "len64 (body (snd x)) \<le> b \<Longrightarrow>
      bytes_of body (fit body (b - len64 (body (snd x))) xs) \<le> b - len64 (body (snd x))"
    by (rule Cons.IH) simp
  with Cons.prems show ?case by (auto simp: algebra_simps)
qed simp

lemma set_fit: "set (fit body b xs) \<subseteq> set xs"
  by (induction xs arbitrary: b) auto

lemma bytes_take: "bytes_of body (take n xs) \<le> bytes_of body xs"
  using bytes_nonneg[of body "drop n xs"] bytes_simps(3)[of body "take n xs" "drop n xs"] by simp

lemma without_subset: "set (without k xs) \<subseteq> {x \<in> set xs. fst x \<noteq> k}"
  by (auto simp: without_def)

section \<open>Well-formed tables\<close>

definition content :: "'e node_heap \<Rightarrow> nat list \<Rightarrow> 'e lru" where
  "content h as = map (\<lambda>a. the (payload h a)) as"

definition table_content :: "'e table \<Rightarrow> 'e lru" where
  "table_content t = content (tHeap t) (walk (nat (lLen (tOrder t))) (tHeap t) (lHead (tOrder t)))"

definition table_wf :: "('e \<Rightarrow> string) \<Rightarrow> 'e table \<Rightarrow> nat list \<Rightarrow> bool" where
  "table_wf body t as \<longleftrightarrow> dll (tOrder t, tHeap t) as \<and> distinct (map fst (content (tHeap t) as)) \<and>
     (\<forall>k a. fmlookup (tEntries t) k = Some a \<longleftrightarrow> a \<in> set as \<and> fst (the (payload (tHeap t) a)) = k) \<and>
     tBytes t = bytes_of body (content (tHeap t) as) \<and> (\<forall>a. a |\<in>| fmdom (tHeap t) \<longrightarrow> a < tFresh t) \<and>
     int (length as) \<le> 65536 \<and> tBytes t \<le> 1073741824"

lemma content_simps [simp]:
  "content h [] = []" "content h (a # as) = the (payload h a) # content h as"
  "content h (us @ vs) = content h us @ content h vs" "length (content h as) = length as"
  by (simp_all add: content_def)

lemma content_take: "content h (take n as) = take n (content h as)"
  by (simp add: content_def take_map)

lemma table_content_wf: "table_wf body t as \<Longrightarrow> table_content t = content (tHeap t) as"
  by (metis table_content_def dll_walk table_wf_def)

lemma wf_length: "table_wf body t as \<Longrightarrow> lLen (tOrder t) = int (length as)"
  by (simp add: table_wf_def dll_def)

lemma wf_bytes: "table_wf body t as \<Longrightarrow> tBytes t = bytes_of body (content (tHeap t) as)"
  by (simp add: table_wf_def)

lemma wf_keys: "table_wf body t as \<Longrightarrow> distinct (map fst (content (tHeap t) as))"
  by (simp add: table_wf_def)

lemma wf_tail: "table_wf body t as \<Longrightarrow> lTail (tOrder t) = final as None"
  by (simp add: table_wf_def dll_def)

lemma wf_entries:
  "table_wf body t as \<Longrightarrow> fmlookup (tEntries t) k = Some a \<longleftrightarrow> a \<in> set as \<and> fst (the (payload (tHeap t) a)) = k"
  by (simp add: table_wf_def)

lemma wf_payload:
  assumes "table_wf body t as" and "a \<in> set as"
  obtains n where "fmlookup (tHeap t) a = Some n" and "payload (tHeap t) a = Some (nKey n, nEntry n)"
proof -
  have "a |\<in>| fmdom (tHeap t)" using assms by (auto simp: table_wf_def dll_def dest: seg_dom)
  then show ?thesis using that by (auto simp: payload_def elim: fmdomE)
qed

lemma empty_table_wf: "table_wf body empty_table []"
  by (simp add: table_wf_def dll_def empty_table_def empty_list_def)

lemma clear_table_wf: "table_wf body t as \<Longrightarrow> table_wf body (clear_table t) []"
  by (simp add: table_wf_def dll_def clear_table_def empty_list_def)

lemma removeNode_wf:
  assumes "table_wf body t (us @ a # vs)"
  obtains t' where "removeNode body (Some a) t = Some t'" and "table_wf body t' (us @ vs)"
    and "content (tHeap t') (us @ vs) = content (tHeap t) (us @ vs)"
proof -
  obtain n where n: "fmlookup (tHeap t) a = Some n" "payload (tHeap t) a = Some (nKey n, nEntry n)"
    by (rule wf_payload[OF assms, of a]) auto
  have W: "dll (tOrder t, tHeap t) (us @ a # vs)" "int (length (us @ a # vs)) \<le> 65536" "tBytes t \<le> 1073741824"
    using assms by (auto simp: table_wf_def)
  note keysd = wf_keys[OF assms] and ents = wf_entries[OF assms] and bytes = wf_bytes[OF assms]
  have ent: "fmlookup (tEntries t) (nKey n) = Some a" using ents n(2) by simp
  define u where "u = unlink a (tOrder t, tHeap t)"
  have d: "dll u (us @ vs)" unfolding u_def by (rule unlink_dll[OF W(1)]) (use W(2) in auto)
  have pay: "payload (snd u) = payload (tHeap t)" and dom: "fmdom (snd u) = fmdom (tHeap t)" by (simp_all add: u_def)
  have "i64 (tBytes t - len64 (body (nEntry n))) = bytes_of body (content (tHeap t) (us @ vs))"
    using bytes W(3) n(2) bytes_nonneg[of body "content (tHeap t) us"] bytes_nonneg[of body "content (tHeap t) vs"]
      len64_nonneg[of "body (nEntry n)"] by (subst i64_id) auto
  then have eq: "removeNode body (Some a) t = Some (t\<lparr>tEntries := fmdrop (nKey n) (tEntries t),
      tBytes := bytes_of body (content (tHeap t) (us @ vs)), tOrder := fst u, tHeap := snd u\<rparr>)" (is "_ = Some ?t'")
    using n(1) ent bytes_nonneg[of body "content (tHeap t) (us @ vs)"]
    by (auto simp: removeNode_def fm_has_def Let_def split_beta u_def)
  have fresh: "nKey n \<notin> fst ` set (content (tHeap t) (us @ vs))" using keysd n(2) by auto
  have keys: "fst (the (payload (tHeap t) b)) \<noteq> nKey n" if "b \<in> set (us @ vs)" for b
    using that fresh unfolding content_def set_map image_image by (metis imageI)
  have "a \<notin> set (us @ vs)" using W(1) by (simp add: dll_def)
  then have look: "fmlookup (fmdrop (nKey n) (tEntries t)) k = Some b \<longleftrightarrow>
      b \<in> set (us @ vs) \<and> fst (the (payload (tHeap t) b)) = k" for k b
    using ents[of k b] keys[of b] n(2) by auto
  have con: "content (snd u) = content (tHeap t)" by (simp add: content_def fun_eq_iff pay)
  have "table_wf body ?t' (us @ vs)"
    using assms d W(2,3) bytes keysd look len64_nonneg[of "body (snd (the (payload (tHeap t) a)))"]
    by (auto simp: table_wf_def con pay dom)
  with eq con show ?thesis using that[of ?t'] by simp
qed

text \<open>Removing the least recently used entry.\<close>

lemma remove_tail_wf:
  assumes "table_wf body t as" and "as \<noteq> []"
  obtains t' where "removeNode body (lTail (tOrder t)) t = Some t'" and "table_wf body t' (butlast as)"
    and "content (tHeap t') (butlast as) = content (tHeap t) (butlast as)"
proof -
  have "as = butlast as @ last as # []" using assms(2) by simp
  then show ?thesis
    using removeNode_wf[of body t "butlast as" "last as" "[]"] assms that wf_tail[OF assms(1)]
    by (auto simp: final_def)
qed

lemma touch_node_wf:
  assumes "table_wf body t (us @ a # vs)"
  shows "table_wf body (touch_node a t) (a # us @ vs)" and "content (tHeap (touch_node a t)) = content (tHeap t)"
proof -
  define m where "m = moveToFront a (tOrder t, tHeap t)"
  have d: "dll m (a # us @ vs)"
    unfolding m_def by (rule moveToFront_dll) (use assms in \<open>auto simp: table_wf_def\<close>)
  have pay: "payload (snd m) = payload (tHeap t)" "fmdom (snd m) = fmdom (tHeap t)" by (simp_all add: m_def)
  then have con: "content (snd m) = content (tHeap t)" by (simp add: content_def fun_eq_iff)
  have t: "touch_node a t = t\<lparr>tOrder := fst m, tHeap := snd m\<rparr>" by (simp add: touch_node_def m_def split_beta)
  show "content (tHeap (touch_node a t)) = content (tHeap t)" by (simp add: t con)
  show "table_wf body (touch_node a t) (a # us @ vs)" using assms d unfolding table_wf_def t by (auto simp: con pay)
qed

lemma insert_node_wf:
  assumes "table_wf body t as" and "fmlookup (tEntries t) key = None" and "int (length as) < 65536"
    and "tBytes t + len64 (body e) \<le> 1073741824"
  shows "table_wf body (insert_node body key e t) (tFresh t # as)"
    and "content (tHeap (insert_node body key e t)) (tFresh t # as) = (key, e) # content (tHeap t) as"
proof -
  define a where "a = tFresh t"
  define h0 where "h0 = fmupd a \<lparr>nKey = key, nEntry = e, nPrev = None, nNext = None\<rparr> (tHeap t)"
  define p where "p = pushFront a (tOrder t, h0)"
  have new: "a \<notin> set as" using assms(1) by (auto simp: table_wf_def dll_def a_def dest: seg_dom)
  have "seg h0 None as None = seg (tHeap t) None as None"
    by (rule seg_cong) (use new in \<open>auto simp: h0_def prev_of_def next_of_def fmlookup_dom_iff\<close>)
  then have d0: "dll (tOrder t, h0) as" using assms(1) by (simp add: table_wf_def dll_def)
  have d: "dll p (a # as)"
    unfolding p_def by (rule pushFront_dll[OF d0 new]) (use assms in \<open>auto simp: h0_def table_wf_def\<close>)
  have pay: "payload (snd p) x = (if x = a then Some (key, e) else payload (tHeap t) x)" for x
    by (simp add: p_def h0_def payload_def)
  have con: "content (snd p) as = content (tHeap t) as"
    using new by (auto simp: content_def pay intro!: map_cong)
  have ins: "insert_node body key e t = t\<lparr>tEntries := fmupd key a (tEntries t), tOrder := fst p, tHeap := snd p,
      tFresh := Suc a, tBytes := i64 (tBytes t + len64 (body e))\<rparr>"
    by (simp add: insert_node_def Let_def split_beta a_def[symmetric] h0_def[symmetric] p_def[symmetric])
  show "content (tHeap (insert_node body key e t)) (tFresh t # as) = (key, e) # content (tHeap t) as"
    by (simp add: ins con pay flip: a_def)
  have nokey: "b \<in> set as \<Longrightarrow> fst (the (payload (tHeap t) b)) \<noteq> key" for b
    using wf_entries[OF assms(1), of key b] assms(2) by auto
  then have k: "key \<notin> fst ` set (content (tHeap t) as)" unfolding content_def set_map image_image by blast
  have look: "fmlookup (fmupd key a (tEntries t)) k = Some b \<longleftrightarrow>
      b \<in> set (a # as) \<and> fst (the (payload (snd p) b)) = k" for k b
    using wf_entries[OF assms(1), of k b] nokey[of b] new by (auto simp: pay)
  have "i64 (tBytes t + len64 (body e)) = tBytes t + len64 (body e)"
    using assms(1,4) bytes_nonneg[of body "content (tHeap t) as"] len64_nonneg[of "body e"]
    by (intro i64_id) (auto simp: table_wf_def)
  moreover have "fmdom (snd p) = finsert a (fmdom (tHeap t))" by (simp add: p_def h0_def)
  ultimately show "table_wf body (insert_node body key e t) (tFresh t # as)"
    using assms d look con k wf_keys[OF assms(1)]
    by (auto simp: table_wf_def ins pay less_Suc_eq simp flip: a_def)
qed

text \<open>Lookups by key on the table agree with lookups in the sequence.\<close>

lemma wf_absent:
  assumes "table_wf body t as" and "fmlookup (tEntries t) k = None"
  shows "map_of (content (tHeap t) as) k = None" and "without k (content (tHeap t) as) = content (tHeap t) as"
proof -
  have "\<forall>x \<in> set (content (tHeap t) as). fst x \<noteq> k"
    using wf_entries[OF assms(1), of k] assms(2) by (auto simp: content_def)
  then show "map_of (content (tHeap t) as) k = None" "without k (content (tHeap t) as) = content (tHeap t) as"
    by (auto simp: map_of_eq_None_iff without_def intro: filter_True)
qed

lemma wf_present:
  assumes "table_wf body t as" and "fmlookup (tEntries t) k = Some a"
  obtains us vs n where "as = us @ a # vs" and "fmlookup (tHeap t) a = Some n" and "nKey n = k"
    and "map_of (content (tHeap t) as) k = Some (nEntry n)"
    and "without k (content (tHeap t) as) = content (tHeap t) (us @ vs)"
    and "the (payload (tHeap t) a) = (k, nEntry n)"
proof -
  have a: "a \<in> set as" "fst (the (payload (tHeap t) a)) = k" using wf_entries[OF assms(1)] assms(2) by auto
  obtain us vs where as: "as = us @ a # vs" using a(1) by (meson split_list)
  obtain n where n: "fmlookup (tHeap t) a = Some n" "payload (tHeap t) a = Some (nKey n, nEntry n)"
    using wf_payload[OF assms(1) a(1)] by blast
  have p: "the (payload (tHeap t) a) = (k, nEntry n)" "nKey n = k" using n a(2) by auto
  have d: "k \<notin> fst ` set (content (tHeap t) us)" "k \<notin> fst ` set (content (tHeap t) vs)"
    using wf_keys[OF assms(1)] p by (auto simp: as)
  then have "without k (content (tHeap t) us) = content (tHeap t) us"
    "without k (content (tHeap t) vs) = content (tHeap t) vs"
    by (auto simp: without_def intro!: filter_True)
  moreover have "map_of (content (tHeap t) us) k = None" using d(1) by (simp add: map_of_eq_None_iff)
  ultimately show ?thesis
    using that[OF as n(1) p(2) _ _ p(1)] p(1) by (simp add: as map_add_def without_def)
qed

lemma wf_no_key:
  assumes "table_wf body t as" and "\<forall>x \<in> set (content (tHeap t) as). fst x \<noteq> key"
  shows "fmlookup (tEntries t) key = None"
proof (rule ccontr)
  assume "\<not> ?thesis"
  then obtain a where a: "a \<in> set as" "fst (the (payload (tHeap t) a)) = key" using wf_entries[OF assms(1)] by auto
  then have "the (payload (tHeap t) a) \<in> set (content (tHeap t) as)" by (auto simp: content_def)
  with assms(2) a(2) show False by blast
qed

end
