(* ===== verification/Cache.thy ===== *)
theory Cache
  imports LruTable Hashes
begin

text \<open>
  The exact-match response cache (\<^verbatim>\<open>src/internal/cache/cache.go\<close>): a table bounded in
  entries and in bytes, with a time to live.  Operations run on the pointer structure of the
  source; \<^const>\<open>None\<close> is the panic a nil dereference would raise.  The properties show that
  the structure is a plain least-recently-used list, that it never panics, that its bounds
  hold, and that a hit is never stale.
\<close>

record Cache_Entry =
  eBody :: string
  eContentType :: string
  eStatus :: int
  eCreatedAt :: gotime
  eDeployment :: string

record Cache_Stats =
  stHits :: int
  stMisses :: int
  stBypasses :: int
  stStores :: int
  stEntries :: int
  stBytesStored :: int

record Cache =
  cTTL :: duration
  cMaxEntries :: int
  cMaxBytes :: int
  cStats :: Cache_Stats
  cTable :: "Cache_Entry table"

definition zero_Stats :: Cache_Stats where
  "zero_Stats = \<lparr>stHits = 0, stMisses = 0, stBypasses = 0, stStores = 0, stEntries = 0, stBytesStored = 0\<rparr>"

abbreviation (input) maxEntriesCap :: int where
  "maxEntriesCap \<equiv> 65536"

definition New_cache :: "duration \<Rightarrow> int \<Rightarrow> int \<Rightarrow> Cache" where
  "New_cache ttl maxEntries maxTotalBytes =
     (let ttl' = (if ttl \<le> 0 then 5 * minute else ttl);
          me = (if maxEntries \<le> 0 then 256 else maxEntries);
          me' = (if maxEntriesCap < me then maxEntriesCap else me);
          mb = (if maxTotalBytes \<le> 0 then 67108864 else maxTotalBytes);
          mb' = (if 1073741824 < mb then 1073741824 else mb)
      in \<lparr>cTTL = ttl', cMaxEntries = me', cMaxBytes = mb', cStats = zero_Stats, cTable = empty_table\<rparr>)"

text \<open>The bytes that are hashed, and the key.\<close>

definition key_bytes :: "string \<Rightarrow> string \<Rightarrow> string \<Rightarrow> string" where
  "key_bytes path body context = path @ [CHR 0x00] @ body @ [CHR 0x00] @ context"

definition KeyWithContext :: "string \<Rightarrow> string \<Rightarrow> string \<Rightarrow> string" where
  "KeyWithContext path body context = EncodeToString (Sum256 (key_bytes path body context))"

definition Key :: "string \<Rightarrow> string \<Rightarrow> string" where
  "Key path body = KeyWithContext path body []"

section \<open>Operations\<close>

definition count_miss :: "Cache \<Rightarrow> Cache" where
  "count_miss c = c\<lparr>cStats := (cStats c)\<lparr>stMisses := i64 (stMisses (cStats c) + 1)\<rparr>\<rparr>"

definition Lookup :: "string \<Rightarrow> gotime \<Rightarrow> Cache \<Rightarrow> (Cache_Entry option \<times> Cache) option" where
  "Lookup key now c =
     (case fmlookup (tEntries (cTable c)) key of
        None \<Rightarrow> Some (None, count_miss c)
      | Some a \<Rightarrow>
        (case fmlookup (tHeap (cTable c)) a of
           None \<Rightarrow> None
         | Some n \<Rightarrow>
             if cTTL c < Sub now (eCreatedAt (nEntry n))
             then map_option (\<lambda>t. (None, count_miss (c\<lparr>cTable := t\<rparr>))) (removeNode eBody (Some a) (cTable c))
             else Some (Some (nEntry n),
                    c\<lparr>cTable := touch_node a (cTable c),
                      cStats := (cStats c)\<lparr>stHits := i64 (stHits (cStats c) + 1)\<rparr>\<rparr>)))"

text \<open>The loop of \<open>Store\<close> that evicts from the end until the new body fits.\<close>

function evict_bytes :: "int \<Rightarrow> int \<Rightarrow> Cache_Entry table \<Rightarrow> Cache_Entry table option" where
  "evict_bytes maxBytes sz t =
     (if maxBytes < i64 (tBytes t + sz) \<and> 0 < lLen (tOrder t)
      then (case removeNode eBody (lTail (tOrder t)) t of None \<Rightarrow> None | Some t' \<Rightarrow> evict_bytes maxBytes sz t')
      else Some t)"
  by pat_completeness auto

termination evict_bytes
proof (relation "measure (\<lambda>(mb, sz, t). nat (lLen (tOrder t)))")
  fix mb sz t t'
  assume "mb < i64 (tBytes t + sz) \<and> 0 < lLen (tOrder t)"
    and "removeNode eBody (lTail (tOrder t)) t = Some t'"
  then have "lLen (tOrder t') < lLen (tOrder t)" "0 < lLen (tOrder t)"
    by (simp_all add: removeNode_len i64_pred_less)
  then show "((mb, sz, t'), (mb, sz, t)) \<in> measure (\<lambda>(mb, sz, t). nat (lLen (tOrder t)))" by simp
qed simp

declare evict_bytes.simps [simp del]

definition Store :: "string \<Rightarrow> Cache_Entry \<Rightarrow> Cache \<Rightarrow> Cache option" where
  "Store key e c =
     (if eBody e = [] then Some c
      else if cMaxBytes c < len64 (eBody e) then Some c
      else Option.bind
             (case fmlookup (tEntries (cTable c)) key of
                None \<Rightarrow> Some (cTable c) | Some old \<Rightarrow> removeNode eBody (Some old) (cTable c))
             (\<lambda>t1. Option.bind (evict_bytes (cMaxBytes c) (len64 (eBody e)) t1)
             (\<lambda>t2. Option.bind
                (if cMaxEntries c \<le> lLen (tOrder t2) then removeNode eBody (lTail (tOrder t2)) t2 else Some t2)
             (\<lambda>t3. Some (c\<lparr>cTable := insert_node eBody key e t3,
                       cStats := (cStats c)\<lparr>stStores := i64 (stStores (cStats c) + 1)\<rparr>\<rparr>)))))"

definition Bypass :: "Cache \<Rightarrow> Cache" where
  "Bypass c = c\<lparr>cStats := (cStats c)\<lparr>stBypasses := i64 (stBypasses (cStats c) + 1)\<rparr>\<rparr>"

definition Invalidate_cache :: "Cache \<Rightarrow> Cache" where
  "Invalidate_cache c = c\<lparr>cTable := clear_table (cTable c)\<rparr>"

definition Reset :: "Cache \<Rightarrow> Cache" where
  "Reset c = c\<lparr>cTable := clear_table (cTable c), cStats := zero_Stats\<rparr>"

definition Stats_of :: "Cache \<Rightarrow> Cache_Stats" where
  "Stats_of c = (cStats c)\<lparr>stEntries := lLen (tOrder (cTable c)), stBytesStored := tBytes (cTable c)\<rparr>"

section \<open>The abstract cache\<close>

text \<open>
  What the cache promises: a list of keys and entries, most recently used first.  A store
  keeps the longest prefix that leaves room for the new body.
\<close>

type_synonym cache_lru = "Cache_Entry lru"

definition lru_lookup :: "duration \<Rightarrow> string \<Rightarrow> gotime \<Rightarrow> cache_lru \<Rightarrow> Cache_Entry option \<times> cache_lru" where
  "lru_lookup ttl key now xs =
     (case map_of xs key of
        None \<Rightarrow> (None, xs)
      | Some e \<Rightarrow> if ttl < Sub now (eCreatedAt e) then (None, without key xs)
                  else (Some e, (key, e) # without key xs))"

definition lru_store :: "int \<Rightarrow> int \<Rightarrow> string \<Rightarrow> Cache_Entry \<Rightarrow> cache_lru \<Rightarrow> cache_lru" where
  "lru_store maxEntries maxBytes key e xs =
     (if eBody e = [] \<or> maxBytes < len64 (eBody e) then xs
      else (key, e) # take (nat (maxEntries - 1)) (fit eBody (maxBytes - len64 (eBody e)) (without key xs)))"

section \<open>The pointer structure is the abstract cache\<close>

definition contents :: "Cache \<Rightarrow> cache_lru" where
  "contents c = table_content (cTable c)"

definition cache_wf :: "Cache \<Rightarrow> nat list \<Rightarrow> bool" where
  "cache_wf c as \<longleftrightarrow> table_wf eBody (cTable c) as \<and>
     1 \<le> cMaxEntries c \<and> cMaxEntries c \<le> maxEntriesCap \<and> 1 \<le> cMaxBytes c \<and> cMaxBytes c \<le> 1073741824 \<and>
     int (length as) \<le> cMaxEntries c \<and> tBytes (cTable c) \<le> cMaxBytes c"

abbreviation held :: "Cache \<Rightarrow> nat list \<Rightarrow> cache_lru" where
  "held c as \<equiv> content (tHeap (cTable c)) as"

text \<open>The configuration of a cache never changes.\<close>

definition same_config :: "Cache \<Rightarrow> Cache \<Rightarrow> bool" where
  "same_config c c' \<longleftrightarrow> cTTL c' = cTTL c \<and> cMaxEntries c' = cMaxEntries c \<and> cMaxBytes c' = cMaxBytes c"

lemma contents_wf: "cache_wf c as \<Longrightarrow> contents c = held c as"
  unfolding contents_def cache_wf_def by (blast intro: table_content_wf)

lemma Lookup_wf:
  assumes "cache_wf c as"
  obtains r c' as' where "Lookup key now c = Some (r, c')" and "cache_wf c' as'" and "same_config c c'"
    and "lru_lookup (cTTL c) key now (held c as) = (r, held c' as')"
proof (cases "fmlookup (tEntries (cTable c)) key")
  case None
  have "cache_wf (count_miss c) as" using assms by (simp add: cache_wf_def count_miss_def)
  then show ?thesis
    using that[of None "count_miss c" as] None wf_absent[of eBody "cTable c" as key] assms
    by (simp add: Lookup_def lru_lookup_def same_config_def count_miss_def cache_wf_def)
next
  case (Some a)
  have wf: "table_wf eBody (cTable c) as" using assms by (simp add: cache_wf_def)
  obtain us vs n where s: "as = us @ a # vs" "fmlookup (tHeap (cTable c)) a = Some n"
    "map_of (held c as) key = Some (nEntry n)" "without key (held c as) = held c (us @ vs)"
    "the (payload (tHeap (cTable c)) a) = (key, nEntry n)"
    by (rule wf_present[OF wf Some])
  show ?thesis
  proof (cases "cTTL c < Sub now (eCreatedAt (nEntry n))")
    case True
    obtain t where t: "removeNode eBody (Some a) (cTable c) = Some t" "table_wf eBody t (us @ vs)"
      "content (tHeap t) (us @ vs) = held c (us @ vs)"
      using removeNode_wf[of eBody "cTable c" us a vs] wf s(1) by blast
    have "cache_wf (count_miss (c\<lparr>cTable := t\<rparr>)) (us @ vs)"
      using assms t(2,3) s(1) wf_bytes[OF wf] wf_bytes[OF t(2)] len64_nonneg[of "eBody (snd (the (payload (tHeap (cTable c)) a)))"]
      by (auto simp: cache_wf_def count_miss_def)
    then show ?thesis
      using that[of None "count_miss (c\<lparr>cTable := t\<rparr>)" "us @ vs"] Some True t(1,3) s
      by (simp add: Lookup_def lru_lookup_def same_config_def count_miss_def)
  next
    case False
    define c' where "c' = c\<lparr>cTable := touch_node a (cTable c),
        cStats := (cStats c)\<lparr>stHits := i64 (stHits (cStats c) + 1)\<rparr>\<rparr>"
    note touch = touch_node_wf[of eBody "cTable c" us a vs, folded s(1), OF wf]
    have "tBytes (touch_node a (cTable c)) = tBytes (cTable c)" by (simp add: touch_node_def split_beta)
    then have "cache_wf c' (a # us @ vs)" using assms touch(1) by (simp add: cache_wf_def c'_def s(1))
    moreover have "held c' (a # us @ vs) = (key, nEntry n) # without key (held c as)"
      using s(4,5) by (simp add: c'_def touch(2))
    ultimately show ?thesis
      using that[of "Some (nEntry n)" c' "a # us @ vs"] Some False s(2,3)
      by (simp add: Lookup_def lru_lookup_def same_config_def c'_def)
  qed
qed

lemma evict_wf:
  assumes "table_wf eBody t as" and "0 \<le> sz" and "sz \<le> mb" and "mb \<le> 1073741824"
  obtains t' as' where "evict_bytes mb sz t = Some t'" and "table_wf eBody t' as'"
    and "content (tHeap t') as' = fit eBody (mb - sz) (content (tHeap t) as)" and "length as' \<le> length as"
  using assms
proof (induction mb sz t arbitrary: as thesis rule: evict_bytes.induct)
  case (1 mb sz t)
  note wf = \<open>table_wf eBody t as\<close>
  note b = wf_bytes[OF wf] wf_length[OF wf]
  have sum: "i64 (tBytes t + sz) = tBytes t + sz"
    using wf bytes_nonneg[of eBody "content (tHeap t) as"] 1(4-6) by (intro i64_id) (auto simp: table_wf_def)
  show ?case
  proof (cases "mb < tBytes t + sz \<and> as \<noteq> []")
    case True
    then obtain t1 where t1: "removeNode eBody (lTail (tOrder t)) t = Some t1" "table_wf eBody t1 (butlast as)"
      "content (tHeap t1) (butlast as) = content (tHeap t) (butlast as)"
      using remove_tail_wf[OF wf] by blast
    have cond: "mb < i64 (tBytes t + sz) \<and> 0 < lLen (tOrder t)" using True sum b(2) by simp
    obtain t' as' where t': "evict_bytes mb sz t1 = Some t'" "table_wf eBody t' as'"
      "content (tHeap t') as' = fit eBody (mb - sz) (content (tHeap t1) (butlast as))" "length as' \<le> length (butlast as)"
      using 1(1)[OF cond t1(1) _ t1(2)] 1(4-6) by auto
    have "content (tHeap t) as = content (tHeap t) (butlast as) @ [the (payload (tHeap t) (last as))]"
      using True content_simps(3)[of "tHeap t" "butlast as" "[last as]"] by simp
    moreover have "mb - sz < bytes_of eBody (content (tHeap t) as)" using True b(1) by simp
    ultimately have "fit eBody (mb - sz) (content (tHeap t) as) = fit eBody (mb - sz) (content (tHeap t) (butlast as))"
      by (metis fit_snoc)
    moreover have "evict_bytes mb sz t = Some t'" using cond t1(1) t'(1) by (subst evict_bytes.simps) simp
    ultimately show ?thesis using 1(2)[of t' as'] t' t1(3) by simp
  next
    case False
    then have "evict_bytes mb sz t = Some t" using sum b(2) by (subst evict_bytes.simps) auto
    moreover have "fit eBody (mb - sz) (content (tHeap t) as) = content (tHeap t) as"
      using False b(1) 1(5) by (cases "as = []") (auto intro: fit_all)
    ultimately show ?thesis using 1(2)[of t as] wf by simp
  qed
qed

text \<open>The other two steps of a store: drop the old entry, and make room for one more entry.\<close>

lemma drop_old_wf:
  assumes "table_wf eBody t as"
  obtains t1 as1 where "(case fmlookup (tEntries t) key of None \<Rightarrow> Some t | Some old \<Rightarrow> removeNode eBody (Some old) t) = Some t1"
    and "table_wf eBody t1 as1" and "content (tHeap t1) as1 = without key (content (tHeap t) as)" and "length as1 \<le> length as"
proof (cases "fmlookup (tEntries t) key")
  case None
  then show ?thesis using that[of t as] assms wf_absent[OF assms None] by simp
next
  case (Some a)
  obtain us vs where s: "as = us @ a # vs" "without key (content (tHeap t) as) = content (tHeap t) (us @ vs)"
    by (rule wf_present[OF assms Some])
  then obtain t1 where "removeNode eBody (Some a) t = Some t1" "table_wf eBody t1 (us @ vs)"
    "content (tHeap t1) (us @ vs) = content (tHeap t) (us @ vs)"
    using removeNode_wf[of eBody t us a vs] assms by blast
  then show ?thesis using that[of t1 "us @ vs"] Some s by simp
qed

lemma trim_entries_wf:
  assumes "table_wf eBody t as" and "int (length as) \<le> me" and "1 \<le> me"
  obtains t1 as1 where "(if me \<le> lLen (tOrder t) then removeNode eBody (lTail (tOrder t)) t else Some t) = Some t1"
    and "table_wf eBody t1 as1" and "content (tHeap t1) as1 = take (nat (me - 1)) (content (tHeap t) as)"
    and "int (length as1) < me"
proof -
  define as1 where "as1 = take (nat (me - 1)) as"
  have lt: "int (length as1) < me" using assms by (auto simp: as1_def min_def le_nat_iff)
  have con: "content (tHeap t) as1 = take (nat (me - 1)) (content (tHeap t) as)" by (simp add: as1_def content_take)
  show ?thesis
  proof (cases "me \<le> int (length as)")
    case True
    then have "as1 = butlast as" "as \<noteq> []" using assms by (auto simp: as1_def butlast_conv_take nat_diff_distrib)
    then show ?thesis using remove_tail_wf[OF assms(1)] that[of _ as1] True wf_length[OF assms(1)] con lt by metis
  next
    case False
    then have "as1 = as" by (simp add: as1_def)
    then show ?thesis using that[of t as1] False wf_length[OF assms(1)] assms con lt by simp
  qed
qed

lemma Store_wf:
  assumes "cache_wf c as"
  obtains c' as' where "Store key e c = Some c'" and "cache_wf c' as'" and "same_config c c'"
    and "held c' as' = lru_store (cMaxEntries c) (cMaxBytes c) key e (held c as)"
proof (cases "eBody e = [] \<or> cMaxBytes c < len64 (eBody e)")
  case True
  then show ?thesis using that[of c as] assms by (auto simp: Store_def lru_store_def same_config_def)
next
  case False
  have W: "table_wf eBody (cTable c) as" "1 \<le> cMaxEntries c" "cMaxEntries c \<le> 65536" "cMaxBytes c \<le> 1073741824"
    "int (length as) \<le> cMaxEntries c" "1 \<le> cMaxBytes c"
    using assms by (auto simp: cache_wf_def)
  define ys where "ys = without key (held c as)"
  obtain t1 as1 where t1: "(case fmlookup (tEntries (cTable c)) key of None \<Rightarrow> Some (cTable c)
      | Some old \<Rightarrow> removeNode eBody (Some old) (cTable c)) = Some t1"
    "table_wf eBody t1 as1" "content (tHeap t1) as1 = ys" "length as1 \<le> length as"
    using drop_old_wf[OF W(1)] unfolding ys_def by blast
  obtain t2 as2 where t2: "evict_bytes (cMaxBytes c) (len64 (eBody e)) t1 = Some t2" "table_wf eBody t2 as2"
    "content (tHeap t2) as2 = fit eBody (cMaxBytes c - len64 (eBody e)) ys" "length as2 \<le> length as1"
    using evict_wf[OF t1(2), of "len64 (eBody e)" "cMaxBytes c"] False len64_nonneg[of "eBody e"] W(4) t1(3) by auto
  obtain t3 as3 where t3: "(if cMaxEntries c \<le> lLen (tOrder t2) then removeNode eBody (lTail (tOrder t2)) t2 else Some t2) = Some t3"
    "table_wf eBody t3 as3" "content (tHeap t3) as3 = take (nat (cMaxEntries c - 1)) (content (tHeap t2) as2)"
    "int (length as3) < cMaxEntries c"
    by (rule trim_entries_wf[OF t2(2) _ W(2)]) (use W(5) t1(4) t2(4) in auto)
  have "set (content (tHeap t3) as3) \<subseteq> set ys" using t3(3) t2(3) set_fit by (metis order_trans set_take_subset)
  then have absent: "fmlookup (tEntries t3) key = None"
    by (intro wf_no_key[OF t3(2)]) (auto simp: ys_def without_def)
  have "bytes_of eBody (content (tHeap t3) as3) \<le> cMaxBytes c - len64 (eBody e)"
    unfolding t3(3) t2(3) using bytes_take fit_bytes[of "cMaxBytes c - len64 (eBody e)" eBody ys] False
    by (meson diff_ge_0_iff_ge leI order_trans)
  then have room: "tBytes t3 + len64 (eBody e) \<le> cMaxBytes c" using wf_bytes[OF t3(2)] by simp
  have ins: "table_wf eBody (insert_node eBody key e t3) (tFresh t3 # as3)"
    "content (tHeap (insert_node eBody key e t3)) (tFresh t3 # as3) = (key, e) # content (tHeap t3) as3"
    using insert_node_wf[OF t3(2) absent, of e] t3(4) room W(3,4) by auto
  have room2: "tBytes (insert_node eBody key e t3) \<le> cMaxBytes c"
    using wf_bytes[OF ins(1)] ins(2) wf_bytes[OF t3(2)] room by simp
  define c' where "c' = c\<lparr>cTable := insert_node eBody key e t3, cStats := (cStats c)\<lparr>stStores := i64 (stStores (cStats c) + 1)\<rparr>\<rparr>"
  have "Store key e c = Some c'" using False t1(1) t2(1) t3(1) by (simp add: Store_def c'_def)
  moreover have "cache_wf c' (tFresh t3 # as3)" using ins(1) W room2 t3(4) by (simp add: cache_wf_def c'_def)
  moreover have "held c' (tFresh t3 # as3) = lru_store (cMaxEntries c) (cMaxBytes c) key e (held c as)"
    using ins(2) t3(3) t2(3) False by (auto simp: lru_store_def ys_def c'_def)
  ultimately show ?thesis using that[of c' "tFresh t3 # as3"] by (simp add: same_config_def c'_def)
qed

section \<open>Runs of the cache\<close>

datatype cache_op = CLookup string gotime | CStore string Cache_Entry | CBypass | CInvalidate | CReset | CStats

datatype cache_out = Found "Cache_Entry option" | Occupancy int int | Done

fun cache_step :: "cache_op \<Rightarrow> Cache \<Rightarrow> (cache_out \<times> Cache) option" where
  "cache_step (CLookup k t) c = map_option (\<lambda>(r, c'). (Found r, c')) (Lookup k t c)"
| "cache_step (CStore k e) c = map_option (\<lambda>c'. (Done, c')) (Store k e c)"
| "cache_step CBypass c = Some (Done, Bypass c)"
| "cache_step CInvalidate c = Some (Done, Invalidate_cache c)"
| "cache_step CReset c = Some (Done, Reset c)"
| "cache_step CStats c = Some (Occupancy (stEntries (Stats_of c)) (stBytesStored (Stats_of c)), c)"

fun cache_run :: "cache_op list \<Rightarrow> Cache \<Rightarrow> (cache_out list \<times> Cache) option" where
  "cache_run [] c = Some ([], c)"
| "cache_run (x # xs) c =
     (case cache_step x c of
        None \<Rightarrow> None
      | Some (r, c') \<Rightarrow> map_option (\<lambda>(rs, c''). (r # rs, c'')) (cache_run xs c'))"

fun lru_step :: "duration \<Rightarrow> int \<Rightarrow> int \<Rightarrow> cache_op \<Rightarrow> cache_lru \<Rightarrow> cache_out \<times> cache_lru" where
  "lru_step ttl me mb (CLookup k t) xs = (let (r, ys) = lru_lookup ttl k t xs in (Found r, ys))"
| "lru_step ttl me mb (CStore k e) xs = (Done, lru_store me mb k e xs)"
| "lru_step ttl me mb CBypass xs = (Done, xs)"
| "lru_step ttl me mb CInvalidate xs = (Done, [])"
| "lru_step ttl me mb CReset xs = (Done, [])"
| "lru_step ttl me mb CStats xs = (Occupancy (int (length xs)) (bytes_of eBody xs), xs)"

fun lru_run :: "duration \<Rightarrow> int \<Rightarrow> int \<Rightarrow> cache_op list \<Rightarrow> cache_lru \<Rightarrow> cache_out list \<times> cache_lru" where
  "lru_run ttl me mb [] xs = ([], xs)"
| "lru_run ttl me mb (x # os) xs =
     (let (r, ys) = lru_step ttl me mb x xs; (rs, zs) = lru_run ttl me mb os ys in (r # rs, zs))"

lemma step_wf:
  assumes "cache_wf c as"
  obtains r c' as' where "cache_step x c = Some (r, c')" and "cache_wf c' as'" and "same_config c c'"
    and "lru_step (cTTL c) (cMaxEntries c) (cMaxBytes c) x (held c as) = (r, held c' as')"
proof (cases x)
  case (CLookup k t)
  obtain r c' as' where "Lookup k t c = Some (r, c')" "cache_wf c' as'" "same_config c c'"
    "lru_lookup (cTTL c) k t (held c as) = (r, held c' as')"
    by (rule Lookup_wf[OF assms])
  then show ?thesis using that[of "Found r" c' as'] CLookup by simp
next
  case (CStore k e)
  obtain c' as' where "Store k e c = Some c'" "cache_wf c' as'" "same_config c c'"
    "held c' as' = lru_store (cMaxEntries c) (cMaxBytes c) k e (held c as)"
    by (rule Store_wf[OF assms])
  then show ?thesis using that[of Done c' as'] CStore by simp
next
  case CBypass
  have "cache_wf (Bypass c) as" using assms by (simp add: cache_wf_def Bypass_def)
  then show ?thesis using that[of Done "Bypass c" as] CBypass by (simp add: Bypass_def same_config_def)
next
  case CInvalidate
  have "cache_wf (Invalidate_cache c) []"
    using assms clear_table_wf[of eBody "cTable c" as] by (simp add: cache_wf_def Invalidate_cache_def) (simp add: clear_table_def)
  then show ?thesis
    using that[of Done "Invalidate_cache c" "[]"] CInvalidate by (simp add: Invalidate_cache_def same_config_def)
next
  case CReset
  have "cache_wf (Reset c) []"
    using assms clear_table_wf[of eBody "cTable c" as] by (simp add: cache_wf_def Reset_def) (simp add: clear_table_def)
  then show ?thesis using that[of Done "Reset c" "[]"] CReset by (simp add: Reset_def same_config_def)
next
  case CStats
  have "lLen (tOrder (cTable c)) = int (length as)" "tBytes (cTable c) = bytes_of eBody (held c as)"
    using assms wf_length[of eBody] wf_bytes[of eBody] by (auto simp: cache_wf_def)
  then show ?thesis
    using that[of "Occupancy (int (length as)) (bytes_of eBody (held c as))" c as] assms CStats
    by (simp add: Stats_of_def same_config_def)
qed

lemma run_wf:
  assumes "cache_wf c as"
  obtains rs c' as' where "cache_run os c = Some (rs, c')" and "cache_wf c' as'" and "same_config c c'"
    and "lru_run (cTTL c) (cMaxEntries c) (cMaxBytes c) os (held c as) = (rs, held c' as')"
  using assms
proof (induction os arbitrary: c as thesis)
  case Nil
  then show ?case by (simp add: same_config_def)
next
  case (Cons x os)
  obtain r c1 as1 where st: "cache_step x c = Some (r, c1)" "cache_wf c1 as1" "same_config c c1"
    "lru_step (cTTL c) (cMaxEntries c) (cMaxBytes c) x (held c as) = (r, held c1 as1)"
    using step_wf[OF Cons.prems(2)] by blast
  obtain rs c2 as2 where rn: "cache_run os c1 = Some (rs, c2)" "cache_wf c2 as2" "same_config c1 c2"
    "lru_run (cTTL c1) (cMaxEntries c1) (cMaxBytes c1) os (held c1 as1) = (rs, held c2 as2)"
    using Cons.IH[OF _ st(2)] by blast
  have cfg: "cTTL c1 = cTTL c" "cMaxEntries c1 = cMaxEntries c" "cMaxBytes c1 = cMaxBytes c"
    using st(3) by (simp_all add: same_config_def)
  show ?case
    using Cons.prems(1)[of "r # rs" c2 as2] st rn[unfolded cfg] by (simp add: same_config_def)
qed

lemma New_cache_wf: "cache_wf (New_cache ttl me mb) []"
  using empty_table_wf[of eBody] by (simp add: New_cache_def cache_wf_def Let_def) (simp add: empty_table_def)

section \<open>Coherence of hits\<close>

text \<open>The entry last accepted for a key since the cache was last cleared.\<close>

fun note_op :: "int \<Rightarrow> (string \<rightharpoonup> Cache_Entry) \<Rightarrow> cache_op \<Rightarrow> (string \<rightharpoonup> Cache_Entry)" where
  "note_op mb m (CStore k e) = (if eBody e = [] \<or> mb < len64 (eBody e) then m else m(k \<mapsto> e))"
| "note_op mb m CInvalidate = Map.empty"
| "note_op mb m CReset = Map.empty"
| "note_op mb m _ = m"

definition latest :: "int \<Rightarrow> cache_op list \<Rightarrow> (string \<rightharpoonup> Cache_Entry)" where
  "latest mb os = foldl (note_op mb) Map.empty os"

definition coherent :: "(string \<rightharpoonup> Cache_Entry) \<Rightarrow> cache_lru \<Rightarrow> bool" where
  "coherent m xs \<longleftrightarrow> (\<forall>x \<in> set xs. m (fst x) = Some (snd x))"

lemma coherent_step:
  assumes "coherent m xs"
  shows "coherent (note_op mb m x) (snd (lru_step ttl me mb x xs))"
proof (cases x)
  case (CLookup k t)
  show ?thesis
  proof (cases "map_of xs k")
    case (Some e)
    then have "(k, e) \<in> set xs" by (rule map_of_SomeD)
    with assms Some CLookup show ?thesis
      using without_subset[of k xs] by (auto simp: coherent_def lru_lookup_def Let_def)
  qed (use assms CLookup in \<open>simp add: lru_lookup_def\<close>)
next
  case (CStore k e)
  have "set (take n (fit eBody b (without k xs))) \<subseteq> {x \<in> set xs. fst x \<noteq> k}" for n b
    using without_subset[of k xs] set_fit[of eBody b "without k xs"] set_take_subset[of n "fit eBody b (without k xs)"] by blast
  with assms CStore show ?thesis by (fastforce simp: coherent_def lru_store_def)
qed (use assms in \<open>simp_all add: coherent_def\<close>)

lemma coherent_run:
  "coherent m xs \<Longrightarrow> coherent (foldl (note_op mb) m os) (snd (lru_run ttl me mb os xs))"
proof (induction os arbitrary: m xs)
  case (Cons x os)
  then show ?case using coherent_step[OF Cons.prems, of mb x ttl me] by (auto simp: Let_def split_beta)
qed simp

lemma lru_run_append:
  "lru_run ttl me mb (os @ ps) xs =
     (let (rs, ys) = lru_run ttl me mb os xs; (qs, zs) = lru_run ttl me mb ps ys in (rs @ qs, zs))"
  by (induction os arbitrary: xs) (auto simp: Let_def split_beta)

lemma lru_lookup_hit:
  "fst (lru_lookup ttl k t xs) = Some e \<Longrightarrow> (k, e) \<in> set xs \<and> \<not> ttl < Sub t (eCreatedAt e)"
  by (auto simp: lru_lookup_def dest: map_of_SomeD split: option.splits if_splits)

section \<open>Keys\<close>

lemma split_at_nul:
  "CHR 0x00 \<notin> set a \<Longrightarrow> CHR 0x00 \<notin> set a' \<Longrightarrow> a @ CHR 0x00 # x = a' @ CHR 0x00 # x' \<Longrightarrow> a = a' \<and> x = x'"
proof (induction a arbitrary: a')
  case Nil
  then show ?case by (cases a') auto
next
  case (Cons y a)
  then show ?case by (cases a') auto
qed

text \<open>
  Two requests get the same cache key only if path, body and context are all equal,
  unless SHA-256 collides on the two hashed byte strings: the zero bytes between the parts
  keep them apart as long as paths and bodies contain none (a body is JSON text, which cannot).
\<close>

lemma cache_key_separates:
  assumes "KeyWithContext p b c = KeyWithContext p' b' c'"
    and "CHR 0x00 \<notin> set p \<union> set p' \<union> set b \<union> set b'"
  shows "(p, b, c) = (p', b', c') \<or>
    (key_bytes p b c \<noteq> key_bytes p' b' c' \<and> Sum256 (key_bytes p b c) = Sum256 (key_bytes p' b' c'))"
proof -
  have "Sum256 (key_bytes p b c) = Sum256 (key_bytes p' b' c')"
    by (rule EncodeToString_inj[OF Sum256_bytes Sum256_bytes]) (use assms(1) in \<open>simp only: KeyWithContext_def\<close>)
  moreover have "key_bytes p b c = key_bytes p' b' c' \<Longrightarrow> ?thesis"
  proof -
    assume "key_bytes p b c = key_bytes p' b' c'"
    then have "p = p' \<and> b @ CHR 0x00 # c = b' @ CHR 0x00 # c'"
      using assms(2) by (intro split_at_nul) (simp_all add: key_bytes_def)
    moreover from this have "b = b' \<and> c = c'" using assms(2) by (intro split_at_nul) simp_all
    ultimately show ?thesis by simp
  qed
  ultimately show ?thesis by blast
qed

section \<open>Properties\<close>

text \<open>C36: The pointer-based cache is a least-recently-used list: whatever operations follow its
  construction, none of them dereferences nil, and lookups, occupancy reports and contents
  are exactly those of the abstract list, which moves a hit to the front, drops expired
  entries, and on a store keeps the longest recently-used prefix that fits the bounds.
\<close>

theorem cache_refines_lru:
  "\<exists>rs c. cache_run os (New_cache ttl me mb) = Some (rs, c) \<and>
     lru_run (cTTL (New_cache ttl me mb)) (cMaxEntries (New_cache ttl me mb)) (cMaxBytes (New_cache ttl me mb)) os [] =
       (rs, contents c)"
proof -
  obtain rs c as where "cache_run os (New_cache ttl me mb) = Some (rs, c)" "cache_wf c as"
    "lru_run (cTTL (New_cache ttl me mb)) (cMaxEntries (New_cache ttl me mb)) (cMaxBytes (New_cache ttl me mb)) os
       (held (New_cache ttl me mb) []) = (rs, held c as)"
    by (rule run_wf[OF New_cache_wf])
  then show ?thesis by (simp add: contents_wf)
qed

text \<open>The bounds hold after every operation: no more entries than the configured maximum,
  which is never above 65536, byte accounting that equals the bytes actually held, and no
  more than the byte limit, which is never above one GiB.
\<close>

theorem cache_bounds:
  assumes "cache_run os (New_cache ttl me mb) = Some (rs, c)"
  shows "int (length (contents c)) \<le> cMaxEntries c \<and> cMaxEntries c \<le> 65536 \<and>
    tBytes (cTable c) = bytes_of eBody (contents c) \<and> tBytes (cTable c) \<le> cMaxBytes c \<and> cMaxBytes c \<le> 1073741824 \<and>
    distinct (map fst (contents c))"
proof -
  obtain rs' c' as where "cache_run os (New_cache ttl me mb) = Some (rs', c')" "cache_wf c' as"
    by (rule run_wf[OF New_cache_wf])
  with assms have c: "cache_wf c as" by simp
  then have "table_wf eBody (cTable c) as" by (simp add: cache_wf_def)
  with c show ?thesis using contents_wf[OF c] wf_bytes[of eBody] wf_keys[of eBody] by (auto simp: cache_wf_def)
qed

definition demo_entry :: "nat \<Rightarrow> gotime \<Rightarrow> Cache_Entry" where
  "demo_entry n t = \<lparr>eBody = replicate n (CHR ''x''), eContentType = ''json'', eStatus = 200, eCreatedAt = t,
     eDeployment = ''p/a''\<rparr>"

definition demo_ops :: "cache_op list" where
  "demo_ops = [CStore ''a'' (demo_entry 3 1), CStore ''b'' (demo_entry 4 2), CLookup ''a'' 3,
     CStore ''c'' (demo_entry 4 4)]"

theorem cache_bounds_witness:
  "\<exists>rs c. cache_run demo_ops (New_cache 100 2 10) = Some (rs, c) \<and> map fst (contents c) = [''c'', ''a''] \<and>
     tBytes (cTable c) \<le> cMaxBytes c"
proof -
  have "map_option (\<lambda>(rs, c). map fst (contents c)) (cache_run demo_ops (New_cache 100 2 10)) = Some [''c'', ''a'']"
    by code_simp
  then obtain rs c where "cache_run demo_ops (New_cache 100 2 10) = Some (rs, c)" "map fst (contents c) = [''c'', ''a'']"
    by auto
  then show ?thesis using cache_bounds[of demo_ops 100 2 10 rs c] by auto
qed

text \<open>C37: A hit is never stale: when a lookup ends a run with a hit, the entry it returns is the
  one last accepted for that very key since the cache was last cleared, and it is not older
  than the time to live.
\<close>

theorem cache_hit_is_last_store:
  assumes "cache_run (os @ [CLookup k t]) (New_cache ttl me mb) = Some (rs, c)"
    and "last rs = Found (Some e)"
  shows "latest (cMaxBytes (New_cache ttl me mb)) os k = Some e \<and>
    Sub t (eCreatedAt e) \<le> cTTL (New_cache ttl me mb)"
proof -
  let ?c = "New_cache ttl me mb"
  obtain rs' c' as where run: "cache_run (os @ [CLookup k t]) ?c = Some (rs', c')" "cache_wf c' as"
    "lru_run (cTTL ?c) (cMaxEntries ?c) (cMaxBytes ?c) (os @ [CLookup k t]) (held ?c []) =
       (rs', held c' as)"
    by (rule run_wf[OF New_cache_wf])
  define ys where "ys = snd (lru_run (cTTL ?c) (cMaxEntries ?c) (cMaxBytes ?c) os [])"
  have "last rs' = Found (fst (lru_lookup (cTTL ?c) k t ys))"
    using run(3) by (auto simp: lru_run_append Let_def split_beta ys_def)
  then have "fst (lru_lookup (cTTL ?c) k t ys) = Some e" using assms run(1) by simp
  then have hit: "(k, e) \<in> set ys" "\<not> cTTL ?c < Sub t (eCreatedAt e)" by (auto dest: lru_lookup_hit)
  have "coherent (latest (cMaxBytes ?c) os) ys"
    unfolding latest_def ys_def by (rule coherent_run) (simp add: coherent_def)
  with hit show ?thesis by (auto simp: coherent_def)
qed

theorem cache_hit_is_last_store_witness:
  "latest (cMaxBytes (New_cache 100 2 10)) demo_ops ''a'' = Some (demo_entry 3 1)"
proof -
  have "map_option (\<lambda>(rs, c). last rs) (cache_run (demo_ops @ [CLookup ''a'' 50]) (New_cache 100 2 10)) =
      Some (Found (Some (demo_entry 3 1)))"
    by code_simp
  then obtain rs c where "cache_run (demo_ops @ [CLookup ''a'' 50]) (New_cache 100 2 10) = Some (rs, c)"
    "last rs = Found (Some (demo_entry 3 1))"
    by auto
  then show ?thesis using cache_hit_is_last_store by blast
qed

end
