(* ===== verification/ControlPlane.thy ===== *)
theory ControlPlane
  imports Hashes
begin

text \<open>
  The control-plane store contract and its in-memory implementation
  (\<^verbatim>\<open>src/internal/controlplane/types.go\<close>, \<^verbatim>\<open>memory.go\<close>), the manager that adds
  last-known-good reads (\<^verbatim>\<open>manager.go\<close>) and the migration registry
  (\<^verbatim>\<open>migrations.go\<close>).  A cancelled context is a boolean argument of the operations that
  look at it; the clock reading of a write is an argument.

  The interface \<open>revision_store\<close> is what clients rely on: revision-guarded writes that either
  replace exactly the version the client read, or change nothing.
\<close>

datatype store_error = CtxDone | ErrNotFound | ErrConflict | ErrUnavailable | ErrInvalidRevision
  | ErrMalformedSnapshot | OtherError

datatype FailureMode = FailClosed | FailOpen | LastKnownGood | OtherMode string

definition mode_Valid :: "FailureMode \<Rightarrow> bool" where
  "mode_Valid m \<longleftrightarrow> m = FailClosed \<or> m = FailOpen \<or> m = LastKnownGood"

record CP_Snapshot =
  snRevision :: "64 word"
  snSchema :: int
  snPayload :: string
  snUpdatedAt :: gotime

record Availability =
  avConfig :: FailureMode
  avIdentity :: FailureMode
  avBudget :: FailureMode
  avRateLimit :: FailureMode

definition Availability_Validate :: "Availability \<Rightarrow> bool" where
  "Availability_Validate a \<longleftrightarrow>
     \<not> (\<not> mode_Valid (avConfig a) \<or> \<not> mode_Valid (avIdentity a) \<or> \<not> mode_Valid (avBudget a) \<or> \<not> mode_Valid (avRateLimit a))"

definition zero_CP_Snapshot :: CP_Snapshot where
  "zero_CP_Snapshot = \<lparr>snRevision = 0, snSchema = 0, snPayload = [], snUpdatedAt = 0\<rparr>"

section \<open>The in-memory store\<close>

record MemoryStore =
  msItems :: "(string, CP_Snapshot) fmap"
  msFailed :: bool

definition NewMemoryStore :: MemoryStore where
  "NewMemoryStore = \<lparr>msItems = fmempty, msFailed = False\<rparr>"

definition SetUnavailable :: "bool \<Rightarrow> MemoryStore \<Rightarrow> MemoryStore" where
  "SetUnavailable v s = s\<lparr>msFailed := v\<rparr>"

definition ms_Get :: "bool \<Rightarrow> string \<Rightarrow> MemoryStore \<Rightarrow> store_error + CP_Snapshot" where
  "ms_Get cx ns s =
     (if cx then Inl CtxDone
      else if msFailed s then Inl ErrUnavailable
      else case fmlookup (msItems s) ns of None \<Rightarrow> Inl ErrNotFound | Some v \<Rightarrow> Inr v)"

definition ms_Put :: "bool \<Rightarrow> string \<Rightarrow> 64 word \<Rightarrow> string \<Rightarrow> gotime \<Rightarrow> MemoryStore \<Rightarrow> (store_error + CP_Snapshot) \<times> MemoryStore" where
  "ms_Put cx ns expected payload now s =
     (if cx then (Inl CtxDone, s)
      else if ns = [] \<or> payload = [] then (Inl ErrNotFound, s)
      else if msFailed s then (Inl ErrUnavailable, s)
      else (let old = fmlookup (msItems s) ns in
            if (case old of Some v \<Rightarrow> snRevision v \<noteq> expected | None \<Rightarrow> False) then (Inl ErrConflict, s)
            else if old = None \<and> expected \<noteq> 0 then (Inl ErrConflict, s)
            else (let sch = (case old of Some v \<Rightarrow> snSchema v | None \<Rightarrow> 0);
                      next = \<lparr>snRevision = expected + 1, snSchema = (if sch = 0 then 1 else sch),
                              snPayload = payload, snUpdatedAt = now\<rparr>
                  in (Inr next, s\<lparr>msItems := fmupd ns next (msItems s)\<rparr>))))"

definition ms_Delete :: "bool \<Rightarrow> string \<Rightarrow> 64 word \<Rightarrow> MemoryStore \<Rightarrow> store_error option \<times> MemoryStore" where
  "ms_Delete cx ns expected s =
     (if cx then (Some CtxDone, s)
      else if msFailed s then (Some ErrUnavailable, s)
      else case fmlookup (msItems s) ns of
             None \<Rightarrow> (Some ErrNotFound, s)
           | Some old \<Rightarrow> if snRevision old \<noteq> expected then (Some ErrConflict, s)
                         else (None, s\<lparr>msItems := fmdrop ns (msItems s)\<rparr>))"

definition EqualPayload :: "CP_Snapshot \<Rightarrow> CP_Snapshot \<Rightarrow> bool" where
  "EqualPayload a b \<longleftrightarrow> snRevision a = snRevision b \<and> snPayload a = snPayload b"

section \<open>The contract of a revision-guarded document\<close>

text \<open>
  The revision of a document that may not exist yet, and how it may change under other
  writers: not at all, or to a later revision.
\<close>

definition doc_rev :: "CP_Snapshot option \<Rightarrow> 64 word" where
  "doc_rev d = (case d of None \<Rightarrow> 0 | Some x \<Rightarrow> snRevision x)"

definition doc_evolves :: "CP_Snapshot option \<Rightarrow> CP_Snapshot option \<Rightarrow> bool" where
  "doc_evolves d d' \<longleftrightarrow> d' = d \<or> doc_rev d < doc_rev d'"

text \<open>
  One document of a store: \<open>load\<close> reads it, \<open>cas\<close> replaces it under a revision
  precondition, \<open>doc\<close> is what is stored.
\<close>

locale revision_store =
  fixes load :: "'s \<Rightarrow> store_error + CP_Snapshot"
    and cas :: "64 word \<Rightarrow> string \<Rightarrow> 's \<Rightarrow> (store_error + CP_Snapshot) \<times> 's"
    and doc :: "'s \<Rightarrow> CP_Snapshot option"
  assumes load_hit: "load s = Inr v \<Longrightarrow> doc s = Some v"
    and load_missing: "load s = Inl ErrNotFound \<Longrightarrow> doc s = None"
    and cas_guard: "cas r p s = (Inr v, s') \<Longrightarrow> r = doc_rev (doc s)"
    and cas_write: "cas r p s = (Inr v, s') \<Longrightarrow> doc s' = Some v \<and> snRevision v = r + 1 \<and> snPayload v = p"
    and cas_keep: "cas r p s = (Inl e, s') \<Longrightarrow> s' = s"
begin

text \<open>A successful write replaces exactly the version that was read.\<close>

lemma cas_replaces_what_was_read:
  assumes "doc_evolves (doc s) (doc s1)" and "cas (doc_rev (doc s)) p s1 = (Inr v, s')"
  shows "doc s1 = doc s"
proof -
  have "doc_rev (doc s) = doc_rev (doc s1)" by (rule cas_guard[OF assms(2)])
  with assms(1) show ?thesis unfolding doc_evolves_def by (metis order_less_irrefl)
qed

lemma cas_evolves:
  assumes "cas r p s = (Inr v, s')" and "r \<noteq> - 1"
  shows "doc_evolves (doc s) (doc s')"
proof -
  have "1 + r \<noteq> 0" using assms(2) by (metis add.commute add_eq_0_iff)
  then have "r < r + 1" by (simp add: word_less_nat_alt unatSuc add.commute)
  moreover have "doc_rev (doc s) = r" using cas_guard[OF assms(1)] by simp
  moreover have "doc_rev (doc s') = r + 1" using cas_write[OF assms(1)] by (simp add: doc_rev_def)
  ultimately show ?thesis by (simp add: doc_evolves_def)
qed

end

definition ms_doc :: "string \<Rightarrow> MemoryStore \<Rightarrow> CP_Snapshot option" where
  "ms_doc ns s = fmlookup (msItems s) ns"

lemma ms_Put_ok:
  assumes "ms_Put cx ns r p now s = (Inr v, s')"
  shows "r = doc_rev (ms_doc ns s)"
    and "ms_doc ns s' = Some v \<and> snRevision v = r + 1 \<and> snPayload v = p"
    and "s' = s\<lparr>msItems := fmupd ns v (msItems s)\<rparr>" and "\<not> cx" "\<not> msFailed s" "p \<noteq> []"
  using assms
  by (auto simp: ms_Put_def ms_doc_def doc_rev_def Let_def split: if_splits option.splits)

lemma ms_Put_fail: "ms_Put cx ns r p now s = (Inl e, s') \<Longrightarrow> s' = s"
  by (auto simp: ms_Put_def Let_def split: if_splits)

interpretation ms: revision_store "ms_Get cx ns" "\<lambda>r p. ms_Put cx ns r p now" "ms_doc ns" for cx ns now
proof
  fix s v assume "ms_Get cx ns s = Inr v"
  then show "ms_doc ns s = Some v" by (auto simp: ms_Get_def ms_doc_def split: if_splits option.splits)
next
  fix s assume "ms_Get cx ns s = Inl ErrNotFound"
  then show "ms_doc ns s = None" by (auto simp: ms_Get_def ms_doc_def split: if_splits option.splits)
qed (erule ms_Put_ok(1), erule ms_Put_ok(2), erule ms_Put_fail)

section \<open>The manager\<close>

record CP_Manager =
  cmMode :: FailureMode
  cmLast :: "(string, CP_Snapshot) fmap"
  cmLoads :: "64 word"
  cmSaves :: "64 word"
  cmUnavailable :: "64 word"
  cmConflicts :: "64 word"

definition NewManager :: "bool \<Rightarrow> FailureMode \<Rightarrow> store_error + CP_Manager" where
  "NewManager hasStore mode =
     (if \<not> hasStore then Inl ErrUnavailable
      else if \<not> mode_Valid mode then Inl ErrInvalidRevision
      else Inr \<lparr>cmMode = mode, cmLast = fmempty, cmLoads = 0, cmSaves = 0, cmUnavailable = 0, cmConflicts = 0\<rparr>)"

definition count_error :: "store_error \<Rightarrow> CP_Manager \<Rightarrow> CP_Manager" where
  "count_error e m =
     (let m1 = (if e = ErrUnavailable then m\<lparr>cmUnavailable := cmUnavailable m + 1\<rparr> else m)
      in if e = ErrConflict then m1\<lparr>cmConflicts := cmConflicts m1 + 1\<rparr> else m1)"

text \<open>
  The store is called without the lock; what it answered is then recorded in a critical
  section of its own.  Both halves of a read are definitions, so that calls can interleave.
\<close>

definition Load_record :: "string \<Rightarrow> store_error + CP_Snapshot \<Rightarrow> CP_Manager \<Rightarrow> (store_error + CP_Snapshot) \<times> CP_Manager" where
  "Load_record ns answer m =
     (case answer of
        Inr v \<Rightarrow> (Inr v, m\<lparr>cmLast := fmupd ns v (cmLast m)\<rparr>)
      | Inl e \<Rightarrow>
          (let m1 = count_error e m in
           if e \<noteq> ErrUnavailable \<or> cmMode m1 \<noteq> LastKnownGood then (Inl e, m1)
           else case fmlookup (cmLast m1) ns of None \<Rightarrow> (Inl ErrUnavailable, m1) | Some v \<Rightarrow> (Inr v, m1)))"

definition cm_Load :: "string \<Rightarrow> store_error + CP_Snapshot \<Rightarrow> CP_Manager \<Rightarrow> (store_error + CP_Snapshot) \<times> CP_Manager" where
  "cm_Load ns answer m = Load_record ns answer (m\<lparr>cmLoads := cmLoads m + 1\<rparr>)"

definition cm_Save :: "string \<Rightarrow> store_error + CP_Snapshot \<Rightarrow> CP_Manager \<Rightarrow> (store_error + CP_Snapshot) \<times> CP_Manager" where
  "cm_Save ns answer m =
     (case answer of
        Inl e \<Rightarrow> (Inl e, count_error e m)
      | Inr v \<Rightarrow> (Inr v, m\<lparr>cmSaves := cmSaves m + 1, cmLast := fmupd ns v (cmLast m)\<rparr>))"

definition cm_Invalidate :: "string \<Rightarrow> CP_Manager \<Rightarrow> CP_Manager" where
  "cm_Invalidate ns m = m\<lparr>cmLast := fmdrop ns (cmLast m)\<rparr>"

definition LastKnown :: "string \<Rightarrow> CP_Manager \<Rightarrow> CP_Snapshot option" where
  "LastKnown ns m = fmlookup (cmLast m) ns"

record ReconcileResult =
  rcNamespace :: string
  rcRevision :: "64 word"
  rcSource :: string

definition Reconcile :: "string \<Rightarrow> store_error + CP_Snapshot \<Rightarrow> CP_Manager \<Rightarrow> (store_error + ReconcileResult) \<times> CP_Manager" where
  "Reconcile ns answer m0 =
     (let m = m0\<lparr>cmLoads := cmLoads m0 + 1\<rparr> in
      case answer of
        Inr v \<Rightarrow> (Inr \<lparr>rcNamespace = ns, rcRevision = snRevision v, rcSource = ''durable''\<rparr>,
                  m\<lparr>cmLast := fmupd ns v (cmLast m)\<rparr>)
      | Inl e \<Rightarrow>
          if e \<noteq> ErrUnavailable \<or> cmMode m \<noteq> LastKnownGood then (Inl e, m)
          else (let m1 = m\<lparr>cmUnavailable := cmUnavailable m + 1\<rparr> in
                case LastKnown ns m1 of
                  None \<Rightarrow> (Inl ErrUnavailable, m1)
                | Some v \<Rightarrow> (Inr \<lparr>rcNamespace = ns, rcRevision = snRevision v, rcSource = ''last_known_good''\<rparr>, m1)))"

definition Health_of :: "CP_Manager \<Rightarrow> 64 word \<times> 64 word \<times> 64 word \<times> 64 word" where
  "Health_of m = (cmLoads m, cmSaves m, cmUnavailable m, cmConflicts m)"

section \<open>Migrations\<close>

record Migration =
  mgVersion :: "64 word"
  mgName :: string
  mgUp :: string
  mgDown :: string

definition Checksum :: "Migration \<Rightarrow> string" where
  "Checksum m = EncodeToString (Sum256 (FormatUint (mgVersion m) @ [CHR 0x00] @ mgName m @ [CHR 0x00] @ mgUp m @
     [CHR 0x00] @ mgDown m))"

datatype migration_error = InvalidMigration | DuplicateVersion | ChecksumMismatch "64 word"

fun check_migrations :: "Migration option \<Rightarrow> Migration list \<Rightarrow> migration_error option" where
  "check_migrations prev [] = None"
| "check_migrations prev (m # ms) =
     (if mgVersion m = 0 \<or> mgName m = [] \<or> mgUp m = [] then Some InvalidMigration
      else if (case prev of Some p \<Rightarrow> mgVersion p = mgVersion m | None \<Rightarrow> False) then Some DuplicateVersion
      else check_migrations (Some m) ms)"

definition NewMigrationRegistry :: "Migration list \<Rightarrow> migration_error + Migration list" where
  "NewMigrationRegistry items =
     (let sorted = SliceStable (\<lambda>a b. mgVersion a < mgVersion b) items
      in case check_migrations None sorted of Some e \<Rightarrow> Inl e | None \<Rightarrow> Inr sorted)"

fun Pending :: "Migration list \<Rightarrow> (64 word, string) fmap \<Rightarrow> migration_error + Migration list" where
  "Pending [] applied = Inr []"
| "Pending (m # ms) applied =
     (case fmlookup applied (mgVersion m) of
        Some checksum \<Rightarrow> if checksum \<noteq> Checksum m then Inl (ChecksumMismatch (mgVersion m)) else Pending ms applied
      | None \<Rightarrow> map_sum id (\<lambda>rest. m # rest) (Pending ms applied))"

section \<open>Migrations in order\<close>

interpretation version_order: weak_order "\<lambda>a b. mgVersion a < mgVersion b"
  by (rule weak_order_key)

lemma check_strict:
  assumes "check_migrations prev ms = None" and "sorted_wrt (\<lambda>a b. \<not> mgVersion b < mgVersion a) ms"
    and "\<forall>m \<in> set ms. \<forall>p. prev = Some p \<longrightarrow> mgVersion p \<le> mgVersion m"
  shows "sorted_wrt (<) (map mgVersion ms) \<and> (\<forall>m \<in> set ms. \<forall>p. prev = Some p \<longrightarrow> mgVersion p < mgVersion m)"
  using assms
proof (induction prev ms rule: check_migrations.induct)
  case (2 prev m ms)
  have rest: "check_migrations (Some m) ms = None" and new: "\<forall>p. prev = Some p \<longrightarrow> mgVersion p < mgVersion m"
    using 2(2,4) by (auto split: if_splits option.splits simp: less_le)
  have "sorted_wrt (<) (map mgVersion ms) \<and> (\<forall>x \<in> set ms. \<forall>p. Some m = Some p \<longrightarrow> mgVersion p < mgVersion x)"
    by (rule 2(1)) (use 2(2,3) rest in \<open>auto split: if_splits option.splits\<close>)
  then show ?case using new by (auto intro: order_less_trans)
qed simp

lemma registry_strict:
  assumes "NewMigrationRegistry items = Inr ms"
  shows "sorted_wrt (<) (map mgVersion ms)" and "set ms = set items"
proof -
  have ms: "ms = SliceStable (\<lambda>a b. mgVersion a < mgVersion b) items" and ok: "check_migrations None ms = None"
    using assms by (auto simp: NewMigrationRegistry_def Let_def split: option.splits)
  show "sorted_wrt (<) (map mgVersion ms)"
    using check_strict[OF ok] version_order.ordered_sort[of items] by (simp add: ms)
  show "set ms = set items" by (simp add: ms)
qed

lemma Pending_ok:
  "Pending ms applied = Inr todo \<Longrightarrow>
     todo = filter (\<lambda>m. fmlookup applied (mgVersion m) = None) ms \<and>
     (\<forall>m \<in> set ms. \<forall>c. fmlookup applied (mgVersion m) = Some c \<longrightarrow> c = Checksum m)"
proof (induction ms arbitrary: todo)
  case (Cons m ms)
  then show ?case
    by (cases "Pending ms applied") (auto split: option.splits if_splits)
qed simp

lemma Pending_fails:
  "Pending ms applied = Inl e \<Longrightarrow> \<exists>m \<in> set ms. \<exists>c. fmlookup applied (mgVersion m) = Some c \<and> c \<noteq> Checksum m"
proof (induction ms)
  case (Cons m ms)
  then show ?case
    by (cases "Pending ms applied") (auto split: option.splits if_splits)
qed simp

section \<open>Properties\<close>

text \<open>A write accepted by the in-memory store is read back as it was written, at the next
  revision, and touches no other namespace; a second writer that read the same version is
  refused with a conflict and changes nothing.
\<close>

theorem put_get_roundtrip:
  assumes "ms_Put cx ns r p now s = (Inr v, s')"
  shows "ms_Get False ns s' = Inr v \<and> snPayload v = p \<and> snRevision v = r + 1 \<and>
    (\<forall>ns'. ns' \<noteq> ns \<longrightarrow> ms_Get False ns' s' = ms_Get False ns' s) \<and>
    (\<forall>q t. q \<noteq> [] \<longrightarrow> ms_Put False ns r q t s' = (Inl ErrConflict, s'))"
proof -
  note ok = ms_Put_ok[OF assms]
  have "ns \<noteq> []" using assms by (auto simp: ms_Put_def split: if_splits)
  moreover have "r + 1 \<noteq> r" by simp
  ultimately show ?thesis using ok by (auto simp: ms_Get_def ms_Put_def ms_doc_def)
qed

theorem put_get_roundtrip_witness:
  "ms_Get False ''n'' (snd (ms_Put False ''n'' 0 ''doc'' 5 NewMemoryStore)) =
     Inr \<lparr>snRevision = 1, snSchema = 1, snPayload = ''doc'', snUpdatedAt = 5\<rparr>"
proof -
  let ?v = "\<lparr>snRevision = 1, snSchema = 1, snPayload = ''doc'', snUpdatedAt = 5\<rparr>"
  have "ms_Put False ''n'' 0 ''doc'' 5 NewMemoryStore = (Inr ?v, \<lparr>msItems = fmupd ''n'' ?v fmempty, msFailed = False\<rparr>)"
    by (simp add: ms_Put_def NewMemoryStore_def Let_def)
  from this put_get_roundtrip[OF this] show ?thesis by simp
qed

text \<open>C38: Migrations fail closed: a registry is strictly ascending by version, what it reports as
  pending is exactly its migrations that were never applied, in that order, and it reports an
  error precisely when a recorded checksum differs from the migration of that version.
\<close>

theorem migrations_fail_closed:
  assumes "NewMigrationRegistry items = Inr ms"
  shows "case Pending ms applied of
      Inr todo \<Rightarrow> sorted_wrt (<) (map mgVersion todo) \<and>
        set todo = {m \<in> set items. fmlookup applied (mgVersion m) = None} \<and>
        (\<forall>m \<in> set items. \<forall>c. fmlookup applied (mgVersion m) = Some c \<longrightarrow> c = Checksum m)
    | Inl e \<Rightarrow> \<exists>m \<in> set items. \<exists>c. fmlookup applied (mgVersion m) = Some c \<and> c \<noteq> Checksum m"
proof (cases "Pending ms applied")
  case (Inl e)
  then show ?thesis using Pending_fails[OF Inl] registry_strict(2)[OF assms] by simp
next
  case (Inr todo)
  note ok = Pending_ok[OF Inr]
  have "sorted_wrt (<) (map mgVersion todo)"
    using registry_strict(1)[OF assms] ok by (simp add: sorted_wrt_map sorted_wrt_filter)
  then show ?thesis using Inr ok registry_strict(2)[OF assms] by auto
qed

definition demo_migration :: "64 word \<Rightarrow> Migration" where
  "demo_migration v = \<lparr>mgVersion = v, mgName = ''m'', mgUp = ''up'', mgDown = []\<rparr>"

theorem migrations_fail_closed_witness:
  "Pending [demo_migration 1, demo_migration 2] fmempty = Inr [demo_migration 1, demo_migration 2] \<and>
   sorted_wrt (<) (map mgVersion [demo_migration 1, demo_migration 2])"
  using migrations_fail_closed[of "[demo_migration 2, demo_migration 1]" "[demo_migration 1, demo_migration 2]" fmempty]
  by (simp add: NewMigrationRegistry_def demo_migration_def Let_def)

text \<open>Reconciling can replace a newer revision by an older one in the last-known-good table,
  although its comment says it does not: the store is read before the lock is taken, and
  whatever was read is recorded without comparing revisions.  Here revision 1 is read, a save
  records revision 2, and then the reconciliation puts revision 1 back.
\<close>

theorem reconcile_overwrites_newer:
  "\<exists>m0 s1 s2 v1 v2 m1 m2. NewManager True LastKnownGood = Inr m0 \<and>
     ms_Put False ''n'' 0 ''a'' 5 NewMemoryStore = (Inr v1, s1) \<and> ms_Get False ''n'' s1 = Inr v1 \<and>
     ms_Put False ''n'' 1 ''b'' 6 s1 = (Inr v2, s2) \<and> cm_Save ''n'' (Inr v2) m0 = (Inr v2, m1) \<and>
     snRevision (the (LastKnown ''n'' m1)) = 2 \<and>
     m2 = snd (Reconcile ''n'' (ms_Get False ''n'' s1) m1) \<and> snRevision (the (LastKnown ''n'' m2)) = 1"
  by (simp add: NewManager_def mode_Valid_def ms_Put_def NewMemoryStore_def ms_Get_def cm_Save_def LastKnown_def
      Reconcile_def Let_def)

end
