(* ===== verification/Utf8.thy ===== *)
theory Utf8
  imports Prelude
begin

text \<open>
  Well-formed UTF-8, as the package \<^verbatim>\<open>unicode/utf8\<close> of Go decides it: no overlong forms, no
  surrogates, nothing above U+10FFFF.  Go strings are arbitrary bytes; \<^verbatim>\<open>encoding/json\<close> keeps
  well-formed ones and replaces every other byte sequence by U+FFFD, so what is read back is
  only known to be what was written for strings that are well-formed.
\<close>

definition continuation :: "nat \<Rightarrow> bool" where
  "continuation b \<longleftrightarrow> 128 \<le> b \<and> b \<le> 191"

fun utf8_bytes :: "nat list \<Rightarrow> bool" where
  "utf8_bytes [] \<longleftrightarrow> True"
| "utf8_bytes (a # s) \<longleftrightarrow>
     (if a < 128 then utf8_bytes s
      else case s of
        [] \<Rightarrow> False
      | b # s1 \<Rightarrow>
          if 194 \<le> a \<and> a \<le> 223 then continuation b \<and> utf8_bytes s1
          else case s1 of
            [] \<Rightarrow> False
          | c # s2 \<Rightarrow>
              if 224 \<le> a \<and> a \<le> 239
              then (if a = 224 then 160 \<le> b \<and> b \<le> 191 else if a = 237 then 128 \<le> b \<and> b \<le> 159 else continuation b) \<and>
                   continuation c \<and> utf8_bytes s2
              else case s2 of
                [] \<Rightarrow> False
              | d # s3 \<Rightarrow>
                  240 \<le> a \<and> a \<le> 244 \<and>
                  (if a = 240 then 144 \<le> b \<and> b \<le> 191 else if a = 244 then 128 \<le> b \<and> b \<le> 143 else continuation b) \<and>
                  continuation c \<and> continuation d \<and> utf8_bytes s3)"

definition utf8 :: "string \<Rightarrow> bool" where
  "utf8 s = utf8_bytes (map of_char s)"

lemma utf8_Nil [simp]: "utf8 []"
  by (simp add: utf8_def)

lemma utf8_ascii [simp]: "utf8 (c # s) \<longleftrightarrow> utf8 s" if "of_char c < (128 :: nat)"
  using that by (simp add: utf8_def)

text \<open>An overlong form and a surrogate are not well-formed, the euro sign is.\<close>

lemma utf8_examples:
  "\<not> utf8_bytes [192, 128]" "\<not> utf8_bytes [237, 160, 128]" "utf8_bytes [226, 130, 172]" "\<not> utf8_bytes [255]"
  by (simp_all add: continuation_def)

end
