(* ===== verification/SharedState.thy ===== *)
theory SharedState
  imports ControlPlane Utf8
begin

text \<open>
  Shared circuit-breaker markers (\<^verbatim>\<open>src/internal/sharedstate/breaker.go\<close>,
  \<^verbatim>\<open>breaker_store.go\<close>, \<^verbatim>\<open>store.go\<close>): entries per deployment, their normalisation and
  merge, the document codec, and the revision-guarded publication protocol.

  \<^item> The status of an entry is the string of the document, so that unknown values reach the
    code that rejects them.
  \<^item> \<^verbatim>\<open>encoding/json\<close> is not part of the repository.  \<open>render\<close> stands for the marshalling of
    a document (it may fail), \<open>parse\<close> for the unmarshalling of a payload: the schema number
    and, per deployment, the entry or its failure to decode.  What the properties rely on is
    \<open>json_codec\<close>: unmarshalled strings are well-formed UTF-8, and a document whose strings are
    is read back as it was written.
  \<^item> The clock of a store is an argument of its operations.
  \<^item> The order in which Go visits the maps is the argument \<open>iter\<close>; the lemmas show that
    nothing depends on it.
  \<^item> Other replicas write between the store calls of a publication: \<open>env\<close> says what they did
    before the n-th call.
\<close>

record SharedEntry =
  seStatus :: string
  seCooldownUntil :: gotime
  seReasonClass :: string
  seOriginReplica :: string
  seObservedAt :: gotime

type_synonym marks = "(string, SharedEntry) fmap"

abbreviation (input) StatusCooldown :: string where
  "StatusCooldown \<equiv> ''cooldown''"

abbreviation (input) StatusRetired :: string where
  "StatusRetired \<equiv> ''retired''"

datatype entry_error = ZeroObservation | NoDeadline | UnknownStatus string | EmptyDeployment

text \<open>An invalid entry is an error; an expired one is no entry.\<close>

definition NormalizeEntry :: "SharedEntry \<Rightarrow> gotime \<Rightarrow> duration \<Rightarrow> entry_error + SharedEntry option" where
  "NormalizeEntry e now maxCooldown =
     (if IsZero now then Inl ZeroObservation
      else if seStatus e = StatusRetired then Inr (Some (e\<lparr>seCooldownUntil := 0\<rparr>))
      else if seStatus e = StatusCooldown then
        (if IsZero (seCooldownUntil e) then Inl NoDeadline
         else if \<not> After (seCooldownUntil e) now then Inr None
         else if 0 < maxCooldown \<and> After (seCooldownUntil e) (Add now maxCooldown)
         then Inr (Some (e\<lparr>seCooldownUntil := Add now maxCooldown\<rparr>))
         else Inr (Some e))
      else Inl (UnknownStatus (seStatus e)))"

definition mergeEntry :: "SharedEntry \<Rightarrow> SharedEntry \<Rightarrow> SharedEntry" where
  "mergeEntry current incoming =
     (if seStatus current = StatusRetired then current
      else if seStatus incoming = StatusRetired then incoming
      else if After (seCooldownUntil incoming) (seCooldownUntil current) then incoming
      else current)"

fun merge_keys :: "gotime \<Rightarrow> duration \<Rightarrow> marks \<Rightarrow> string list \<Rightarrow> marks \<Rightarrow> marks" where
  "merge_keys now mx source [] out = out"
| "merge_keys now mx source (d # ds) out =
     merge_keys now mx source ds
       (if d = [] then out
        else case fmlookup source d of
               None \<Rightarrow> out
             | Some entry \<Rightarrow>
               (case NormalizeEntry entry now mx of
                  Inr (Some n) \<Rightarrow>
                    (case fmlookup out d of None \<Rightarrow> fmupd d n out | Some x \<Rightarrow> fmupd d (mergeEntry x n) out)
                | _ \<Rightarrow> out))"

definition Merge :: "(string fset \<Rightarrow> string list) \<Rightarrow> marks \<Rightarrow> marks \<Rightarrow> gotime \<Rightarrow> duration \<Rightarrow> marks" where
  "Merge iter current incoming now mx =
     merge_keys now mx incoming (iter (fmdom incoming))
       (merge_keys now mx current (iter (fmdom current)) fmempty)"

section \<open>Documents\<close>

datatype doc_error = TooManyEntries | TooManyBytes | BadJSON | BadSchema int

type_synonym wire = "int \<times> (string, SharedEntry option) fmap"

definition encodeDocument :: "(marks \<Rightarrow> string option) \<Rightarrow> marks \<Rightarrow> int \<Rightarrow> int \<Rightarrow> doc_error + string" where
  "encodeDocument render entries maxEntries maxBytes =
     (if 0 < maxEntries \<and> maxEntries < int (fm_len entries) then Inl TooManyEntries
      else case render entries of
             None \<Rightarrow> Inl BadJSON
           | Some p \<Rightarrow> if 0 < maxBytes \<and> maxBytes < int (length p) then Inl TooManyBytes else Inr p)"

definition keep_entry :: "string \<Rightarrow> SharedEntry option \<Rightarrow> SharedEntry option" where
  "keep_entry d v =
     (if d = [] then None
      else case v of
             None \<Rightarrow> None
           | Some e \<Rightarrow>
               if seStatus e \<noteq> StatusCooldown \<and> seStatus e \<noteq> StatusRetired then None
               else if seStatus e = StatusCooldown \<and> IsZero (seCooldownUntil e) then None
               else Some e)"

fun decode_keys :: "(string, SharedEntry option) fmap \<Rightarrow> string list \<Rightarrow> marks \<Rightarrow> marks" where
  "decode_keys raw [] out = out"
| "decode_keys raw (d # ds) out =
     decode_keys raw ds
       (case fmlookup raw d of
          None \<Rightarrow> out
        | Some v \<Rightarrow> (case keep_entry d v of None \<Rightarrow> out | Some e \<Rightarrow> fmupd d e out))"

definition decodeDocument ::
    "(string fset \<Rightarrow> string list) \<Rightarrow> (string \<Rightarrow> wire option) \<Rightarrow> string \<Rightarrow> int \<Rightarrow> int \<Rightarrow> doc_error + marks" where
  "decodeDocument iter parse payload maxEntries maxBytes =
     (if 0 < maxBytes \<and> maxBytes < int (length payload) then Inl TooManyBytes
      else case parse payload of
             None \<Rightarrow> Inl BadJSON
           | Some (schema, raw) \<Rightarrow>
               if schema \<noteq> 1 then Inl (BadSchema schema)
               else if 0 < maxEntries \<and> maxEntries < int (fm_len raw) then Inl TooManyEntries
               else Inr (decode_keys raw (iter (fmdom raw)) fmempty))"

definition same_marker :: "SharedEntry \<Rightarrow> SharedEntry \<Rightarrow> bool" where
  "same_marker a b \<longleftrightarrow> seStatus a = seStatus b \<and> seCooldownUntil a = seCooldownUntil b \<and>
     seReasonClass a = seReasonClass b \<and> seOriginReplica a = seOriginReplica b"

definition entriesEqual :: "marks \<Rightarrow> marks \<Rightarrow> bool" where
  "entriesEqual a b \<longleftrightarrow> fm_len a = fm_len b \<and>
     fBall (fmdom a) (\<lambda>k. case (fmlookup a k, fmlookup b k) of (Some l, Some r) \<Rightarrow> same_marker l r | _ \<Rightarrow> False)"

section \<open>The store\<close>

record BreakerOptions =
  boNamespace :: string
  boReplicaID :: string
  boMaxCooldown :: duration
  boMaxDocumentBytes :: int
  boMaxEntries :: int
  boRetries :: int

record BreakerStore =
  bsNamespace :: string
  bsReplicaID :: string
  bsMaxCooldown :: duration
  bsMaxDocumentBytes :: int
  bsMaxEntries :: int
  bsRetries :: nat

datatype new_store_error = NoStore | NegativeRetries

definition NewBreakerStore :: "bool \<Rightarrow> BreakerOptions \<Rightarrow> new_store_error + BreakerStore" where
  "NewBreakerStore hasStore o' =
     (let retries = (if boRetries o' = 0 then 3 else boRetries o') in
      if \<not> hasStore then Inl NoStore
      else if retries < 0 then Inl NegativeRetries
      else Inr \<lparr>bsNamespace = (if boNamespace o' = [] then ''nexaroute:breaker/v1'' else boNamespace o'),
        bsReplicaID = (if boReplicaID o' = [] then ''unknown'' else boReplicaID o'),
        bsMaxCooldown = (if boMaxCooldown o' \<le> 0 then 30 * minute else boMaxCooldown o'),
        bsMaxDocumentBytes = (if boMaxDocumentBytes o' \<le> 0 then 1048576 else boMaxDocumentBytes o'),
        bsMaxEntries = (if boMaxEntries o' \<le> 0 then 10000 else boMaxEntries o'),
        bsRetries = nat retries\<rparr>)"

datatype breaker_error = StoreErr store_error | Malformed doc_error | InvalidEntry entry_error | Cancelled

definition mapControlPlaneError :: "store_error \<Rightarrow> store_error" where
  "mapControlPlaneError e =
     (case e of
        CtxDone \<Rightarrow> CtxDone | ErrNotFound \<Rightarrow> ErrNotFound | ErrConflict \<Rightarrow> ErrConflict
      | ErrUnavailable \<Rightarrow> ErrUnavailable | ErrMalformedSnapshot \<Rightarrow> ErrMalformedSnapshot
      | ErrInvalidRevision \<Rightarrow> ErrUnavailable | OtherError \<Rightarrow> ErrUnavailable)"

record BreakerView =
  vwEntries :: marks
  vwRevision :: "64 word"
  vwUpdatedAt :: gotime

text \<open>What the protocol takes from its platform: map iteration order and the JSON codec.\<close>

record platform =
  pfIter :: "string fset \<Rightarrow> string list"
  pfParse :: "string \<Rightarrow> wire option"
  pfRender :: "marks \<Rightarrow> string option"

definition BreakerLoad ::
    "platform \<Rightarrow> ('s \<Rightarrow> store_error + CP_Snapshot) \<Rightarrow> BreakerStore \<Rightarrow> gotime \<Rightarrow> 's \<Rightarrow> breaker_error + BreakerView" where
  "BreakerLoad pf load b now s =
     (case load s of
        Inl e \<Rightarrow> if mapControlPlaneError e = ErrNotFound then Inr \<lparr>vwEntries = fmempty, vwRevision = 0, vwUpdatedAt = 0\<rparr>
                  else Inl (StoreErr (mapControlPlaneError e))
      | Inr sn \<Rightarrow>
          (case decodeDocument (pfIter pf) (pfParse pf) (snPayload sn) (bsMaxEntries b) (bsMaxDocumentBytes b) of
             Inl e \<Rightarrow> Inl (Malformed e)
           | Inr decoded \<Rightarrow> Inr \<lparr>vwEntries = Merge (pfIter pf) fmempty decoded now (bsMaxCooldown b),
                              vwRevision = snRevision sn, vwUpdatedAt = snUpdatedAt sn\<rparr>))"

definition stamp_entry :: "BreakerStore \<Rightarrow> gotime \<Rightarrow> SharedEntry \<Rightarrow> SharedEntry" where
  "stamp_entry b now e =
     (let e1 = (if IsZero (seObservedAt e) then e\<lparr>seObservedAt := now\<rparr> else e)
      in if seOriginReplica e1 = [] then e1\<lparr>seOriginReplica := bsReplicaID b\<rparr> else e1)"

fun prepare_keys :: "BreakerStore \<Rightarrow> gotime \<Rightarrow> marks \<Rightarrow> string list \<Rightarrow> marks \<Rightarrow> entry_error + marks" where
  "prepare_keys b now local [] out = Inr out"
| "prepare_keys b now local (d # ds) out =
     (if d = [] then Inl EmptyDeployment
      else case fmlookup local d of
             None \<Rightarrow> prepare_keys b now local ds out
           | Some e \<Rightarrow>
               (case NormalizeEntry (stamp_entry b now e) now (bsMaxCooldown b) of
                  Inl err \<Rightarrow> Inl err
                | Inr None \<Rightarrow> prepare_keys b now local ds out
                | Inr (Some n) \<Rightarrow> prepare_keys b now local ds (fmupd d n out)))"

definition prepareLocal ::
    "(string fset \<Rightarrow> string list) \<Rightarrow> BreakerStore \<Rightarrow> marks \<Rightarrow> gotime \<Rightarrow> entry_error + marks" where
  "prepareLocal iter b local now = prepare_keys b now local (iter (fmdom local)) fmempty"

definition current_marks :: "platform \<Rightarrow> BreakerStore \<Rightarrow> CP_Snapshot option \<Rightarrow> doc_error + marks" where
  "current_marks pf b d =
     (let sn = (case d of None \<Rightarrow> zero_CP_Snapshot | Some x \<Rightarrow> x) in
      if 0 < snRevision sn \<or> snPayload sn \<noteq> []
      then decodeDocument (pfIter pf) (pfParse pf) (snPayload sn) (bsMaxEntries b) (bsMaxDocumentBytes b)
      else Inr fmempty)"

text \<open>
  The second half of an attempt: merge, and write unless nothing changes.  \<open>None\<close> asks for
  another attempt after a conflict.
\<close>

definition publish_write ::
    "platform \<Rightarrow> (64 word \<Rightarrow> string \<Rightarrow> 's \<Rightarrow> (store_error + CP_Snapshot) \<times> 's)
       \<Rightarrow> BreakerStore \<Rightarrow> marks \<Rightarrow> gotime \<Rightarrow> ('s \<Rightarrow> 's) \<Rightarrow> 's \<Rightarrow> CP_Snapshot option \<Rightarrow> marks
       \<Rightarrow> (breaker_error + BreakerView) option \<times> 's" where
  "publish_write pf cas b prepared now env s d current =
     (let merged = Merge (pfIter pf) current prepared now (bsMaxCooldown b) in
      if entriesEqual current merged
      then (Some (Inr \<lparr>vwEntries = merged, vwRevision = doc_rev d,
              vwUpdatedAt = (case d of None \<Rightarrow> 0 | Some x \<Rightarrow> snUpdatedAt x)\<rparr>), s)
      else
        (case encodeDocument (pfRender pf) merged (bsMaxEntries b) (bsMaxDocumentBytes b) of
           Inl e \<Rightarrow> (Some (Inl (Malformed e)), s)
         | Inr payload \<Rightarrow>
           (case cas (doc_rev d) payload (env s) of
              (Inl e, s') \<Rightarrow>
                if mapControlPlaneError e = ErrConflict then (None, s')
                else (Some (Inl (StoreErr (mapControlPlaneError e))), s')
            | (Inr saved, s') \<Rightarrow>
                (Some (Inr \<lparr>vwEntries = merged, vwRevision = snRevision saved,
                   vwUpdatedAt = snUpdatedAt saved\<rparr>), s'))))"

definition publish_attempt ::
    "platform \<Rightarrow> ('s \<Rightarrow> store_error + CP_Snapshot) \<Rightarrow> (64 word \<Rightarrow> string \<Rightarrow> 's \<Rightarrow> (store_error + CP_Snapshot) \<times> 's)
       \<Rightarrow> BreakerStore \<Rightarrow> marks \<Rightarrow> gotime \<Rightarrow> ('s \<Rightarrow> 's) \<Rightarrow> 's \<Rightarrow> (breaker_error + BreakerView) option \<times> 's" where
  "publish_attempt pf load cas b prepared now env s =
     (let found = (case load s of
                     Inr sn \<Rightarrow> Inr (Some sn)
                   | Inl e \<Rightarrow> if mapControlPlaneError e = ErrNotFound then Inr None
                              else Inl (mapControlPlaneError e)) in
      case found of
        Inl e \<Rightarrow> (Some (Inl (StoreErr e)), s)
      | Inr d \<Rightarrow>
        (case current_marks pf b d of
           Inl e \<Rightarrow> (Some (Inl (Malformed e)), s)
         | Inr current \<Rightarrow> publish_write pf cas b prepared now env s d current))"

fun publish_loop ::
    "platform \<Rightarrow> ('s \<Rightarrow> store_error + CP_Snapshot) \<Rightarrow> (64 word \<Rightarrow> string \<Rightarrow> 's \<Rightarrow> (store_error + CP_Snapshot) \<times> 's)
       \<Rightarrow> BreakerStore \<Rightarrow> marks \<Rightarrow> gotime \<Rightarrow> (nat \<Rightarrow> bool) \<Rightarrow> (nat \<Rightarrow> 's \<Rightarrow> 's) \<Rightarrow> nat \<Rightarrow> 's
       \<Rightarrow> (breaker_error + BreakerView) \<times> 's" where
  "publish_loop pf load cas b prepared now cx env 0 s = (Inl (StoreErr ErrConflict), s)"
| "publish_loop pf load cas b prepared now cx env (Suc n) s =
     (if cx n then (Inl Cancelled, s)
      else case publish_attempt pf load cas b prepared now (env (2 * n)) (env (2 * n + 1) s) of
             (Some r, s') \<Rightarrow> (r, s')
           | (None, s') \<Rightarrow> publish_loop pf load cas b prepared now cx env n s')"

definition Publish ::
    "platform \<Rightarrow> ('s \<Rightarrow> store_error + CP_Snapshot) \<Rightarrow> (64 word \<Rightarrow> string \<Rightarrow> 's \<Rightarrow> (store_error + CP_Snapshot) \<times> 's)
       \<Rightarrow> BreakerStore \<Rightarrow> marks \<Rightarrow> gotime \<Rightarrow> (nat \<Rightarrow> bool) \<Rightarrow> (nat \<Rightarrow> 's \<Rightarrow> 's) \<Rightarrow> 's
       \<Rightarrow> (breaker_error + BreakerView) \<times> 's" where
  "Publish pf load cas b local now cx env s =
     (case prepareLocal (pfIter pf) b local now of
        Inl e \<Rightarrow> (Inl (InvalidEntry e), s)
      | Inr prepared \<Rightarrow> publish_loop pf load cas b prepared now cx env (Suc (bsRetries b)) s)"

section \<open>Merging, deployment by deployment\<close>

definition norm_of :: "gotime \<Rightarrow> duration \<Rightarrow> marks \<Rightarrow> string \<Rightarrow> SharedEntry option" where
  "norm_of now mx m d =
     (if d = [] then None
      else case fmlookup m d of
             None \<Rightarrow> None
           | Some e \<Rightarrow> (case NormalizeEntry e now mx of Inr (Some n) \<Rightarrow> Some n | _ \<Rightarrow> None))"

definition join_marker :: "SharedEntry option \<Rightarrow> SharedEntry option \<Rightarrow> SharedEntry option" where
  "join_marker x y =
     (case x of None \<Rightarrow> y | Some a \<Rightarrow> (case y of None \<Rightarrow> Some a | Some b \<Rightarrow> Some (mergeEntry a b)))"

lemma join_marker_simps [simp]:
  "join_marker None y = y" "join_marker x None = x" "join_marker (Some a) (Some b) = Some (mergeEntry a b)"
  by (auto simp: join_marker_def split: option.split)

lemma merge_keys_lookup:
  "distinct ds \<Longrightarrow> fmlookup (merge_keys now mx source ds out) d =
     (if d \<in> set ds then join_marker (fmlookup out d) (norm_of now mx source d) else fmlookup out d)"
proof (induction now mx source ds out rule: merge_keys.induct)
  case (2 now mx source k ds out)
  then show ?case
    by (cases "d = k") (auto simp: norm_of_def split: option.splits sum.splits)
qed simp

lemma norm_of_None: "d |\<notin>| fmdom m \<Longrightarrow> norm_of now mx m d = None"
  by (simp add: norm_of_def fmdom_notD)

lemma Merge_lookup:
  assumes "map_order iter"
  shows "fmlookup (Merge iter c i now mx) d = join_marker (norm_of now mx c d) (norm_of now mx i d)"
proof -
  note it = map_order.iter_distinct[OF assms] map_order.iter_set[OF assms]
  show ?thesis
    by (cases "d |\<in>| fmdom c"; cases "d |\<in>| fmdom i")
      (simp_all add: Merge_def merge_keys_lookup it norm_of_None)
qed

section \<open>Algebra of markers\<close>

definition active :: "gotime \<Rightarrow> duration \<Rightarrow> SharedEntry \<Rightarrow> bool" where
  "active now mx e \<longleftrightarrow> NormalizeEntry e now mx = Inr (Some e)"

lemma Normalize_active: "0 \<le> now \<Longrightarrow> NormalizeEntry e now mx = Inr (Some n) \<Longrightarrow> active now mx n"
  by (auto simp: active_def NormalizeEntry_def go_simps split: if_splits)

lemma active_status: "active now mx e \<Longrightarrow> seStatus e = StatusRetired \<or> seStatus e = StatusCooldown"
  by (auto simp: active_def NormalizeEntry_def split: if_splits)

lemma mergeEntry_cases: "mergeEntry a b = a \<or> mergeEntry a b = b"
  by (simp add: mergeEntry_def)

lemma norm_of_active: "0 \<le> now \<Longrightarrow> norm_of now mx m d = Some n \<Longrightarrow> active now mx n"
  by (auto simp: norm_of_def intro: Normalize_active split: if_splits option.splits sum.splits)

lemma join_active:
  "0 \<le> now \<Longrightarrow> join_marker (norm_of now mx a d) (norm_of now mx b d) = Some n \<Longrightarrow> active now mx n"
  using norm_of_active mergeEntry_cases
  by (cases "norm_of now mx a d"; cases "norm_of now mx b d") (auto, metis)

lemma Merge_norm:
  assumes "map_order iter" and "0 \<le> now"
  shows "norm_of now mx (Merge iter a b now mx) d = fmlookup (Merge iter a b now mx) d"
proof (cases "d = []")
  case True
  then show ?thesis by (simp add: Merge_lookup[OF assms(1)] norm_of_def)
next
  case False
  then show ?thesis
    using join_active[OF assms(2), of mx a d b]
    by (auto simp: Merge_lookup[OF assms(1)] norm_of_def[of now mx "Merge iter a b now mx"] active_def split: option.split)
qed

text \<open>What routing sees of a marker: retirement, or the end of a cooldown.\<close>

definition effect :: "SharedEntry \<Rightarrow> bool \<times> gotime" where
  "effect e = (if seStatus e = StatusRetired then (True, 0) else (False, seCooldownUntil e))"

lemma effect_merge:
  "effect (mergeEntry a b) =
     (if fst (effect a) \<or> fst (effect b) then (True, 0) else (False, max (snd (effect a)) (snd (effect b))))"
  by (auto simp: effect_def mergeEntry_def go_simps max_def)

abbreviation effects :: "SharedEntry option \<Rightarrow> (bool \<times> gotime) option" where
  "effects x \<equiv> map_option effect x"

lemma effects_join_comm: "effects (join_marker x y) = effects (join_marker y x)"
  by (cases x; cases y) (auto simp: effect_merge max.commute)

lemma effects_join_assoc:
  "effects (join_marker (join_marker x y) z) = effects (join_marker x (join_marker y z))"
  by (cases x; cases y; cases z) (auto simp: effect_merge max.assoc)

lemma mergeEntry_absorb: "mergeEntry (mergeEntry a b) b = mergeEntry a b"
  by (auto simp: mergeEntry_def go_simps)

lemma join_absorb: "join_marker (join_marker x y) y = join_marker x y"
  by (cases x; cases y) (auto simp: mergeEntry_absorb, auto simp: mergeEntry_def)

lemma Merge_absorb:
  assumes "map_order iter" and "0 \<le> now"
  shows "Merge iter (Merge iter a b now mx) b now mx = Merge iter a b now mx"
  by (rule fmap_ext) (simp add: Merge_lookup[OF assms(1)] Merge_norm[OF assms] join_absorb
      Merge_norm[OF assms, unfolded Merge_lookup[OF assms(1)]])

section \<open>Publication\<close>

lemma entriesEqual_refl: "entriesEqual m m"
  by (auto simp: entriesEqual_def same_marker_def fmlookup_dom_iff split: option.split)

text \<open>What other replicas can have done to the store between two points of a call.\<close>

definition interfered :: "(nat \<Rightarrow> 's \<Rightarrow> 's) \<Rightarrow> 's \<Rightarrow> 's \<Rightarrow> bool" where
  "interfered env = (\<lambda>s s'. \<exists>k. s' = env k s)\<^sup>*\<^sup>*"

lemma interfered_refl [simp]: "interfered env s s"
  by (simp add: interfered_def)

lemma interfered_step: "interfered env s s1 \<Longrightarrow> interfered env s (env k s1)"
  unfolding interfered_def by (rule rtranclp.rtrancl_into_rtrancl) auto

lemma interfered_trans: "interfered env s s1 \<Longrightarrow> interfered env s1 s2 \<Longrightarrow> interfered env s s2"
  unfolding interfered_def by (rule rtranclp_trans)

text \<open>The effect a successful publication has on the store it finds.\<close>

definition published ::
    "platform \<Rightarrow> ('s \<Rightarrow> CP_Snapshot option) \<Rightarrow> BreakerStore \<Rightarrow> marks \<Rightarrow> gotime \<Rightarrow> 's \<Rightarrow> BreakerView \<Rightarrow> 's \<Rightarrow> bool" where
  "published pf doc b prepared now s1 v s' \<longleftrightarrow>
     (\<exists>cur. current_marks pf b (doc s1) = Inr cur \<and>
        vwEntries v = Merge (pfIter pf) cur prepared now (bsMaxCooldown b) \<and>
        ((s' = s1 \<and> entriesEqual cur (vwEntries v) \<and> vwRevision v = doc_rev (doc s1)) \<or>
         (\<exists>p sn. encodeDocument (pfRender pf) (vwEntries v) (bsMaxEntries b) (bsMaxDocumentBytes b) = Inr p \<and>
            doc s' = Some sn \<and> snPayload sn = p \<and> snRevision sn = doc_rev (doc s1) + 1 \<and> vwRevision v = snRevision sn)))"

context revision_store
begin

lemma write_effect:
  assumes "doc_evolves (doc s) (doc (env s))" and "current_marks pf b (doc s) = Inr cur"
  shows "case publish_write pf cas b prepared now env s (doc s) cur of
      (Some (Inr v), s') \<Rightarrow> \<exists>s1. (s1 = s \<or> s1 = env s) \<and> published pf doc b prepared now s1 v s'
    | (_, s') \<Rightarrow> s' = s \<or> s' = env s"
proof -
  define merged where "merged = Merge (pfIter pf) cur prepared now (bsMaxCooldown b)"
  consider (same) "entriesEqual cur merged"
    | (bad) e where "\<not> entriesEqual cur merged"
        "encodeDocument (pfRender pf) merged (bsMaxEntries b) (bsMaxDocumentBytes b) = Inl e"
    | (fail) p e s' where "\<not> entriesEqual cur merged"
        "encodeDocument (pfRender pf) merged (bsMaxEntries b) (bsMaxDocumentBytes b) = Inr p"
        "cas (doc_rev (doc s)) p (env s) = (Inl e, s')"
    | (ok) p sn s' where "\<not> entriesEqual cur merged"
        "encodeDocument (pfRender pf) merged (bsMaxEntries b) (bsMaxDocumentBytes b) = Inr p"
        "cas (doc_rev (doc s)) p (env s) = (Inr sn, s')"
    by (metis obj_sumE surj_pair)
  then show ?thesis
  proof cases
    case same
    then show ?thesis using assms(2) by (auto simp: publish_write_def published_def merged_def Let_def)
  next
    case bad
    then show ?thesis by (simp add: publish_write_def merged_def[symmetric] Let_def)
  next
    case fail
    then show ?thesis using cas_keep[OF fail(3)] by (simp add: publish_write_def merged_def[symmetric] Let_def)
  next
    case ok
    have "doc (env s) = doc s" by (rule cas_replaces_what_was_read[OF assms(1) ok(3)])
    then have "published pf doc b prepared now (env s)
        \<lparr>vwEntries = merged, vwRevision = snRevision sn, vwUpdatedAt = snUpdatedAt sn\<rparr> s'"
      using assms(2) ok(2) cas_write[OF ok(3)] by (auto simp: published_def merged_def)
    then show ?thesis using ok by (auto simp: publish_write_def merged_def[symmetric] Let_def)
  qed
qed

lemma attempt_effect:
  assumes "doc_evolves (doc s) (doc (env s))"
  shows "case publish_attempt pf load cas b prepared now env s of
      (Some (Inr v), s') \<Rightarrow> \<exists>s1. (s1 = s \<or> s1 = env s) \<and> published pf doc b prepared now s1 v s'
    | (_, s') \<Rightarrow> s' = s \<or> s' = env s"
proof -
  define found where "found = (case load s of Inr sn \<Rightarrow> Inr (Some sn)
     | Inl e \<Rightarrow> if mapControlPlaneError e = ErrNotFound then Inr None else Inl (mapControlPlaneError e))"
  have nf: "mapControlPlaneError e = ErrNotFound \<longleftrightarrow> e = ErrNotFound" for e
    by (cases e) (simp_all add: mapControlPlaneError_def)
  have fd: "found = Inr d \<Longrightarrow> d = doc s" for d
    using load_hit[of s] load_missing[of s]
    by (auto simp: found_def nf split: sum.splits if_splits)
  have eq: "publish_attempt pf load cas b prepared now env s =
      (case found of Inl e \<Rightarrow> (Some (Inl (StoreErr e)), s)
       | Inr d \<Rightarrow> (case current_marks pf b d of
           Inl e \<Rightarrow> (Some (Inl (Malformed e)), s)
         | Inr current \<Rightarrow> publish_write pf cas b prepared now env s d current))"
    by (simp add: publish_attempt_def found_def Let_def)
  show ?thesis
  proof (cases found)
    case (Inr d)
    then show ?thesis
      using fd[OF Inr] write_effect[of s env pf b _ prepared now] assms
      by (cases "current_marks pf b d") (simp_all add: eq)
  qed (simp add: eq)
qed

lemma loop_effect:
  assumes "\<And>k s. doc_evolves (doc s) (doc (env k s))"
  shows "case publish_loop pf load cas b prepared now cx env n s of
      (Inr v, s') \<Rightarrow> \<exists>s1. interfered env s s1 \<and> published pf doc b prepared now s1 v s'
    | (Inl e, s') \<Rightarrow> interfered env s s'"
proof (induction n arbitrary: s)
  case (Suc n)
  define s0 where "s0 = env (2 * n + 1) s"
  have i0: "interfered env s s0" unfolding s0_def by (rule interfered_step) simp
  have i1: "interfered env s (env (2 * n) s0)" by (rule interfered_step[OF i0])
  obtain r s' where at: "publish_attempt pf load cas b prepared now (env (2 * n)) s0 = (r, s')" by fastforce
  note eff = attempt_effect[where s = s0 and env = "env (2 * n)" and pf = pf and b = b and prepared = prepared and now = now, OF assms,
      unfolded at]
  have step: "publish_loop pf load cas b prepared now cx env (Suc n) s =
      (if cx n then (Inl Cancelled, s)
       else case r of Some x \<Rightarrow> (x, s') | None \<Rightarrow> publish_loop pf load cas b prepared now cx env n s')"
    using at by (simp add: s0_def split: option.split)
  show ?case
  proof (cases "cx n")
    case False
    show ?thesis
    proof (cases r)
      case None
      then have "interfered env s s'" using eff i0 i1 by auto
      then show ?thesis
        unfolding step using Suc[of s'] None False by (auto split: sum.splits intro: interfered_trans) (blast intro: interfered_trans)+
    next
      case (Some x)
      then show ?thesis unfolding step using eff i0 i1 False by (cases x) auto
    qed
  qed (simp add: step)
qed simp

end

section \<open>Reading back a published document\<close>

lemma keep_active: "active now mx e \<Longrightarrow> d \<noteq> [] \<Longrightarrow> keep_entry d (Some e) = Some e"
  by (auto simp: active_def NormalizeEntry_def keep_entry_def split: if_splits)

lemma decode_keys_lookup:
  "distinct ds \<Longrightarrow> fmlookup (decode_keys raw ds out) d =
     (if d \<in> set ds then (case fmlookup raw d of None \<Rightarrow> fmlookup out d
        | Some v \<Rightarrow> (case keep_entry d v of None \<Rightarrow> fmlookup out d | Some e \<Rightarrow> Some e)) else fmlookup out d)"
proof (induction raw ds out rule: decode_keys.induct)
  case (2 raw k ds out)
  then show ?case by (cases "d = k") (auto split: option.splits)
qed simp

lemma decode_rendered:
  assumes "map_order (pfIter pf)" and "0 \<le> now" and "m = Merge (pfIter pf) a b now mx"
    and "encodeDocument (pfRender pf) m me mb = Inr p"
    and "\<forall>q. pfRender pf m = Some q \<longrightarrow> pfParse pf q = Some (1, fmmap Some m)"
  shows "decodeDocument (pfIter pf) (pfParse pf) p me mb = Inr m"
proof -
  have p: "pfRender pf m = Some p" "\<not> (0 < me \<and> me < int (fm_len m))" "\<not> (0 < mb \<and> mb < int (length p))"
    using assms(4) by (auto simp: encodeDocument_def split: if_splits option.splits)
  have "fmlookup (decode_keys (fmmap Some m) (pfIter pf (fmdom m)) fmempty) d = fmlookup m d" for d
  proof (cases "fmlookup m d")
    case (Some e)
    then have j: "join_marker (norm_of now mx a d) (norm_of now mx b d) = Some e"
      by (simp add: assms(3) Merge_lookup[OF assms(1)])
    then have "d \<noteq> []" by (auto simp: norm_of_def)
    then have "keep_entry d (Some e) = Some e" using keep_active join_active[OF assms(2) j] by blast
    moreover have "d |\<in>| fmdom m" using Some by (rule fmdomI)
    ultimately show ?thesis
      using Some map_order.iter_distinct[OF assms(1)] map_order.iter_set[OF assms(1)] by (simp add: decode_keys_lookup)
  next
    case None
    then show ?thesis
      using map_order.iter_distinct[OF assms(1)] map_order.iter_set[OF assms(1)] by (simp add: decode_keys_lookup)
  qed
  then have "decode_keys (fmmap Some m) (pfIter pf (fmdom m)) fmempty = m" by (rule fmap_ext)
  then show ?thesis using p assms(5) by (auto simp: decodeDocument_def fm_len_def)
qed

subsection \<open>What the JSON codec promises\<close>

definition utf8_marks :: "marks \<Rightarrow> bool" where
  "utf8_marks m \<longleftrightarrow> (\<forall>k e. fmlookup m k = Some e \<longrightarrow>
     utf8 k \<and> utf8 (seStatus e) \<and> utf8 (seReasonClass e) \<and> utf8 (seOriginReplica e))"

definition json_codec :: "platform \<Rightarrow> bool" where
  "json_codec pf \<longleftrightarrow>
     (\<forall>p n raw k e. pfParse pf p = Some (n, raw) \<and> fmlookup raw k = Some (Some e) \<longrightarrow>
        utf8 k \<and> utf8 (seStatus e) \<and> utf8 (seReasonClass e) \<and> utf8 (seOriginReplica e)) \<and>
     (\<forall>m q. utf8_marks m \<and> pfRender pf m = Some q \<longrightarrow> q \<noteq> [] \<and> pfParse pf q = Some (1, fmmap Some m))"

lemma json_codec_reads: "json_codec pf \<Longrightarrow> pfParse pf p = Some (n, raw) \<Longrightarrow> fmlookup raw k = Some (Some e) \<Longrightarrow>
    utf8 k \<and> utf8 (seStatus e) \<and> utf8 (seReasonClass e) \<and> utf8 (seOriginReplica e)"
  unfolding json_codec_def by blast

lemma json_codec_reads_back:
  "json_codec pf \<Longrightarrow> utf8_marks m \<Longrightarrow> \<forall>q. pfRender pf m = Some q \<longrightarrow> q \<noteq> [] \<and> pfParse pf q = Some (1, fmmap Some m)"
  unfolding json_codec_def by blast

lemma utf8_marks_empty [simp]: "utf8_marks fmempty"
  by (simp add: utf8_marks_def)

lemma utf8_marks_upd:
  "utf8_marks m \<Longrightarrow> utf8 k \<Longrightarrow> utf8 (seStatus e) \<Longrightarrow> utf8 (seReasonClass e) \<Longrightarrow> utf8 (seOriginReplica e) \<Longrightarrow> utf8_marks (fmupd k e m)"
  by (simp add: utf8_marks_def)

lemma utf8_marks_lookup:
  "utf8_marks m \<Longrightarrow> fmlookup m k = Some e \<Longrightarrow> utf8 k \<and> utf8 (seStatus e) \<and> utf8 (seReasonClass e) \<and> utf8 (seOriginReplica e)"
  by (simp add: utf8_marks_def)

lemma keep_entry_Some: "keep_entry d v = Some e \<Longrightarrow> v = Some e"
  by (auto simp: keep_entry_def split: if_splits option.splits)

lemma decode_keys_utf8:
  assumes "\<And>k e. fmlookup raw k = Some (Some e) \<Longrightarrow> utf8 k \<and> utf8 (seStatus e) \<and> utf8 (seReasonClass e) \<and> utf8 (seOriginReplica e)"
    and "utf8_marks out"
  shows "utf8_marks (decode_keys raw ds out)"
  using assms(2)
proof (induction ds arbitrary: out)
  case (Cons d ds)
  have "utf8_marks (fmupd d e out)" if "fmlookup raw d = Some v" "keep_entry d v = Some e" for v e
    using that assms(1)[of d e] keep_entry_Some[OF that(2)] Cons.prems by (simp add: utf8_marks_upd)
  with Cons show ?case by (simp split: option.split)
qed simp

lemma decoded_utf8: "json_codec pf \<Longrightarrow> decodeDocument iter (pfParse pf) p me mb = Inr m \<Longrightarrow> utf8_marks m"
  by (auto simp: decodeDocument_def intro!: decode_keys_utf8 dest: json_codec_reads split: if_splits option.splits)

lemma current_utf8: "json_codec pf \<Longrightarrow> current_marks pf b d = Inr m \<Longrightarrow> utf8_marks m"
  by (auto simp: current_marks_def Let_def dest: decoded_utf8 split: if_splits)

lemma Normalize_strings:
  "NormalizeEntry e now mx = Inr (Some n) \<Longrightarrow>
   seStatus n = seStatus e \<and> seReasonClass n = seReasonClass e \<and> seOriginReplica n = seOriginReplica e"
  by (auto simp: NormalizeEntry_def split: if_splits)

lemma norm_of_utf8:
  assumes "utf8_marks m" and "norm_of now mx m d = Some n"
  shows "utf8 d \<and> utf8 (seStatus n) \<and> utf8 (seReasonClass n) \<and> utf8 (seOriginReplica n)"
proof -
  obtain e where "fmlookup m d = Some e" "NormalizeEntry e now mx = Inr (Some n)"
    using assms(2) by (auto simp: norm_of_def split: if_splits option.splits sum.splits)
  then show ?thesis using utf8_marks_lookup[OF assms(1)] Normalize_strings by metis
qed

lemma Merge_utf8:
  assumes "map_order iter" and "utf8_marks a" and "utf8_marks b"
  shows "utf8_marks (Merge iter a b now mx)"
proof -
  have "utf8 d \<and> utf8 (seStatus e) \<and> utf8 (seReasonClass e) \<and> utf8 (seOriginReplica e)"
    if j: "join_marker (norm_of now mx a d) (norm_of now mx b d) = Some e" for d e
  proof -
    have "norm_of now mx a d = Some e \<or> norm_of now mx b d = Some e"
      using j mergeEntry_cases by (cases "norm_of now mx a d"; cases "norm_of now mx b d") (auto, metis)
    then show ?thesis using norm_of_utf8[OF assms(2)] norm_of_utf8[OF assms(3)] by blast
  qed
  then show ?thesis unfolding utf8_marks_def Merge_lookup[OF assms(1)] by blast
qed

lemma prepare_keys_utf8:
  assumes "utf8 (bsReplicaID b)" and "utf8_marks local" and "utf8_marks out" and "prepare_keys b now local ds out = Inr p"
  shows "utf8_marks p"
  using assms(3,4)
proof (induction ds arbitrary: out)
  case (Cons d ds)
  have "utf8_marks (fmupd d n out)" if "fmlookup local d = Some e" "NormalizeEntry (stamp_entry b now e) now mx = Inr (Some n)" for e n mx
    using utf8_marks_lookup[OF assms(2) that(1)] Normalize_strings[OF that(2)] assms(1) Cons.prems(1)
    by (auto simp: stamp_entry_def Let_def intro!: utf8_marks_upd split: if_splits)
  with Cons show ?case by (auto split: if_splits option.splits sum.splits)
qed simp

lemma prepared_utf8:
  "utf8 (bsReplicaID b) \<Longrightarrow> utf8_marks local \<Longrightarrow> prepareLocal iter b local now = Inr p \<Longrightarrow> utf8_marks p"
  unfolding prepareLocal_def by (erule (1) prepare_keys_utf8[OF _ _ utf8_marks_empty])

lemma published_utf8:
  "json_codec pf \<Longrightarrow> map_order (pfIter pf) \<Longrightarrow> utf8_marks prepared \<Longrightarrow> published pf doc b prepared now s v s' \<Longrightarrow> utf8_marks (vwEntries v)"
  by (auto simp: published_def intro!: Merge_utf8 dest: current_utf8)

lemma loaded_utf8: "json_codec pf \<Longrightarrow> map_order (pfIter pf) \<Longrightarrow> BreakerLoad pf load b now s = Inr view \<Longrightarrow> utf8_marks (vwEntries view)"
  by (auto simp: BreakerLoad_def intro!: Merge_utf8 dest: decoded_utf8 split: sum.splits if_splits)

subsection \<open>Publishing alone\<close>

lemma interfered_idle: "interfered (\<lambda>_ s. s) s s' \<Longrightarrow> s' = s"
  unfolding interfered_def by (induction rule: rtranclp_induct) auto

lemma ms_available_load:
  "\<not> msFailed s \<Longrightarrow> ms_Get False ns s = (case ms_doc ns s of None \<Rightarrow> Inl ErrNotFound | Some sn \<Rightarrow> Inr sn)"
  by (simp add: ms_Get_def ms_doc_def)

lemma publish_attempt_idle:
  assumes "load s = (case d of None \<Rightarrow> Inl ErrNotFound | Some sn \<Rightarrow> Inr sn)"
    and "current_marks pf b d = Inr cur"
    and "entriesEqual cur (Merge (pfIter pf) cur prepared now (bsMaxCooldown b))"
  shows "publish_attempt pf load cas b prepared now env s =
    (Some (Inr \<lparr>vwEntries = Merge (pfIter pf) cur prepared now (bsMaxCooldown b), vwRevision = doc_rev d,
       vwUpdatedAt = (case d of None \<Rightarrow> 0 | Some x \<Rightarrow> snUpdatedAt x)\<rparr>), s)"
  using assms by (cases d) (simp_all add: publish_attempt_def publish_write_def mapControlPlaneError_def Let_def)

lemma published_again:
  assumes "map_order (pfIter pf)" and "0 \<le> now" and "published pf doc b prepared now s v s'"
    and "\<forall>q. pfRender pf (vwEntries v) = Some q \<longrightarrow> q \<noteq> [] \<and> pfParse pf q = Some (1, fmmap Some (vwEntries v))"
  shows "\<exists>cur. current_marks pf b (doc s') = Inr cur \<and>
    Merge (pfIter pf) cur prepared now (bsMaxCooldown b) = vwEntries v \<and> entriesEqual cur (vwEntries v) \<and>
    vwRevision v = doc_rev (doc s')"
proof -
  obtain cur where cur: "current_marks pf b (doc s) = Inr cur"
    "vwEntries v = Merge (pfIter pf) cur prepared now (bsMaxCooldown b)"
    "(s' = s \<and> entriesEqual cur (vwEntries v) \<and> vwRevision v = doc_rev (doc s)) \<or>
     (\<exists>p sn. encodeDocument (pfRender pf) (vwEntries v) (bsMaxEntries b) (bsMaxDocumentBytes b) = Inr p \<and>
        doc s' = Some sn \<and> snPayload sn = p \<and> snRevision sn = doc_rev (doc s) + 1 \<and> vwRevision v = snRevision sn)"
    using assms(3) by (auto simp: published_def)
  from cur(3) show ?thesis
  proof (elim disjE exE conjE)
    fix p sn assume w: "encodeDocument (pfRender pf) (vwEntries v) (bsMaxEntries b) (bsMaxDocumentBytes b) = Inr p"
      "doc s' = Some sn" "snPayload sn = p" "vwRevision v = snRevision sn"
    have "p \<noteq> []" using w(1) assms(4) by (auto simp: encodeDocument_def split: if_splits option.splits)
    moreover have "decodeDocument (pfIter pf) (pfParse pf) p (bsMaxEntries b) (bsMaxDocumentBytes b) = Inr (vwEntries v)"
      by (rule decode_rendered[OF assms(1,2) cur(2) w(1)]) (use assms(4) in blast)
    ultimately have "current_marks pf b (doc s') = Inr (vwEntries v)" using w(2,3) by (simp add: current_marks_def)
    then show ?thesis
      using Merge_absorb[OF assms(1,2), of cur prepared "bsMaxCooldown b"] w(2,4) cur(2)
      by (simp add: entriesEqual_refl doc_rev_def)
  qed (use cur in auto)
qed

lemma Publish_alone:
  assumes "prepareLocal (pfIter pf) b local now = Inr prepared"
    and "Publish pf (ms_Get False ns) (\<lambda>r p. ms_Put False ns r p t) b local now (\<lambda>_. False) (\<lambda>_ s. s) s = (Inr v, s')"
  shows "published pf (ms_doc ns) b prepared now s v s'"
proof -
  have "case Publish pf (ms_Get False ns) (\<lambda>r p. ms_Put False ns r p t) b local now (\<lambda>_. False) (\<lambda>_ s. s) s of
      (Inr v, s') \<Rightarrow> \<exists>s1. interfered (\<lambda>_ s. s) s s1 \<and> published pf (ms_doc ns) b prepared now s1 v s'
    | (Inl e, s') \<Rightarrow> interfered (\<lambda>_ s. s) s s'"
    unfolding Publish_def assms(1) sum.case by (rule ms.loop_effect) (simp add: doc_evolves_def)
  then show ?thesis unfolding assms(2) by (auto dest: interfered_idle)
qed

section \<open>Properties\<close>

text \<open>C35: Merging shared breaker markers is a join: the result does not depend on the order in
  which maps are iterated, what routing sees of it (retirements and ends of cooldowns) does
  not depend on who merges first or on how merges are grouped, and merging the same markers
  again changes nothing at all.
\<close>

theorem merge_is_a_join:
  assumes "map_order iter" and "map_order iter'" and "0 \<le> now"
  shows "Merge iter a b now mx = Merge iter' a b now mx \<and>
    (\<forall>d. map_option effect (fmlookup (Merge iter a b now mx) d) = map_option effect (fmlookup (Merge iter b a now mx) d)) \<and>
    (\<forall>d. map_option effect (fmlookup (Merge iter (Merge iter a b now mx) c now mx) d) =
       map_option effect (fmlookup (Merge iter a (Merge iter b c now mx) now mx) d)) \<and>
    Merge iter (Merge iter a b now mx) b now mx = Merge iter a b now mx"
proof (intro conjI allI)
  show "Merge iter a b now mx = Merge iter' a b now mx"
    by (rule fmap_ext) (simp add: Merge_lookup[OF assms(1)] Merge_lookup[OF assms(2)])
  show "map_option effect (fmlookup (Merge iter a b now mx) d) = map_option effect (fmlookup (Merge iter b a now mx) d)" for d
    unfolding Merge_lookup[OF assms(1)] by (rule effects_join_comm)
  show "map_option effect (fmlookup (Merge iter (Merge iter a b now mx) c now mx) d) =
       map_option effect (fmlookup (Merge iter a (Merge iter b c now mx) now mx) d)" for d
    unfolding Merge_lookup[OF assms(1), of _ _ _ _ d] Merge_norm[OF assms(1,3)]
    unfolding Merge_lookup[OF assms(1)] by (rule effects_join_assoc)
  show "Merge iter (Merge iter a b now mx) b now mx = Merge iter a b now mx"
    by (rule Merge_absorb[OF assms(1,3)])
qed

definition demo_mark :: "gotime \<Rightarrow> SharedEntry" where
  "demo_mark u = \<lparr>seStatus = ''cooldown'', seCooldownUntil = u, seReasonClass = [], seOriginReplica = ''r'', seObservedAt = 1\<rparr>"

theorem merge_is_a_join_witness:
  "map_option effect (fmlookup (Merge sorted_list_of_fset (fmupd ''d'' (demo_mark 8) fmempty)
      (fmupd ''d'' (demo_mark 9) fmempty) 5 100) ''d'') =
   map_option effect (fmlookup (Merge sorted_list_of_fset (fmupd ''d'' (demo_mark 9) fmempty)
      (fmupd ''d'' (demo_mark 8) fmempty) 5 100) ''d'')"
  using merge_is_a_join[OF sorted_order.map_order_axioms sorted_order.map_order_axioms, of 5
      "fmupd ''d'' (demo_mark 8) fmempty" "fmupd ''d'' (demo_mark 9) fmempty" 100 fmempty] by simp

text \<open>A merge never clears a marker: a deployment either side has retired is retired in the
  result, and a cooldown that is still running on either side is kept, at least until its own
  end or the maximal cooldown from now, or is overruled by a retirement.
\<close>

theorem merge_never_clears:
  assumes "map_order iter" and "0 < now" and "d \<noteq> []"
    and "fmlookup a d = Some e \<or> fmlookup b d = Some e"
  shows "(seStatus e = ''retired'' \<longrightarrow> (\<exists>m. fmlookup (Merge iter a b now mx) d = Some m \<and> seStatus m = ''retired'')) \<and>
    (seStatus e = ''cooldown'' \<and> now < seCooldownUntil e \<longrightarrow>
      (\<exists>m. fmlookup (Merge iter a b now mx) d = Some m \<and> (seStatus m = ''retired'' \<or>
         seStatus m = ''cooldown'' \<and>
         (if 0 < mx then min (seCooldownUntil e) (now + mx) else seCooldownUntil e) \<le> seCooldownUntil m)))"
proof -
  have norm: "fmlookup x d = Some e \<Longrightarrow> NormalizeEntry e now mx = Inr (Some n) \<Longrightarrow> norm_of now mx x d = Some n" for x n
    using assms(3) by (simp add: norm_of_def)
  have join: "\<exists>m. fmlookup (Merge iter a b now mx) d = Some m \<and>
      (fst (effect m) \<or> \<not> fst (effect n) \<and> snd (effect n) \<le> snd (effect m)) \<and> (fst (effect n) \<longrightarrow> fst (effect m)) \<and> active now mx m"
    if n: "NormalizeEntry e now mx = Inr (Some n)" for n
  proof -
    have "norm_of now mx a d = Some n \<or> norm_of now mx b d = Some n" using assms(4) norm[OF _ n] by blast
    then obtain m where m: "join_marker (norm_of now mx a d) (norm_of now mx b d) = Some m"
      "fst (effect m) \<or> \<not> fst (effect n) \<and> snd (effect n) \<le> snd (effect m)" "fst (effect n) \<longrightarrow> fst (effect m)"
      by (cases "norm_of now mx a d"; cases "norm_of now mx b d") (auto simp: effect_merge)
    then show ?thesis using join_active[OF less_imp_le[OF assms(2)] m(1)] by (auto simp: Merge_lookup[OF assms(1)])
  qed
  show ?thesis
  proof (intro conjI impI)
    assume "seStatus e = ''retired''"
    then show "\<exists>m. fmlookup (Merge iter a b now mx) d = Some m \<and> seStatus m = ''retired''"
      using join[of "e\<lparr>seCooldownUntil := 0\<rparr>"] assms(2)
      by (auto simp: NormalizeEntry_def go_simps effect_def split: if_splits)
  next
    assume c: "seStatus e = ''cooldown'' \<and> now < seCooldownUntil e"
    define n where "n = (if 0 < mx \<and> now + mx < seCooldownUntil e then e\<lparr>seCooldownUntil := now + mx\<rparr> else e)"
    have "NormalizeEntry e now mx = Inr (Some n)" using c assms(2) by (simp add: NormalizeEntry_def go_simps n_def)
    from join[OF this] obtain m where m: "fmlookup (Merge iter a b now mx) d = Some m" "active now mx m"
      "fst (effect m) \<or> snd (effect n) \<le> snd (effect m)" by blast
    have "snd (effect n) = (if 0 < mx then min (seCooldownUntil e) (now + mx) else seCooldownUntil e)"
      using c by (auto simp: n_def effect_def)
    then show "\<exists>m. fmlookup (Merge iter a b now mx) d = Some m \<and> (seStatus m = ''retired'' \<or>
         seStatus m = ''cooldown'' \<and>
         (if 0 < mx then min (seCooldownUntil e) (now + mx) else seCooldownUntil e) \<le> seCooldownUntil m)"
      using m active_status[OF m(2)] by (auto simp: effect_def split: if_splits)
  qed
qed

theorem merge_never_clears_witness:
  "\<exists>m. fmlookup (Merge sorted_list_of_fset fmempty (fmupd ''d'' (demo_mark 9) fmempty) 5 100) ''d'' = Some m"
  using merge_never_clears[OF sorted_order.map_order_axioms, of 5 "''d''" fmempty "demo_mark 9"
      "fmupd ''d'' (demo_mark 9) fmempty" 100] by (auto simp: demo_mark_def)

text \<open>C34: Publication loses no update.  Whatever other replicas write between its store calls, as
  long as every change of the document moves to a later revision, a publication that succeeds
  leaves the merge of its markers with exactly the document that was stored at that moment
  (or leaves the store alone when that document already contains them), and a publication that
  fails has written nothing.
\<close>

theorem publish_loses_no_update:
  assumes "\<forall>k s. doc_evolves (ms_doc ns s) (ms_doc ns (env k s))"
    and "prepareLocal (pfIter pf) b local now = Inr prepared"
  shows "case Publish pf (ms_Get cx ns) (\<lambda>r p. ms_Put cx ns r p t) b local now cn env s of
      (Inr v, s') \<Rightarrow> \<exists>s1. interfered env s s1 \<and> published pf (ms_doc ns) b prepared now s1 v s'
    | (Inl e, s') \<Rightarrow> interfered env s s'"
  unfolding Publish_def assms(2) sum.case by (rule ms.loop_effect) (use assms(1) in blast)

definition demo_pf :: platform where
  "demo_pf = \<lparr>pfIter = sorted_list_of_fset,
     pfParse = (\<lambda>p. if p = ''doc'' then Some (1, fmmap Some (fmupd ''d'' (demo_mark 9) fmempty)) else None),
     pfRender = (\<lambda>m. if m = fmupd ''d'' (demo_mark 9) fmempty then Some ''doc'' else None)\<rparr>"

definition demo_bs :: BreakerStore where
  "demo_bs = \<lparr>bsNamespace = ''n'', bsReplicaID = ''r'', bsMaxCooldown = 100, bsMaxDocumentBytes = 1000, bsMaxEntries = 10, bsRetries = 3\<rparr>"

lemma demo_prepared:
  "prepareLocal (pfIter demo_pf) demo_bs (fmupd ''d'' (demo_mark 9) fmempty) 5 = Inr (fmupd ''d'' (demo_mark 9) fmempty)"
  by (simp add: prepareLocal_def demo_pf_def demo_bs_def demo_mark_def stamp_entry_def NormalizeEntry_def go_simps sorted_list_of_fset.rep_eq)

theorem publish_loses_no_update_witness:
  "case Publish demo_pf (ms_Get False ''n'') (\<lambda>r p. ms_Put False ''n'' r p 7) demo_bs (fmupd ''d'' (demo_mark 9) fmempty) 5
      (\<lambda>_. False) (\<lambda>_ s. s) NewMemoryStore of
     (Inr v, s') \<Rightarrow> \<exists>s1. interfered (\<lambda>_ s. s) NewMemoryStore s1 \<and>
       published demo_pf (ms_doc ''n'') demo_bs (fmupd ''d'' (demo_mark 9) fmempty) 5 s1 v s'
   | (Inl e, s') \<Rightarrow> interfered (\<lambda>_ s. s) NewMemoryStore s'"
  by (rule publish_loses_no_update) (simp_all add: doc_evolves_def demo_prepared)

text \<open>Publishing the same markers twice is idempotent: when a publication has succeeded with
  nobody interfering, and the codec reads back the document it rendered, the same publication
  at the same time returns the same view and issues no write.
\<close>

theorem publish_is_idempotent:
  assumes "map_order (pfIter pf)" and "0 \<le> now"
    and "Publish pf (ms_Get False ns) (\<lambda>r p. ms_Put False ns r p t) b local now (\<lambda>_. False) (\<lambda>_ s. s) s = (Inr v, s')"
    and "\<not> msFailed s'"
    and "\<forall>q. pfRender pf (vwEntries v) = Some q \<longrightarrow> q \<noteq> [] \<and> pfParse pf q = Some (1, fmmap Some (vwEntries v))"
  shows "\<exists>w. Publish pf (ms_Get False ns) (\<lambda>r p. ms_Put False ns r p t2) b local now (\<lambda>_. False) (\<lambda>_ s. s) s' = (Inr w, s') \<and>
    vwEntries w = vwEntries v \<and> vwRevision w = vwRevision v"
proof -
  obtain prepared where pr: "prepareLocal (pfIter pf) b local now = Inr prepared"
    using assms(3) by (auto simp: Publish_def split: sum.splits)
  have "published pf (ms_doc ns) b prepared now s v s'" by (rule Publish_alone[OF pr assms(3)])
  from published_again[OF assms(1,2) this assms(5)] obtain cur where
    cur: "current_marks pf b (ms_doc ns s') = Inr cur"
      "Merge (pfIter pf) cur prepared now (bsMaxCooldown b) = vwEntries v" "entriesEqual cur (vwEntries v)"
      "vwRevision v = doc_rev (ms_doc ns s')" by blast
  show ?thesis
    using publish_attempt_idle[where load = "ms_Get False ns" and s = s', OF ms_available_load[OF assms(4)] cur(1), of prepared now] cur(2,3,4)
    by (simp add: Publish_def pr)
qed

definition demo_store :: "gotime \<Rightarrow> MemoryStore" where
  "demo_store t = NewMemoryStore\<lparr>msItems :=
     fmupd ''n'' \<lparr>snRevision = 1, snSchema = 1, snPayload = ''doc'', snUpdatedAt = t\<rparr> fmempty\<rparr>"

lemma demo_publish:
  "Publish demo_pf (ms_Get False ''n'') (\<lambda>r p. ms_Put False ''n'' r p t) demo_bs (fmupd ''d'' (demo_mark 9) fmempty) 5
     (\<lambda>_. False) (\<lambda>_ s. s) NewMemoryStore =
   (Inr \<lparr>vwEntries = fmupd ''d'' (demo_mark 9) fmempty, vwRevision = 1, vwUpdatedAt = t\<rparr>, demo_store t)"
proof -
  have m: "Merge sorted_list_of_fset fmempty (fmupd ''d'' (demo_mark 9) fmempty) 5 100 = fmupd ''d'' (demo_mark 9) fmempty"
    by (rule fmap_ext) (simp add: Merge_lookup[OF sorted_order.map_order_axioms] norm_of_def demo_mark_def NormalizeEntry_def go_simps)
  show ?thesis
    unfolding Publish_def demo_prepared sum.case publish_loop.simps
    using m by (simp add: publish_attempt_def publish_write_def current_marks_def ms_Get_def ms_Put_def
        NewMemoryStore_def mapControlPlaneError_def zero_CP_Snapshot_def encodeDocument_def demo_pf_def demo_bs_def entriesEqual_def
        fm_len_def fcard.rep_eq doc_rev_def demo_store_def Let_def)
qed

theorem publish_is_idempotent_witness:
  "\<exists>w. Publish demo_pf (ms_Get False ''n'') (\<lambda>r p. ms_Put False ''n'' r p 8) demo_bs (fmupd ''d'' (demo_mark 9) fmempty) 5
      (\<lambda>_. False) (\<lambda>_ s. s) (demo_store 7) = (Inr w, demo_store 7) \<and> vwEntries w = fmupd ''d'' (demo_mark 9) fmempty"
  using publish_is_idempotent[OF _ _ demo_publish[of 7], of 8]
  by (auto simp: demo_pf_def[THEN arg_cong[where f = pfIter]] demo_pf_def[THEN arg_cong[where f = pfRender]]
      demo_pf_def[THEN arg_cong[where f = pfParse]] demo_store_def NewMemoryStore_def sorted_order.map_order_axioms)

lemma demo_codec_ok: "json_codec demo_pf"
  by (auto simp: json_codec_def demo_pf_def demo_mark_def split: if_splits)

end
