(* ===== verification/BreakerSync.thy ===== *)
theory BreakerSync
  imports SharedState HealthBreaker
begin

text \<open>
  The breaker synchroniser (\<^verbatim>\<open>src/internal/breakersync/breakersync.go\<close>): one round loads the
  shared markers, applies those of the peers to the local health manager and publishes the
  local ones.  The store is the pair of functions \<open>load\<close> and \<open>publish\<close>; the lemmas hold for
  every store, the last property instantiates them with the breaker store of SharedState over
  the in-memory control plane.

  The clocks of a round are a record: \<open>ckApply\<close> and \<open>ckMark\<close> are the readings of the syncer,
  \<open>ckCall\<close>, \<open>ckSnap\<close> and \<open>ckSnapW\<close> those of the health manager during the calls it makes.
\<close>

record Syncer =
  syReplicaID :: string
  syMaxCooldown :: duration
  syInterval :: duration

record Syncer_Options =
  soReplicaID :: string
  soMaxCooldown :: duration
  soInterval :: duration

datatype syncer_error = StoreRequired | ManagerRequired | ReplicaRequired

definition New_syncer :: "bool \<Rightarrow> bool \<Rightarrow> Syncer_Options \<Rightarrow> syncer_error + Syncer" where
  "New_syncer hasStore hasManager options =
     (if \<not> hasStore then Inl StoreRequired
      else if \<not> hasManager then Inl ManagerRequired
      else if soReplicaID options = [] then Inl ReplicaRequired
      else Inr \<lparr>syReplicaID = soReplicaID options,
        syMaxCooldown = (if soMaxCooldown options \<le> 0 then 30 * minute else soMaxCooldown options),
        syInterval = (if soInterval options \<le> 0 then 10 * second else soInterval options)\<rparr>)"

definition local_marker :: "State \<Rightarrow> gotime \<Rightarrow> SharedEntry option" where
  "local_marker s now =
     (case hsStatus s of
        Retired \<Rightarrow> Some \<lparr>seStatus = StatusRetired, seCooldownUntil = 0, seReasonClass = LastErrorClass s,
                         seOriginReplica = [], seObservedAt = LastChecked s\<rparr>
      | Cooldown \<Rightarrow>
          if After (CooldownUntil s) now
          then Some \<lparr>seStatus = StatusCooldown, seCooldownUntil = CooldownUntil s, seReasonClass = LastErrorClass s,
                     seOriginReplica = [], seObservedAt = LastChecked s\<rparr>
          else None
      | _ \<Rightarrow> None)"

fun markers_from :: "State list \<Rightarrow> gotime \<Rightarrow> marks \<Rightarrow> marks" where
  "markers_from [] now out = out"
| "markers_from (s # ss) now out =
     markers_from ss now
       (if Deployment s = [] then out
        else case local_marker s now of None \<Rightarrow> out | Some e \<Rightarrow> fmupd (Deployment s) e out)"

definition LocalMarkers :: "State list \<Rightarrow> gotime \<Rightarrow> marks" where
  "LocalMarkers states now = markers_from states now fmempty"

definition with_class :: "string \<Rightarrow> string \<Rightarrow> string" where
  "with_class reason cls = (if cls \<noteq> [] then reason @ '' ('' @ cls @ '')'' else reason)"

definition apply_entry :: "Syncer \<Rightarrow> gotime \<Rightarrow> gotime \<Rightarrow> string \<Rightarrow> SharedEntry \<Rightarrow> Manager \<Rightarrow> Manager" where
  "apply_entry sy now clk deployment entry m =
     (if seOriginReplica entry = syReplicaID sy then m
      else if seStatus entry = StatusCooldown
      then snd (ApplySharedCooldown deployment (seCooldownUntil entry)
             (with_class ''shared cooldown'' (seReasonClass entry)) clk m)
      else if seStatus entry = StatusRetired
      then snd (ApplySharedCooldown deployment (Add now (syMaxCooldown sy))
             (with_class ''shared retired (bounded)'' (seReasonClass entry)) clk m)
      else m)"

fun apply_keys :: "Syncer \<Rightarrow> gotime \<Rightarrow> (nat \<Rightarrow> gotime) \<Rightarrow> marks \<Rightarrow> string list \<Rightarrow> Manager \<Rightarrow> Manager" where
  "apply_keys sy now clk entries [] m = m"
| "apply_keys sy now clk entries (d # ds) m =
     apply_keys sy now clk entries ds
       (case fmlookup entries d of None \<Rightarrow> m | Some e \<Rightarrow> apply_entry sy now (clk (length ds)) d e m)"

definition apply_shared ::
    "(string fset \<Rightarrow> string list) \<Rightarrow> Syncer \<Rightarrow> gotime \<Rightarrow> (nat \<Rightarrow> gotime) \<Rightarrow> marks \<Rightarrow> Manager \<Rightarrow> Manager" where
  "apply_shared iter sy now clk entries m = apply_keys sy now clk entries (iter (fmdom entries)) m"

record sync_clock =
  ckApply :: gotime
  ckCall :: "nat \<Rightarrow> gotime"
  ckSnap :: gotime
  ckSnapW :: gotime
  ckMark :: gotime

datatype sync_error = LoadFailed breaker_error | PublishFailed breaker_error

definition SyncOnce ::
    "(string fset \<Rightarrow> string list) \<Rightarrow> ('s \<Rightarrow> breaker_error + BreakerView)
       \<Rightarrow> (marks \<Rightarrow> 's \<Rightarrow> (breaker_error + BreakerView) \<times> 's) \<Rightarrow> Syncer \<Rightarrow> sync_clock
       \<Rightarrow> Manager \<times> 's \<Rightarrow> sync_error option \<times> Manager \<times> 's" where
  "SyncOnce iter load publish sy ck = (\<lambda>(m, s).
     case load s of
       Inl e \<Rightarrow> (Some (LoadFailed e), m, s)
     | Inr view \<Rightarrow>
         (let m1 = apply_shared iter sy (ckApply ck) (ckCall ck) (vwEntries view) m;
              (states, m2) = Snapshot iter (ckSnap ck) (ckSnapW ck) m1
          in case publish (LocalMarkers states (ckMark ck)) s of
               (Inl e, s') \<Rightarrow> (Some (PublishFailed e), m2, s')
             | (Inr v, s') \<Rightarrow> (None, m2, s')))"

text \<open>The rounds of \<open>Run\<close>, one per tick until its context is done; \<open>round\<close> drops the error.\<close>

fun Run_rounds ::
    "(string fset \<Rightarrow> string list) \<Rightarrow> ('s \<Rightarrow> breaker_error + BreakerView)
       \<Rightarrow> (marks \<Rightarrow> 's \<Rightarrow> (breaker_error + BreakerView) \<times> 's) \<Rightarrow> Syncer \<Rightarrow> sync_clock list
       \<Rightarrow> Manager \<times> 's \<Rightarrow> Manager \<times> 's" where
  "Run_rounds iter load publish sy [] ms = ms"
| "Run_rounds iter load publish sy (ck # cks) ms =
     Run_rounds iter load publish sy cks (snd (SyncOnce iter load publish sy ck ms))"

section \<open>What applying markers does to one deployment\<close>

text \<open>A deployment the local manager keeps out of rotation at a time.\<close>

definition excluded :: "gotime \<Rightarrow> State \<Rightarrow> bool" where
  "excluded t s \<longleftrightarrow> hsStatus s = Retired \<or> hsStatus s = Cooldown \<and> t < CooldownUntil s"

lemma ApplySharedCooldown_cases:
  obtains "ApplySharedCooldown d u r t m = (False, m)"
  | s where "ApplySharedCooldown d u r t m = (True, put_state d s m)" "hsStatus s = Cooldown" "CooldownUntil s = u" "t < u"
      "hsStatus (state_of m d) \<noteq> Retired" "hsStatus (state_of m d) = Cooldown \<longrightarrow> CooldownUntil (state_of m d) < u"
  by (cases "fst (ApplySharedCooldown d u r t m)")
    (auto simp: ApplySharedCooldown_def Let_def After_def split: if_splits)

lemma ApplySharedCooldown_excluded:
  "excluded T (state_of m d) \<Longrightarrow> excluded T (state_of (snd (ApplySharedCooldown e u r t m)) d)"
  by (cases rule: ApplySharedCooldown_cases[of e u r t m]) (auto simp: excluded_def)

lemma ApplySharedCooldown_retired:
  "hsStatus (state_of (snd (ApplySharedCooldown e u r t m)) d) = Retired \<longleftrightarrow> hsStatus (state_of m d) = Retired"
  by (cases rule: ApplySharedCooldown_cases[of e u r t m]) auto

lemma ApplySharedCooldown_takes:
  "d \<noteq> [] \<Longrightarrow> t \<le> T \<Longrightarrow> T < u \<Longrightarrow> 0 < u \<Longrightarrow> excluded T (state_of (snd (ApplySharedCooldown d u r t m)) d)"
  by (auto simp: ApplySharedCooldown_def Let_def excluded_def go_simps)

lemma ApplySharedCooldown_bounded:
  "u \<le> T \<Longrightarrow> \<not> excluded T (state_of m d) \<Longrightarrow> \<not> excluded T (state_of (snd (ApplySharedCooldown e u r t m)) d)"
  by (cases rule: ApplySharedCooldown_cases[of e u r t m]) (auto simp: excluded_def)

lemma apply_entry_excluded: "excluded T (state_of m d) \<Longrightarrow> excluded T (state_of (apply_entry sy now t e x m) d)"
  by (simp add: apply_entry_def ApplySharedCooldown_excluded)

lemma apply_entry_retired:
  "hsStatus (state_of (apply_entry sy now t e x m) d) = Retired \<longleftrightarrow> hsStatus (state_of m d) = Retired"
  by (simp add: apply_entry_def ApplySharedCooldown_retired)

lemma apply_entry_bounded:
  assumes "now + syMaxCooldown sy \<le> T" and "seStatus x = StatusCooldown \<longrightarrow> seCooldownUntil x \<le> T"
    and "\<not> excluded T (state_of m d)"
  shows "\<not> excluded T (state_of (apply_entry sy now t e x m) d)"
  using assms by (simp add: apply_entry_def Add_def ApplySharedCooldown_bounded)

lemma apply_keys_excluded: "excluded T (state_of m d) \<Longrightarrow> excluded T (state_of (apply_keys sy now clk es ds m) d)"
  by (induction ds arbitrary: m) (simp_all add: apply_entry_excluded split: option.split)

lemma apply_keys_retired:
  "hsStatus (state_of (apply_keys sy now clk es ds m) d) = Retired \<longleftrightarrow> hsStatus (state_of m d) = Retired"
  by (induction ds arbitrary: m) (simp_all add: apply_entry_retired split: option.split)

lemma apply_keys_bounded:
  assumes "now + syMaxCooldown sy \<le> T"
    and "\<And>k x. fmlookup es k = Some x \<Longrightarrow> seStatus x = StatusCooldown \<Longrightarrow> seCooldownUntil x \<le> T"
    and "\<not> excluded T (state_of m d)"
  shows "\<not> excluded T (state_of (apply_keys sy now clk es ds m) d)"
  using assms(3)
proof (induction ds arbitrary: m)
  case (Cons e ds)
  have "fmlookup es e = Some x \<Longrightarrow> \<not> excluded T (state_of (apply_entry sy now (clk (length ds)) e x m) d)" for x
    using apply_entry_bounded[OF assms(1) _ Cons.prems] assms(2) by blast
  with Cons show ?case by (simp split: option.split)
qed simp

lemma apply_keys_takes:
  assumes "d \<in> set ds" and "d \<noteq> []" and "fmlookup es d = Some x" and "seOriginReplica x \<noteq> syReplicaID sy"
    and "\<And>k. clk k \<le> T" and "0 \<le> T"
    and "seStatus x = StatusRetired \<and> T < now + syMaxCooldown sy \<or> seStatus x = StatusCooldown \<and> T < seCooldownUntil x"
  shows "excluded T (state_of (apply_keys sy now clk es ds m) d)"
  using assms(1)
proof (induction ds arbitrary: m)
  case (Cons e ds)
  show ?case
  proof (cases "e = d")
    case True
    have "excluded T (state_of (apply_entry sy now (clk (length ds)) d x m) d)"
      using assms by (auto simp: apply_entry_def Add_def intro!: ApplySharedCooldown_takes)
    then show ?thesis using True assms(3) by (simp add: apply_keys_excluded)
  qed (use Cons in simp)
qed simp

section \<open>Snapshots\<close>

lemma Snapshot_state:
  "state_of (snd (Snapshot iter t t' m)) d = state_of m d \<or>
   fmlookup (mStates m) d \<noteq> None \<and>
   state_of (snd (Snapshot iter t t' m)) d = normalizeScopes (normalizeGlobal (state_of m d) t') t'"
  by (cases "fmlookup (mStates m) d") (auto simp: Snapshot_sections Let_def state_of_def fm_get_def)

lemma normalize_excluded:
  "t' \<le> T \<Longrightarrow> excluded T s \<Longrightarrow> excluded T (normalizeScopes (normalizeGlobal s t') t')"
  by (auto simp: excluded_def normalizeScopes_def normalizeGlobal_def cooldown_over_def go_simps)

lemma normalize_retired: "hsStatus (normalizeScopes (normalizeGlobal s t') t') = Retired \<longleftrightarrow> hsStatus s = Retired"
  by (auto simp: normalizeScopes_def normalizeGlobal_def cooldown_over_def)

lemma normalize_not_excluded: "\<not> excluded T s \<Longrightarrow> \<not> excluded T (normalizeScopes (normalizeGlobal s t') t')"
  by (auto simp: excluded_def normalizeScopes_def normalizeGlobal_def)

lemma Snapshot_excluded:
  "t' \<le> T \<Longrightarrow> excluded T (state_of m d) \<Longrightarrow> excluded T (state_of (snd (Snapshot iter t t' m)) d)"
  using Snapshot_state[of iter t t' m d] normalize_excluded by fastforce

lemma Snapshot_not_excluded:
  "\<not> excluded T (state_of m d) \<Longrightarrow> \<not> excluded T (state_of (snd (Snapshot iter t t' m)) d)"
  using Snapshot_state[of iter t t' m d] normalize_not_excluded by fastforce

lemma Snapshot_retired:
  "hsStatus (state_of (snd (Snapshot iter t t' m)) d) = Retired \<longleftrightarrow> hsStatus (state_of m d) = Retired"
  using Snapshot_state[of iter t t' m d] normalize_retired by fastforce

lemma SyncOnce_cases:
  obtains (failed) e where "load s = Inl e" "SyncOnce iter load publish sy ck (m, s) = (Some (LoadFailed e), m, s)"
  | (ran) view r s' where "load s = Inr view"
      "publish (LocalMarkers (fst (Snapshot iter (ckSnap ck) (ckSnapW ck)
          (apply_shared iter sy (ckApply ck) (ckCall ck) (vwEntries view) m))) (ckMark ck)) s = (r, s')"
      "SyncOnce iter load publish sy ck (m, s) =
        ((case r of Inl e \<Rightarrow> Some (PublishFailed e) | Inr _ \<Rightarrow> None),
         snd (Snapshot iter (ckSnap ck) (ckSnapW ck)
           (apply_shared iter sy (ckApply ck) (ckCall ck) (vwEntries view) m)), s')"
proof (cases "load s")
  case (Inr view)
  then show ?thesis
    by (intro ran[OF Inr surjective_pairing])
      (simp add: SyncOnce_def Let_def split_beta split: sum.split prod.split)
qed (simp add: failed SyncOnce_def)

lemma Normalize_bounded:
  "0 < mx \<Longrightarrow> NormalizeEntry e now mx = Inr (Some n) \<Longrightarrow> seStatus n = StatusCooldown \<Longrightarrow> seCooldownUntil n \<le> now + mx"
  by (auto simp: NormalizeEntry_def go_simps split: if_splits)

lemma BreakerLoad_bounded:
  assumes "map_order (pfIter pf)" and "0 < bsMaxCooldown b" and "BreakerLoad pf load b now s = Inr view"
    and "fmlookup (vwEntries view) k = Some x" and "seStatus x = StatusCooldown"
  shows "seCooldownUntil x \<le> now + bsMaxCooldown b"
  using assms(2-5) Normalize_bounded
  by (auto simp: BreakerLoad_def Merge_lookup[OF assms(1)] norm_of_def split: sum.splits if_splits option.splits)

section \<open>Reaching a peer\<close>

lemma entriesEqual_lookup:
  assumes "entriesEqual a b" and "fmlookup b d = Some m"
  obtains c where "fmlookup a d = Some c" "same_marker c m"
proof -
  have key: "\<exists>l r. fmlookup a k = Some l \<and> fmlookup b k = Some r \<and> same_marker l r" if "k |\<in>| fmdom a" for k
    using assms(1) that by (cases "fmlookup a k"; cases "fmlookup b k") (auto simp: entriesEqual_def dest!: fbspec[where x = k] dest: fmdomI fmdom_notD)
  have "fmdom a = fmdom b"
    by (rule fcard_seteq) (use key assms(1) in \<open>auto simp: entriesEqual_def fm_len_def intro: fmdomI\<close>)
  then show ?thesis using key[of d] assms(2) that by (auto dest: fmdomI)
qed

lemma markers_from_lookup:
  assumes "distinct ds" and "\<And>k. k \<in> set ds \<Longrightarrow> Deployment (f k) = k"
  shows "fmlookup (markers_from (map f ds) now out) d =
    (if d \<in> set ds \<and> d \<noteq> [] then (case local_marker (f d) now of None \<Rightarrow> fmlookup out d | Some e \<Rightarrow> Some e)
     else fmlookup out d)"
  using assms
proof (induction ds arbitrary: out)
  case (Cons k ds)
  then show ?case by (cases "k = d") (auto split: option.split)
qed simp

lemma prepare_keys_keep:
  "prepare_keys b now local ds out = Inr p \<Longrightarrow> d \<notin> set ds \<Longrightarrow> fmlookup p d = fmlookup out d"
  by (induction b now local ds out rule: prepare_keys.induct) (auto split: if_splits option.splits sum.splits)

lemma prepare_keys_lookup:
  assumes "prepare_keys b now local ds out = Inr p" and "distinct ds" and "d \<in> set ds" and "fmlookup local d = Some e"
    and "NormalizeEntry (stamp_entry b now e) now (bsMaxCooldown b) = Inr (Some n)"
  shows "fmlookup p d = Some n"
  using assms
proof (induction b now local ds out rule: prepare_keys.induct)
  case (2 b now local k ks out)
  then show ?case
    by (cases "k = d") (auto dest: prepare_keys_keep split: if_splits option.splits sum.splits)
qed simp

text \<open>A marker that keeps its deployment out at a time.\<close>

definition holds :: "gotime \<Rightarrow> SharedEntry \<Rightarrow> bool" where
  "holds T e \<longleftrightarrow> seStatus e = StatusRetired \<or> seStatus e = StatusCooldown \<and> T < seCooldownUntil e"

lemma Normalize_holds:
  assumes "holds T e" and "0 < now" and "now \<le> T" and "T < now + mx"
  shows "\<exists>n. NormalizeEntry e now mx = Inr (Some n) \<and> holds T n"
  using assms by (auto simp: NormalizeEntry_def holds_def go_simps)

lemma mergeEntry_holds:
  "active now mx a \<Longrightarrow> active now mx b \<Longrightarrow> holds T b \<Longrightarrow> holds T (mergeEntry a b)"
  using active_status[of now mx a] active_status[of now mx b] by (auto simp: mergeEntry_def holds_def After_def)

lemma Merge_holds:
  assumes "map_order iter" and "d \<noteq> []" and "fmlookup b d = Some e" and "holds T e" and "0 < now" and "now \<le> T" and "T < now + mx"
  shows "\<exists>m. fmlookup (Merge iter a b now mx) d = Some m \<and> holds T m"
proof -
  obtain n where n: "norm_of now mx b d = Some n" "holds T n"
    using Normalize_holds[OF assms(4-7)] assms(2,3) by (auto simp: norm_of_def)
  have "active now mx n" by (rule norm_of_active[OF less_imp_le[OF assms(5)] n(1)])
  then show ?thesis
    using n norm_of_active[OF less_imp_le[OF assms(5)], of mx a d] mergeEntry_holds
    by (cases "norm_of now mx a d") (auto simp: Merge_lookup[OF assms(1)])
qed

lemma decode_limits:
  "decodeDocument iter parse p me mb = Inr x \<Longrightarrow> decodeDocument iter parse p me' mb' = Inr y \<Longrightarrow> y = x"
  by (auto simp: decodeDocument_def split: if_splits option.splits prod.splits)

lemma wf_apply_keys: "(\<And>k. 0 < clk k) \<Longrightarrow> wf_manager m \<Longrightarrow> wf_manager (apply_keys sy now clk es ds m)"
proof (induction ds arbitrary: m)
  case (Cons d ds)
  have "wf_manager (apply_entry sy now (clk k) d x m)" for k x
    using Cons.prems by (simp add: apply_entry_def wf_ApplySharedCooldown)
  with Cons show ?case by (simp split: option.split)
qed simp

lemma Snapshot_list: "fst (Snapshot iter t t' m) = map (state_of (snd (Snapshot iter t t' m))) (iter (fmdom (mStates (snd (Snapshot iter t t' m)))))"
  by (simp add: Snapshot_sections Let_def)

lemma LocalMarkers_holds:
  assumes "map_order iter" and "wf_manager m" and "d \<noteq> []" and "ck \<le> T"
    and "hsStatus (state_of m d) = Cooldown" and "T < CooldownUntil (state_of m d)"
  shows "\<exists>e. fmlookup (LocalMarkers (map (state_of m) (iter (fmdom (mStates m)))) ck) d = Some e \<and> holds T e"
proof -
  have dep: "Deployment (state_of m k) = k" if "k \<in> set (iter (fmdom (mStates m)))" for k
    using that assms(2) map_order.iter_set[OF assms(1)]
    by (auto simp: wf_manager_def wf_state_def fmpred_iff state_of_def fm_get_def fmlookup_dom_iff)
  have "d |\<in>| fmdom (mStates m)"
    using assms(5) by (auto simp: state_of_def fm_get_def zero_State_def fmlookup_dom_iff split: option.splits)
  then show ?thesis
    using markers_from_lookup[OF map_order.iter_distinct[OF assms(1)] dep, where d = d]
      map_order.iter_set[OF assms(1)] assms(3-6)
    by (auto simp: LocalMarkers_def local_marker_def holds_def After_def)
qed

text \<open>The strings a replica puts into its markers.\<close>

definition utf8_health :: "Manager \<Rightarrow> bool" where
  "utf8_health m \<longleftrightarrow> (\<forall>d s. fmlookup (mStates m) d = Some s \<longrightarrow> utf8 (Deployment s) \<and> utf8 (LastErrorClass s))"

lemma utf8_health_state: "utf8_health m \<Longrightarrow> utf8 (Deployment (state_of m d)) \<and> utf8 (LastErrorClass (state_of m d))"
  by (cases "fmlookup (mStates m) d") (auto simp: utf8_health_def state_of_def fm_get_def zero_State_def)

lemma utf8_apply_entry: "utf8_health m \<Longrightarrow> utf8 d \<Longrightarrow> utf8_health (apply_entry sy now t d x m)"
  using utf8_health_state[of m d]
  by (auto simp: apply_entry_def ApplySharedCooldown_def Let_def utf8_health_def put_state_def split: if_splits)

lemma utf8_apply_keys: "utf8_marks es \<Longrightarrow> utf8_health m \<Longrightarrow> utf8_health (apply_keys sy now clk es ds m)"
proof (induction ds arbitrary: m)
  case (Cons d ds)
  have "utf8_health (apply_entry sy now (clk (length ds)) d x m)" if "fmlookup es d = Some x" for x
    using utf8_apply_entry[OF Cons.prems(2)] utf8_marks_lookup[OF Cons.prems(1) that] by blast
  with Cons show ?case by (simp split: option.split)
qed simp

lemma utf8_Snapshot: "utf8_health m \<Longrightarrow> utf8_health (snd (Snapshot iter t t' m))"
  by (auto simp: Snapshot_sections Let_def utf8_health_def normalizeScopes_def normalizeGlobal_def)

lemma markers_utf8:
  assumes "\<forall>s \<in> set ss. utf8 (Deployment s) \<and> utf8 (LastErrorClass s)" and "utf8_marks out"
  shows "utf8_marks (markers_from ss now out)"
  using assms
proof (induction ss arbitrary: out)
  case (Cons s ss)
  have "utf8_marks (fmupd (Deployment s) e out)" if "local_marker s now = Some e" for e
    using that Cons.prems by (auto simp: local_marker_def intro!: utf8_marks_upd split: Status.splits if_splits)
  with Cons show ?case by (simp split: option.split)
qed simp

lemma LocalMarkers_utf8: "utf8_health m \<Longrightarrow> utf8_marks (LocalMarkers (map (state_of m) ds) now)"
  unfolding LocalMarkers_def by (rule markers_utf8) (use utf8_health_state in auto)

text \<open>One direction of the exchange: a marker handed to a successful publication is in the
  document, at least as strong, for whoever reads it.\<close>

lemma published_holds:
  assumes "map_order (pfIter pf)" and "0 < now" and "now \<le> T" and "T < now + bsMaxCooldown b" and "d \<noteq> []"
    and "json_codec pf" and "Publish pf (ms_Get False ns) (\<lambda>r p. ms_Put False ns r p t) b local now (\<lambda>_. False) (\<lambda>_ s. s) s = (Inr v, s')"
    and "fmlookup local d = Some e" and "holds T e" and "utf8_marks local" and "utf8 (bsReplicaID b)"
  shows "\<exists>cur c. current_marks pf b (ms_doc ns s') = Inr cur \<and> fmlookup cur d = Some c \<and> holds T c"
proof -
  obtain prepared where pr: "prepareLocal (pfIter pf) b local now = Inr prepared"
    using assms(7) by (auto simp: Publish_def split: sum.splits)
  have "holds T (stamp_entry b now e)" using assms(9) by (simp add: holds_def stamp_entry_def Let_def)
  then obtain n where n: "NormalizeEntry (stamp_entry b now e) now (bsMaxCooldown b) = Inr (Some n)" "holds T n"
    using Normalize_holds assms(2-4) by blast
  have "d \<in> set (pfIter pf (fmdom local))" using assms(8) map_order.iter_set[OF assms(1)] by (simp add: fmdomI)
  then have p: "fmlookup prepared d = Some n"
    using prepare_keys_lookup[OF _ map_order.iter_distinct[OF assms(1)] _ assms(8) n(1)] pr by (simp add: prepareLocal_def)
  have pub: "published pf (ms_doc ns) b prepared now s v s'" by (rule Publish_alone[OF pr assms(7)])
  have "utf8_marks (vwEntries v)" by (rule published_utf8[OF assms(6,1) prepared_utf8[OF assms(11,10) pr] pub])
  from published_again[OF assms(1) less_imp_le[OF assms(2)] pub json_codec_reads_back[OF assms(6) this]] obtain cur where
    cur: "current_marks pf b (ms_doc ns s') = Inr cur"
      "Merge (pfIter pf) cur prepared now (bsMaxCooldown b) = vwEntries v" "entriesEqual cur (vwEntries v)" by blast
  obtain m where m: "fmlookup (vwEntries v) d = Some m" "holds T m"
    using Merge_holds[OF assms(1,5) p n(2) assms(2-4), of cur] cur(2) by auto
  obtain c where "fmlookup cur d = Some c" "same_marker c m" by (rule entriesEqual_lookup[OF cur(3) m(1)])
  then show ?thesis using cur(1) m(2) by (auto simp: same_marker_def holds_def)
qed

lemma loaded_holds:
  assumes "map_order (pfIter pf)" and "0 < now" and "now \<le> T" and "T < now + bsMaxCooldown b'" and "d \<noteq> []"
    and "current_marks pf b (ms_doc ns s) = Inr cur" and "fmlookup cur d = Some c" and "holds T c"
    and "BreakerLoad pf (ms_Get False ns) b' now s = Inr view"
  shows "\<exists>x. fmlookup (vwEntries view) d = Some x \<and> holds T x"
proof -
  obtain sn where sn: "ms_doc ns s = Some sn"
    "decodeDocument (pfIter pf) (pfParse pf) (snPayload sn) (bsMaxEntries b) (bsMaxDocumentBytes b) = Inr cur"
    using assms(6,7) by (auto simp: current_marks_def zero_CP_Snapshot_def split: option.splits if_splits)
  then have get: "ms_Get False ns s = Inr sn"
    using assms(9) by (auto simp: BreakerLoad_def ms_Get_def ms_doc_def mapControlPlaneError_def split: if_splits)
  obtain y where y: "decodeDocument (pfIter pf) (pfParse pf) (snPayload sn) (bsMaxEntries b') (bsMaxDocumentBytes b') = Inr y"
    "vwEntries view = Merge (pfIter pf) fmempty y now (bsMaxCooldown b')"
    using assms(9) get by (auto simp: BreakerLoad_def split: sum.splits)
  then have "y = cur" using decode_limits[OF sn(2)] by blast
  then show ?thesis using Merge_holds[OF assms(1,5,7,8,2-4), of fmempty] y(2) by simp
qed

text \<open>The round of a replica whose breaker store sits on the in-memory control plane.\<close>

definition memory_round ::
    "platform \<Rightarrow> BreakerStore \<Rightarrow> Syncer \<Rightarrow> sync_clock \<Rightarrow> gotime \<Rightarrow> gotime
       \<Rightarrow> Manager \<times> MemoryStore \<Rightarrow> sync_error option \<times> Manager \<times> MemoryStore" where
  "memory_round pf b sy ck tload tpub =
     SyncOnce (pfIter pf) (BreakerLoad pf (ms_Get False (bsNamespace b)) b tload)
       (\<lambda>local. Publish pf (ms_Get False (bsNamespace b)) (\<lambda>r p. ms_Put False (bsNamespace b) r p tpub) b local tpub (\<lambda>_. False) (\<lambda>_ s. s))
       sy ck"

lemma round_publishes:
  assumes "map_order (pfIter pf)" and "json_codec pf"
    and "wf_manager m" and "\<forall>k. 0 < ckCall ck k" and "d \<noteq> []"
    and "hsStatus (state_of m d) = Cooldown" and "T < CooldownUntil (state_of m d)"
    and "memory_round pf b sy ck tL tP (m, s) = (None, m', s')"
    and "ckSnapW ck \<le> T" and "ckMark ck \<le> T" and "0 < tP" and "tP \<le> T" and "T < tP + bsMaxCooldown b"
    and "utf8_health m" and "utf8 (bsReplicaID b)"
  shows "\<exists>cur c. current_marks pf b (ms_doc (bsNamespace b) s') = Inr cur \<and> fmlookup cur d = Some c \<and> holds T c"
proof (rule SyncOnce_cases[of "BreakerLoad pf (ms_Get False (bsNamespace b)) b tL" s "pfIter pf"
      "\<lambda>local. Publish pf (ms_Get False (bsNamespace b)) (\<lambda>r p. ms_Put False (bsNamespace b) r p tP) b local tP (\<lambda>_. False) (\<lambda>_ s. s)" sy ck m])
  fix view :: BreakerView and q s1
  define m2 where "m2 = snd (Snapshot (pfIter pf) (ckSnap ck) (ckSnapW ck)
     (apply_shared (pfIter pf) sy (ckApply ck) (ckCall ck) (vwEntries view) m))"
  assume ld: "BreakerLoad pf (ms_Get False (bsNamespace b)) b tL s = Inr view"
    and pub: "Publish pf (ms_Get False (bsNamespace b)) (\<lambda>r p. ms_Put False (bsNamespace b) r p tP) b
      (LocalMarkers (fst (Snapshot (pfIter pf) (ckSnap ck) (ckSnapW ck)
          (apply_shared (pfIter pf) sy (ckApply ck) (ckCall ck) (vwEntries view) m))) (ckMark ck)) tP (\<lambda>_. False) (\<lambda>_ s. s) s = (q, s1)"
    and res: "SyncOnce (pfIter pf) (BreakerLoad pf (ms_Get False (bsNamespace b)) b tL)
        (\<lambda>local. Publish pf (ms_Get False (bsNamespace b)) (\<lambda>r p. ms_Put False (bsNamespace b) r p tP) b local tP (\<lambda>_. False) (\<lambda>_ s. s)) sy ck (m, s) =
        ((case q of Inl e \<Rightarrow> Some (PublishFailed e) | Inr _ \<Rightarrow> None), snd (Snapshot (pfIter pf) (ckSnap ck) (ckSnapW ck)
     (apply_shared (pfIter pf) sy (ckApply ck) (ckCall ck) (vwEntries view) m)), s1)"
  obtain v where q: "q = Inr v" "s1 = s'"
    using res assms(8) by (auto simp: memory_round_def split: sum.splits)
  have "excluded T (state_of m2 d)"
    using assms(6,7,9) unfolding m2_def apply_shared_def
    by (intro Snapshot_excluded apply_keys_excluded) (simp_all add: excluded_def)
  moreover have "hsStatus (state_of m2 d) \<noteq> Retired"
    using assms(6) by (simp add: m2_def apply_shared_def Snapshot_retired apply_keys_retired)
  ultimately have st: "hsStatus (state_of m2 d) = Cooldown" "T < CooldownUntil (state_of m2 d)" by (auto simp: excluded_def)
  have "wf_manager m2" using assms(3,4) by (simp add: m2_def apply_shared_def wf_Snapshot wf_apply_keys)
  from LocalMarkers_holds[OF assms(1) this assms(5,10) st] obtain e where
    "fmlookup (LocalMarkers (map (state_of m2) (pfIter pf (fmdom (mStates m2)))) (ckMark ck)) d = Some e" "holds T e" by blast
  moreover have "utf8_health m2"
    unfolding m2_def apply_shared_def
    by (intro utf8_Snapshot utf8_apply_keys loaded_utf8[OF assms(2,1) ld] assms(14))
  ultimately show ?thesis
    using published_holds[OF assms(1,11-13,5,2), of "bsNamespace b" tP _ s v s' e] LocalMarkers_utf8 assms(15) pub q
    unfolding Snapshot_list m2_def by blast
qed (use assms(8) in \<open>auto simp: memory_round_def\<close>)

lemma round_takes:
  assumes "map_order (pfIter pf)" and "d \<noteq> []"
    and "current_marks pf b (ms_doc (bsNamespace b') s) = Inr cur" and "fmlookup cur d = Some c" and "holds T c"
    and "memory_round pf b' sy ck tL tP (m, s) = (r, m', s')" and "\<forall>e. r \<noteq> Some (LoadFailed e)"
    and "\<forall>k. ckCall ck k \<le> T" and "ckSnapW ck \<le> T" and "T < ckApply ck + syMaxCooldown sy"
    and "0 < tL" and "tL \<le> T" and "T < tL + bsMaxCooldown b'"
  shows "excluded T (state_of m' d) \<or>
    (\<exists>view x. BreakerLoad pf (ms_Get False (bsNamespace b')) b' tL s = Inr view \<and> fmlookup (vwEntries view) d = Some x \<and>
       seOriginReplica x = syReplicaID sy)"
proof (rule SyncOnce_cases[of "BreakerLoad pf (ms_Get False (bsNamespace b')) b' tL" s "pfIter pf"
      "\<lambda>local. Publish pf (ms_Get False (bsNamespace b')) (\<lambda>r p. ms_Put False (bsNamespace b') r p tP) b' local tP (\<lambda>_. False) (\<lambda>_ s. s)" sy ck m])
  fix view q s1
  assume ld: "BreakerLoad pf (ms_Get False (bsNamespace b')) b' tL s = Inr view"
    and res: "SyncOnce (pfIter pf) (BreakerLoad pf (ms_Get False (bsNamespace b')) b' tL)
        (\<lambda>local. Publish pf (ms_Get False (bsNamespace b')) (\<lambda>r p. ms_Put False (bsNamespace b') r p tP) b' local tP (\<lambda>_. False) (\<lambda>_ s. s)) sy ck (m, s) =
        ((case q of Inl e \<Rightarrow> Some (PublishFailed e) | Inr _ \<Rightarrow> None), snd (Snapshot (pfIter pf) (ckSnap ck) (ckSnapW ck)
     (apply_shared (pfIter pf) sy (ckApply ck) (ckCall ck) (vwEntries view) m)), s1)"
  obtain x where x: "fmlookup (vwEntries view) d = Some x" "holds T x"
    using loaded_holds[OF assms(1,11-13,2-5) ld] by blast
  have "seOriginReplica x \<noteq> syReplicaID sy \<Longrightarrow>
      excluded T (state_of (apply_keys sy (ckApply ck) (ckCall ck) (vwEntries view) (pfIter pf (fmdom (vwEntries view))) m) d)"
    by (rule apply_keys_takes[OF _ assms(2) x(1)])
      (use assms(8,10-12) x in \<open>auto simp: holds_def map_order.iter_set[OF assms(1)] intro: fmdomI\<close>)
  then have "seOriginReplica x \<noteq> syReplicaID sy \<Longrightarrow> excluded T (state_of m' d)"
    using res assms(6,9) by (auto simp: memory_round_def apply_shared_def intro!: Snapshot_excluded)
  then show ?thesis using ld x(1) by blast
qed (use assms(6,7) in \<open>auto simp: memory_round_def\<close>)

section \<open>Properties\<close>

text \<open>C32: A synchronisation round fails local and is conservative, whatever the store answers: a
  failed load changes neither the health manager nor the store; no round retires a deployment
  or revives a retired one; and no round readmits a deployment the local manager excludes.
\<close>

theorem sync_is_conservative:
  assumes "SyncOnce iter load publish sy ck (m, s) = (r, m', s')" and "ckSnapW ck \<le> T"
  shows "((\<exists>e. load s = Inl e) \<longrightarrow> m' = m \<and> s' = s \<and> r \<noteq> None) \<and>
    (hsStatus (state_of m' d) = Retired \<longleftrightarrow> hsStatus (state_of m d) = Retired) \<and>
    (excluded T (state_of m d) \<longrightarrow> excluded T (state_of m' d))"
proof (cases rule: SyncOnce_cases[of load s iter publish sy ck m])
  case (ran view q s1)
  then show ?thesis
    using assms by (auto simp: Snapshot_retired apply_shared_def apply_keys_retired intro!: Snapshot_excluded apply_keys_excluded)
qed (use assms in auto)

text \<open>C33: What peers say excludes a deployment for a bounded time only: a deployment the local
  manager itself does not exclude at a time past the cooldown bounds of the round (those of
  the store at its load and of the syncer) is not excluded then after the round either.
\<close>

theorem remote_exclusion_is_bounded:
  assumes "SyncOnce iter (BreakerLoad pf load b now) publish sy ck (m, s) = (r, m', s')"
    and "map_order (pfIter pf)" and "0 < bsMaxCooldown b"
    and "now + bsMaxCooldown b \<le> T" and "ckApply ck + syMaxCooldown sy \<le> T"
    and "\<not> excluded T (state_of m d)"
  shows "\<not> excluded T (state_of m' d)"
proof (cases rule: SyncOnce_cases[of "BreakerLoad pf load b now" s iter publish sy ck m])
  case (ran view q s1)
  have "seCooldownUntil x \<le> T" if "fmlookup (vwEntries view) k = Some x" "seStatus x = StatusCooldown" for k x
    using BreakerLoad_bounded[OF assms(2,3) ran(1) that] assms(4) by simp
  from apply_keys_bounded[OF assms(5) this assms(6)] show ?thesis
    using ran assms(1) by (auto simp: apply_shared_def intro!: Snapshot_not_excluded)
qed (use assms in auto)

text \<open>C31: A cooldown reaches the other replicas: when one replica excludes a deployment until after
  a time T and completes a round, and another replica then runs a round whose load succeeds,
  the second replica excludes the deployment at T as well, as long as T is within the cooldown
  bounds of both; the only exception is a shared marker that carries the second replica's own
  identity, which it does not apply to itself.  Both replicas use the same namespace of the
  in-memory control plane and nobody else writes to it between the two rounds or during
  them.  The names and error classes the first replica has on record are well-formed UTF-8, and
  so is its identity: JSON is only relied on to read such documents back.
\<close>

theorem cooldown_reaches_peer:
  assumes "map_order (pfIter pf)" and "json_codec pf" and "utf8_health mA" and "utf8 (bsReplicaID bA)"
    and "bsNamespace bB = bsNamespace bA"
    and "wf_manager mA" and "d \<noteq> []" and "hsStatus (state_of mA d) = Cooldown" and "T < CooldownUntil (state_of mA d)"
    and "memory_round pf bA syA ckA tlA tpA (mA, s0) = (None, mA', s1)"
    and "\<forall>k. 0 < ckCall ckA k" and "ckSnapW ckA \<le> T" and "ckMark ckA \<le> T"
    and "0 < tpA" and "tpA \<le> T" and "T < tpA + bsMaxCooldown bA"
    and "memory_round pf bB syB ckB tlB tpB (mB, s1) = (r, mB', s2)" and "\<forall>e. r \<noteq> Some (LoadFailed e)"
    and "\<forall>k. ckCall ckB k \<le> T" and "ckSnapW ckB \<le> T" and "T < ckApply ckB + syMaxCooldown syB"
    and "0 < tlB" and "tlB \<le> T" and "T < tlB + bsMaxCooldown bB"
  shows "excluded T (state_of mB' d) \<or>
    (\<exists>view x. BreakerLoad pf (ms_Get False (bsNamespace bB)) bB tlB s1 = Inr view \<and> fmlookup (vwEntries view) d = Some x \<and>
       seOriginReplica x = syReplicaID syB)"
proof -
  obtain cur c where "current_marks pf bA (ms_doc (bsNamespace bA) s1) = Inr cur" "fmlookup cur d = Some c" "holds T c"
    using round_publishes[OF assms(1,2,6,11,7-10,12-16,3,4)] by blast
  from round_takes[OF assms(1,7) this[folded assms(5)] assms(17-24)] show ?thesis .
qed

section \<open>Witnesses\<close>

definition demo_clock :: sync_clock where
  "demo_clock = \<lparr>ckApply = 5, ckCall = (\<lambda>_. 5), ckSnap = 5, ckSnapW = 5, ckMark = 5\<rparr>"

definition demo_syncer :: "string \<Rightarrow> Syncer" where
  "demo_syncer r = \<lparr>syReplicaID = r, syMaxCooldown = 100, syInterval = 10\<rparr>"

definition demo_tripped :: Manager where
  "demo_tripped = snd (ApplySharedCooldown ''d'' 9 ''x'' 1 (New 2 5))"

lemma demo_tripped_state:
  "fmlookup (mStates demo_tripped) k = (if k = ''d'' then Some (state_of demo_tripped ''d'') else None)"
  "hsStatus (state_of demo_tripped ''d'') = Cooldown" "CooldownUntil (state_of demo_tripped ''d'') = 9"
  "LastChecked (state_of demo_tripped ''d'') = 1" "LastErrorClass (state_of demo_tripped ''d'') = []"
  "Deployment (state_of demo_tripped ''d'') = ''d''" "Scopes (state_of demo_tripped ''d'') = fmempty" "wf_manager demo_tripped"
  using wf_ApplySharedCooldown[OF wf_New, of 1 "''d''" 9 "''x''" 2 5]
  by (auto simp: demo_tripped_def ApplySharedCooldown_def Let_def go_simps New_def state_of_def fm_get_def zero_State_def)

lemma demo_tripped_utf8: "utf8_health demo_tripped"
  by (auto simp: utf8_health_def demo_tripped_state split: if_splits)

lemma demo_tripped_dom: "fmdom (mStates demo_tripped) = {|''d''|}"
  by (rule fset_eqI) (simp add: fmlookup_dom_iff demo_tripped_state(1))

lemma demo_tripped_snapshot:
  "Snapshot sorted_list_of_fset 5 5 demo_tripped = ([state_of demo_tripped ''d''], demo_tripped)"
proof -
  have "\<not> fBex (fmran (mStates demo_tripped)) (\<lambda>s. stateNeedsNormalization s 5)"
    using demo_tripped_state by (auto simp: fmran'_alt_def stateNeedsNormalization_def cooldown_over_def go_simps elim!: fmranE split: if_splits)
  then show ?thesis by (simp add: Snapshot_sections demo_tripped_dom sorted_list_of_fset.rep_eq)
qed

lemma demo_namespace [simp]: "bsNamespace demo_bs = ''n''"
  by (simp add: demo_bs_def)

lemma demo_round_A:
  "memory_round demo_pf demo_bs (demo_syncer ''r'') demo_clock 5 5 (demo_tripped, NewMemoryStore) =
     (None, demo_tripped, demo_store 5)"
proof -
  define l where "l = fmupd ''d'' ((demo_mark 9)\<lparr>seOriginReplica := []\<rparr>) fmempty"
  have l: "LocalMarkers [state_of demo_tripped ''d''] 5 = l"
    using demo_tripped_state by (simp add: l_def LocalMarkers_def local_marker_def demo_mark_def go_simps)
  have "prepareLocal (pfIter demo_pf) demo_bs l 5 = Inr (fmupd ''d'' (demo_mark 9) fmempty)"
    by (simp add: l_def prepareLocal_def demo_pf_def demo_bs_def demo_mark_def stamp_entry_def NormalizeEntry_def go_simps
        sorted_list_of_fset.rep_eq)
  then have "Publish demo_pf (ms_Get False ''n'') (\<lambda>r p. ms_Put False ''n'' r p 5) demo_bs l 5 (\<lambda>_. False) (\<lambda>_ s. s) NewMemoryStore =
      (Inr \<lparr>vwEntries = fmupd ''d'' (demo_mark 9) fmempty, vwRevision = 1, vwUpdatedAt = 5\<rparr>, demo_store 5)"
    using demo_publish[of 5] by (simp add: Publish_def demo_prepared)
  moreover have "ms_Get False ''n'' NewMemoryStore = Inl ErrNotFound" by (simp add: ms_Get_def NewMemoryStore_def)
  moreover have "pfIter demo_pf = sorted_list_of_fset" by (simp add: demo_pf_def)
  ultimately show ?thesis
    using demo_tripped_snapshot l
    by (simp add: memory_round_def SyncOnce_def BreakerLoad_def mapControlPlaneError_def apply_shared_def demo_clock_def
        sorted_list_of_fset.rep_eq)
qed

lemma demo_load_B:
  "BreakerLoad demo_pf (ms_Get False ''n'') demo_bs 5 (demo_store 5) =
     Inr \<lparr>vwEntries = fmupd ''d'' (demo_mark 9) fmempty, vwRevision = 1, vwUpdatedAt = 5\<rparr>"
proof -
  have "Merge sorted_list_of_fset fmempty (fmupd ''d'' (demo_mark 9) fmempty) 5 100 = fmupd ''d'' (demo_mark 9) fmempty"
    by (rule fmap_ext) (simp add: Merge_lookup[OF sorted_order.map_order_axioms] norm_of_def demo_mark_def NormalizeEntry_def go_simps)
  then show ?thesis
    by (simp add: BreakerLoad_def ms_Get_def demo_store_def NewMemoryStore_def decodeDocument_def demo_pf_def demo_bs_def
        fm_len_def fcard.rep_eq sorted_list_of_fset.rep_eq keep_entry_def demo_mark_def go_simps)
qed

theorem sync_is_conservative_witness:
  "excluded 8 (state_of (fst (snd (memory_round demo_pf demo_bs (demo_syncer ''r'') demo_clock 5 5
     (demo_tripped, NewMemoryStore)))) ''d'')"
  unfolding demo_round_A
  using sync_is_conservative[OF demo_round_A[unfolded memory_round_def], of 8 "''d''"] demo_tripped_state
  by (simp add: demo_clock_def excluded_def)

theorem remote_exclusion_is_bounded_witness:
  "\<not> excluded 200 (state_of (fst (snd (memory_round demo_pf demo_bs (demo_syncer ''r'') demo_clock 5 5
     (demo_tripped, NewMemoryStore)))) ''d'')"
  unfolding demo_round_A
  using remote_exclusion_is_bounded[OF demo_round_A[unfolded memory_round_def], of 200 "''d''"] demo_tripped_state
  by (simp add: demo_clock_def demo_syncer_def demo_bs_def demo_pf_def excluded_def sorted_order.map_order_axioms)

theorem cooldown_reaches_peer_witness:
  "excluded 8 (state_of (fst (snd (memory_round demo_pf demo_bs (demo_syncer ''q'') demo_clock 5 5
     (New 2 5, demo_store 5)))) ''d'')"
proof -
  obtain r mB' s2 where B: "memory_round demo_pf demo_bs (demo_syncer ''q'') demo_clock 5 5 (New 2 5, demo_store 5) = (r, mB', s2)"
    by (cases "memory_round demo_pf demo_bs (demo_syncer ''q'') demo_clock 5 5 (New 2 5, demo_store 5)")
  have "r \<noteq> Some (LoadFailed e)" for e
    using B demo_load_B by (auto simp: memory_round_def SyncOnce_def split_beta Let_def split: sum.splits)
  then have "excluded 8 (state_of mB' ''d'') \<or>
    (\<exists>view x. BreakerLoad demo_pf (ms_Get False ''n'') demo_bs 5 (demo_store 5) = Inr view \<and>
       fmlookup (vwEntries view) ''d'' = Some x \<and> seOriginReplica x = syReplicaID (demo_syncer ''q''))"
    using cooldown_reaches_peer[OF _ demo_codec_ok demo_tripped_utf8 _ refl demo_tripped_state(8) _ demo_tripped_state(2) _ demo_round_A _ _ _ _ _ _ B]
    by (simp add: demo_pf_def demo_clock_def demo_syncer_def demo_bs_def demo_tripped_state sorted_order.map_order_axioms)
  then show ?thesis using B demo_load_B by (auto simp: demo_mark_def demo_syncer_def)
qed

end
