(* ===== verification/RetrySafety.thy ===== *)
theory RetrySafety
  imports Prelude
begin

text \<open>
  Retry safety (\<^verbatim>\<open>src/internal/retrysafety/retrysafety.go\<close>): what is known of an upstream
  attempt, the classification of transport errors and HTTP statuses, and the fixed-order
  replay policy.

  A dispatch error is what the classification reads of it: the operation of the first
  \<^verbatim>\<open>net.OpError\<close> and the first errno in its chain, as \<^verbatim>\<open>errors.As\<close> finds them, and its text.
\<close>

datatype SentState = SentNotSent | SentUnknown | SentConfirmed

datatype ExecutionState = ExecutionNone | ExecutionUnknown | ExecutionConfirmed

datatype IdempotencySupport = IdempotencyNone | IdempotencyUnverified | IdempotencyVerified

definition SupportForDialect :: "string \<Rightarrow> IdempotencySupport" where
  "SupportForDialect _ = IdempotencyNone"

definition ForwardClientKey :: "string \<Rightarrow> bool" where
  "ForwardClientKey _ = False"

definition GenerateProviderKey :: "string \<times> bool" where
  "GenerateProviderKey = ([], False)"

definition BodyEqualityProvesDuplicate :: bool where
  "BodyEqualityProvesDuplicate = False"

definition KeyMatches :: "string \<Rightarrow> string \<Rightarrow> bool" where
  "KeyMatches a b \<longleftrightarrow> a \<noteq> [] \<and> b \<noteq> [] \<and> a = b"

record dispatch_error =
  deOp :: "string option"
  deErrno :: "int option"
  deMsg :: string

fun Contains :: "string \<Rightarrow> string \<Rightarrow> bool" where
  "Contains [] t \<longleftrightarrow> t = []"
| "Contains (c # s) t \<longleftrightarrow> HasPrefix (c # s) t \<or> Contains s t"

abbreviation (input) ECONNREFUSED :: int where
  "ECONNREFUSED \<equiv> 111"

definition ClassifyTransportError :: "dispatch_error option \<Rightarrow> SentState" where
  "ClassifyTransportError err =
     (case err of
        None \<Rightarrow> SentNotSent
      | Some e \<Rightarrow>
          if deOp e = Some ''dial'' then SentNotSent
          else if Contains (deMsg e) ''connection refused'' \<or> Contains (deMsg e) ''no such host'' \<or>
                  Contains (deMsg e) ''all configured provider credentials are cooling down''
          then SentNotSent
          else if deErrno e = Some ECONNREFUSED then SentNotSent
          else SentUnknown)"

record Outcome =
  Sent :: SentState
  Execution :: ExecutionState
  ResponseCommitted :: bool
  OCancelled :: bool
  Retryable :: bool
  DurableSideEffect :: bool
  AttemptsUsed :: int
  OMaxAttempts :: int
  Deadline :: gotime

definition zero_Outcome :: Outcome where
  "zero_Outcome = \<lparr>Sent = SentNotSent, Execution = ExecutionNone, ResponseCommitted = False, OCancelled = False,
     Retryable = False, DurableSideEffect = False, AttemptsUsed = 0, OMaxAttempts = 0, Deadline = 0\<rparr>"

datatype replay_reason = NoReplayCancelled | NoReplayCommitted | NoReplayClass | NoReplayBudget | NoReplayDeadline
  | NoReplayDurable | ReplayAmbiguous | ReplaySafe

record Retry_Decision =
  Allow :: bool
  Reason :: replay_reason
  Ambiguous :: bool

definition Decide :: "Outcome \<Rightarrow> gotime \<Rightarrow> Retry_Decision" where
  "Decide o' now =
     (if OCancelled o' then \<lparr>Allow = False, Reason = NoReplayCancelled, Ambiguous = False\<rparr>
      else if ResponseCommitted o' then \<lparr>Allow = False, Reason = NoReplayCommitted, Ambiguous = False\<rparr>
      else if \<not> Retryable o' then \<lparr>Allow = False, Reason = NoReplayClass, Ambiguous = False\<rparr>
      else if OMaxAttempts o' \<le> 0 \<or> OMaxAttempts o' \<le> AttemptsUsed o'
      then \<lparr>Allow = False, Reason = NoReplayBudget, Ambiguous = False\<rparr>
      else if \<not> IsZero (Deadline o') \<and> \<not> Before now (Deadline o')
      then \<lparr>Allow = False, Reason = NoReplayDeadline, Ambiguous = False\<rparr>
      else if DurableSideEffect o' \<and> Execution o' \<noteq> ExecutionNone
      then \<lparr>Allow = False, Reason = NoReplayDurable, Ambiguous = True\<rparr>
      else if Execution o' = ExecutionUnknown \<or> Sent o' = SentUnknown
      then \<lparr>Allow = True, Reason = ReplayAmbiguous, Ambiguous = True\<rparr>
      else \<lparr>Allow = True, Reason = ReplaySafe, Ambiguous = False\<rparr>)"

definition TimeoutBeforeSend :: "int \<Rightarrow> int \<Rightarrow> Outcome" where
  "TimeoutBeforeSend used mx = zero_Outcome\<lparr>Retryable := True, AttemptsUsed := used, OMaxAttempts := mx\<rparr>"

definition TimeoutAfterSend :: "int \<Rightarrow> int \<Rightarrow> bool \<Rightarrow> Outcome" where
  "TimeoutAfterSend used mx durable =
     zero_Outcome\<lparr>Sent := SentUnknown, Execution := ExecutionUnknown, Retryable := True,
       DurableSideEffect := durable, AttemptsUsed := used, OMaxAttempts := mx\<rparr>"

definition Disconnect :: "int \<Rightarrow> int \<Rightarrow> bool \<Rightarrow> Outcome" where
  "Disconnect used mx durable =
     zero_Outcome\<lparr>Sent := SentUnknown, Execution := ExecutionUnknown, Retryable := True,
       DurableSideEffect := durable, AttemptsUsed := used, OMaxAttempts := mx\<rparr>"

definition StatusOutcome :: "int \<Rightarrow> int \<Rightarrow> int \<Rightarrow> Outcome" where
  "StatusOutcome status used mx =
     (let o' = zero_Outcome\<lparr>Sent := SentConfirmed, AttemptsUsed := used, OMaxAttempts := mx\<rparr>
      in if status = 400 \<or> status = 422 then o'\<lparr>Execution := ExecutionNone, Retryable := False\<rparr>
         else if status = 401 \<or> status = 403 \<or> status = 404 then o'\<lparr>Execution := ExecutionNone, Retryable := True\<rparr>
         else if status = 429 \<or> 500 \<le> status \<or> status = 408 then o'\<lparr>Execution := ExecutionUnknown, Retryable := True\<rparr>
         else o'\<lparr>Execution := ExecutionUnknown, Retryable := False\<rparr>)"

definition PartialStream :: "bool \<Rightarrow> int \<Rightarrow> int \<Rightarrow> Outcome" where
  "PartialStream committed used mx =
     (let o' = zero_Outcome\<lparr>Sent := SentConfirmed, Execution := ExecutionConfirmed, Retryable := True,
            AttemptsUsed := used, OMaxAttempts := mx\<rparr>
      in if committed then o'\<lparr>ResponseCommitted := True\<rparr> else o')"

section \<open>Properties\<close>

lemmas outcome_defs = zero_Outcome_def TimeoutBeforeSend_def TimeoutAfterSend_def Disconnect_def
  StatusOutcome_def PartialStream_def Let_def


text \<open>A stream that failed before anything was committed is replayed without being recorded as
  ambiguous, although its outcome says that the provider has executed the request.
\<close>

theorem uncommitted_stream_replay_not_ambiguous:
  "Execution (PartialStream False 1 4) = ExecutionConfirmed \<and> Allow (Decide (PartialStream False 1 4) now) \<and>
   \<not> Ambiguous (Decide (PartialStream False 1 4) now) \<and> Reason (Decide (PartialStream False 1 4) now) = ReplaySafe"
  by (simp add: outcome_defs Decide_def go_simps)

end
