(* ===== verification/Egress.thy ===== *)
theory Egress
  imports Prelude "HOL-Library.Word"
begin

unbundle bit_operations_syntax

text \<open>
  The egress boundary (\<^verbatim>\<open>src/internal/egress/policy.go\<close>, \<^verbatim>\<open>redirect.go\<close>): host lists, the
  classification of addresses with the IPv4 addresses that IPv6 forms embed, URL validation,
  the pinned dialer and the redirect policy.

  The part of \<^verbatim>\<open>net/netip\<close> the code uses is modelled on words: an address is the zero
  address, 32 bits, or 128 bits with a zone.  Parsing of addresses and URLs, splitting of
  host and port, DNS and the connection itself are arguments; no property depends on what
  they return.
\<close>

section \<open>Addresses\<close>

datatype Addr = NoAddr | V4 "32 word" | V6 "128 word" string

datatype Prefix = P4 "32 word" nat | P6 "128 word" nat

definition IsValid :: "Addr \<Rightarrow> bool" where
  "IsValid ip \<longleftrightarrow> ip \<noteq> NoAddr"

definition WithoutZone :: "Addr \<Rightarrow> Addr" where
  "WithoutZone ip = (case ip of V6 a z \<Rightarrow> V6 a [] | _ \<Rightarrow> ip)"

definition Is4In6 :: "Addr \<Rightarrow> bool" where
  "Is4In6 ip \<longleftrightarrow> (case ip of V6 a z \<Rightarrow> drop_bit 32 a = 0xffff | _ \<Rightarrow> False)"

definition Unmap :: "Addr \<Rightarrow> Addr" where
  "Unmap ip = (if Is4In6 ip then (case ip of V6 a z \<Rightarrow> V4 (ucast a) | _ \<Rightarrow> ip) else ip)"

definition IsLoopback :: "Addr \<Rightarrow> bool" where
  "IsLoopback ip \<longleftrightarrow>
     (case Unmap ip of NoAddr \<Rightarrow> False | V4 a \<Rightarrow> drop_bit 24 a = 127 | V6 a z \<Rightarrow> a = 1)"

definition IsMulticast :: "Addr \<Rightarrow> bool" where
  "IsMulticast ip \<longleftrightarrow>
     (case Unmap ip of NoAddr \<Rightarrow> False | V4 a \<Rightarrow> drop_bit 28 a = 0xe | V6 a z \<Rightarrow> drop_bit 120 a = 0xff)"

definition IsLinkLocalUnicast :: "Addr \<Rightarrow> bool" where
  "IsLinkLocalUnicast ip \<longleftrightarrow>
     (case Unmap ip of NoAddr \<Rightarrow> False | V4 a \<Rightarrow> drop_bit 16 a = 0xa9fe | V6 a z \<Rightarrow> drop_bit 118 a = 0x3fa)"

definition IsGlobalUnicast :: "Addr \<Rightarrow> bool" where
  "IsGlobalUnicast ip \<longleftrightarrow>
     (case Unmap ip of
        NoAddr \<Rightarrow> False
      | V4 a \<Rightarrow> a \<noteq> 0 \<and> a \<noteq> 0xffffffff \<and> \<not> IsLoopback ip \<and> \<not> IsMulticast ip \<and> \<not> IsLinkLocalUnicast ip
      | V6 a z \<Rightarrow> \<not> (a = 0 \<and> z = []) \<and> \<not> IsLoopback ip \<and> \<not> IsMulticast ip \<and> \<not> IsLinkLocalUnicast ip)"

definition IsPrivate :: "Addr \<Rightarrow> bool" where
  "IsPrivate ip \<longleftrightarrow>
     (case Unmap ip of
        NoAddr \<Rightarrow> False
      | V4 a \<Rightarrow> drop_bit 24 a = 10 \<or> drop_bit 20 a = 0xac1 \<or> drop_bit 16 a = 0xc0a8
      | V6 a z \<Rightarrow> drop_bit 121 a = 0x7e)"

text \<open>A prefix contains addresses of its own family only, and none with a zone.\<close>

definition PrefixContains :: "Prefix \<Rightarrow> Addr \<Rightarrow> bool" where
  "PrefixContains p ip \<longleftrightarrow>
     (case (p, ip) of
        (P4 q n, V4 a) \<Rightarrow> n \<le> 32 \<and> drop_bit (32 - n) (a XOR q) = 0
      | (P6 q n, V6 a z) \<Rightarrow> z = [] \<and> n \<le> 128 \<and> drop_bit (128 - n) (a XOR q) = 0
      | _ \<Rightarrow> False)"

type_synonym net_IP = "8 word list"

definition AddrFromSlice :: "net_IP \<Rightarrow> Addr" where
  "AddrFromSlice bs =
     (if length bs = 4 then V4 (word_rcat bs) else if length bs = 16 then V6 (word_rcat bs) [] else NoAddr)"

section \<open>The policy\<close>

record Policy =
  AllowedHosts :: "string list"
  AllowLoopback :: bool
  DenyHosts :: "string list"
  DenyCIDRs :: "Prefix list"

definition deniedHost :: "Policy \<Rightarrow> string \<Rightarrow> bool" where
  "deniedHost p host =
     (let h = ToLower (TrimSuffix (TrimSpace host) ''.'')
      in list_ex (\<lambda>denied. EqualFold (TrimSuffix (TrimSpace denied) ''.'') h) (DenyHosts p))"

definition allowsHost :: "Policy \<Rightarrow> string \<Rightarrow> bool" where
  "allowsHost p host =
     (if AllowedHosts p = [] then True
      else let h = ToLower (TrimSuffix host ''.'')
           in list_ex (\<lambda>allowed. EqualFold (TrimSuffix (TrimSpace allowed) ''.'') h) (AllowedHosts p))"

definition blockedPrefixes :: "Prefix list" where
  "blockedPrefixes =
     [P4 0x00000000 8, P4 0x64400000 10, P4 0xc0000000 24, P4 0xc0000200 24, P4 0xc0586300 24,
      P4 0xc6120000 15, P4 0xc6336400 24, P4 0xcb007100 24, P4 0xf0000000 4,
      P6 0 96, P6 0x01000000000000000000000000000000 64, P6 0x20010000000000000000000000000000 32,
      P6 0x20010db8000000000000000000000000 32, P6 0xfec00000000000000000000000000000 10,
      P6 0x0064ff9b000100000000000000000000 48]"

definition nat64WellKnown :: Prefix where
  "nat64WellKnown = P6 0x0064ff9b000000000000000000000000 96"

definition sixToFour :: Prefix where
  "sixToFour = P6 0x20020000000000000000000000000000 16"

definition embeddedIPv4 :: "Addr \<Rightarrow> Addr option" where
  "embeddedIPv4 ip =
     (case ip of
        V6 a z \<Rightarrow>
          if PrefixContains nat64WellKnown ip then Some (V4 (ucast a))
          else if PrefixContains sixToFour ip then Some (V4 (ucast (drop_bit 80 a)))
          else None
      | _ \<Rightarrow> None)"

lemma embedded_is_v4: "embeddedIPv4 ip = Some inner \<Longrightarrow> (\<exists>a z. ip = V6 a z) \<and> (\<exists>w. inner = V4 w)"
  by (auto simp: embeddedIPv4_def split: Addr.splits if_splits)

function blocked :: "Addr \<Rightarrow> bool \<Rightarrow> bool" where
  "blocked ip0 allowLoopback =
     (let ip = Unmap (WithoutZone ip0) in
      if \<not> IsValid ip then True
      else if IsLoopback ip then \<not> allowLoopback
      else if \<not> IsGlobalUnicast ip \<or> IsPrivate ip then True
      else if list_ex (\<lambda>prefix. PrefixContains prefix ip) blockedPrefixes then True
      else case embeddedIPv4 ip of Some inner \<Rightarrow> blocked inner False | None \<Rightarrow> False)"
  by pat_completeness auto

text \<open>An embedded address is an IPv4 address, which embeds nothing: the recursion is one deep.\<close>

termination
proof (relation "measure (\<lambda>(ip, _). case ip of V6 a z \<Rightarrow> 1 | _ \<Rightarrow> 0)")
  fix ip0 allowLoopback ip inner
  assume "ip = Unmap (WithoutZone ip0)" and e: "embeddedIPv4 ip = Some inner"
  then have "\<exists>a z. Unmap (WithoutZone ip0) = V6 a z" using embedded_is_v4[OF e] by simp
  then have "\<exists>a z. ip0 = V6 a z" by (auto simp: Unmap_def WithoutZone_def split: Addr.splits if_splits)
  then show "((inner, False), ip0, allowLoopback) \<in> measure (\<lambda>(ip, _). case ip of V6 a z \<Rightarrow> 1 | _ \<Rightarrow> 0)"
    using embedded_is_v4[OF e] by auto
qed simp

declare blocked.simps [simp del]

definition BlockedIP :: "Addr \<Rightarrow> bool" where
  "BlockedIP ip = blocked ip False"

definition deniedIP :: "Policy \<Rightarrow> Addr \<Rightarrow> bool" where
  "deniedIP p ip0 =
     (let ip = Unmap (WithoutZone ip0) in
      if \<not> IsValid ip then False else list_ex (\<lambda>prefix. PrefixContains prefix ip) (DenyCIDRs p))"

definition ipBlocked :: "Policy \<Rightarrow> Addr \<Rightarrow> bool \<Rightarrow> bool" where
  "ipBlocked p ip allowLoopback =
     (if deniedIP p ip then True
      else if (case embeddedIPv4 (WithoutZone ip) of Some inner \<Rightarrow> deniedIP p inner | None \<Rightarrow> False) then True
      else blocked ip allowLoopback)"

definition checkDialAnswers :: "Policy \<Rightarrow> Addr list \<Rightarrow> bool \<Rightarrow> bool" where
  "checkDialAnswers p ips allowLoopback \<longleftrightarrow>
     list_all (\<lambda>ip. IsValid ip \<and> \<not> ipBlocked p ip allowLoopback) ips \<and>
     (allowLoopback \<longrightarrow> list_all IsLoopback ips)"

definition isLoopbackHost :: "(string \<Rightarrow> Addr option) \<Rightarrow> string \<Rightarrow> bool" where
  "isLoopbackHost parseAddr host0 =
     (let host = ToLower (TrimSuffix host0 ''.'') in
      if host = ''localhost'' \<or> HasSuffix host ''.localhost'' then True
      else case parseAddr host of Some ip \<Rightarrow> IsLoopback (Unmap (WithoutZone ip)) | None \<Rightarrow> False)"

section \<open>URLs and the dialer\<close>

record URL =
  uScheme :: string
  uHost :: string
  uHostname :: string
  uHasUser :: bool
  uRawQuery :: string
  uFragment :: string

datatype egress_error = MalformedTarget | NeedsHTTPS | HostDenied | HostNotAllowed | AddrDenied | AddrBlocked
  | MalformedProxy | ProxyHostDenied | ProxyAddrDenied | ProxyBlocked | BadDialAddr | DNSFailed | AnswerBlocked | DialFailed

definition validateURL ::
    "(string \<Rightarrow> URL option) \<Rightarrow> (string \<Rightarrow> Addr option) \<Rightarrow> Policy \<Rightarrow> string \<Rightarrow> egress_error + URL" where
  "validateURL parseURL parseAddr p raw =
     (case parseURL raw of
        None \<Rightarrow> Inl MalformedTarget
      | Some u \<Rightarrow>
          if uHostname u = [] \<or> uHasUser u \<or> uRawQuery u \<noteq> [] \<or> uFragment u \<noteq> [] then Inl MalformedTarget
          else if uScheme u \<noteq> ''https'' \<and>
                  (uScheme u \<noteq> ''http'' \<or> \<not> AllowLoopback p \<or> \<not> isLoopbackHost parseAddr (uHostname u))
          then Inl NeedsHTTPS
          else if deniedHost p (uHostname u) then Inl HostDenied
          else if \<not> allowsHost p (uHostname u) then Inl HostNotAllowed
          else case parseAddr (uHostname u) of
                 None \<Rightarrow> Inr u
               | Some ip \<Rightarrow>
                   if deniedIP p ip then Inl AddrDenied
                   else if ipBlocked p ip (AllowLoopback p) then Inl AddrBlocked
                   else Inr u)"

definition proxy_check ::
    "(string \<Rightarrow> URL option) \<Rightarrow> (string \<Rightarrow> Addr option) \<Rightarrow> Policy \<Rightarrow> string \<Rightarrow> egress_error + string" where
  "proxy_check parseURL parseAddr p proxyURL =
     (case parseURL proxyURL of
        None \<Rightarrow> Inl MalformedProxy
      | Some t \<Rightarrow>
          if uHostname t = [] \<or> uScheme t \<noteq> ''http'' \<and> uScheme t \<noteq> ''https'' then Inl MalformedProxy
          else if deniedHost p (uHostname t) then Inl ProxyHostDenied
          else case parseAddr (uHostname t) of
                 None \<Rightarrow> Inr (uHostname t)
               | Some ip \<Rightarrow>
                   if deniedIP p ip then Inl ProxyAddrDenied
                   else if ipBlocked p ip (AllowLoopback p \<and> isLoopbackHost parseAddr (uHostname t)) then Inl ProxyBlocked
                   else Inr (uHostname t))"

text \<open>A transport is the pair of policies its dialer closes over.\<close>

record Transport =
  trPolicy :: Policy
  trDialPolicy :: Policy

definition NewTransport ::
    "(string \<Rightarrow> URL option) \<Rightarrow> (string \<Rightarrow> Addr option) \<Rightarrow> Policy \<Rightarrow> string \<Rightarrow> string
       \<Rightarrow> egress_error + Transport" where
  "NewTransport parseURL parseAddr p target proxyURL =
     (case validateURL parseURL parseAddr p target of
        Inl e \<Rightarrow> Inl e
      | Inr _ \<Rightarrow>
          if proxyURL = [] then Inr \<lparr>trPolicy = p, trDialPolicy = p\<rparr>
          else case proxy_check parseURL parseAddr p proxyURL of
                 Inl e \<Rightarrow> Inl e
               | Inr proxyHost \<Rightarrow>
                   Inr \<lparr>trPolicy = p,
                     trDialPolicy = (if AllowedHosts p \<noteq> [] then p\<lparr>AllowedHosts := AllowedHosts p @ [proxyHost]\<rparr> else p)\<rparr>)"

text \<open>Connections are tried in order; the second component lists the addresses contacted.\<close>

fun try_dial :: "(Addr \<Rightarrow> string \<Rightarrow> bool) \<Rightarrow> string \<Rightarrow> Addr list \<Rightarrow> (egress_error + Addr) \<times> Addr list" where
  "try_dial connect port [] = (Inl DialFailed, [])"
| "try_dial connect port (ip # ips) =
     (if connect ip port then (Inr ip, [ip])
      else let (r, xs) = try_dial connect port ips in (r, ip # xs))"

text \<open>
  What is dialled is the address parsed back from its text, which prints an IPv4-mapped
  address as the IPv4 address.
\<close>

definition dial ::
    "(string \<Rightarrow> Addr option) \<Rightarrow> (string \<Rightarrow> (string \<times> string) option) \<Rightarrow> (string \<Rightarrow> net_IP list option)
       \<Rightarrow> (Addr \<Rightarrow> string \<Rightarrow> bool) \<Rightarrow> Transport \<Rightarrow> string \<Rightarrow> (egress_error + Addr) \<times> Addr list" where
  "dial parseAddr splitHostPort lookupIP connect t addr =
     (case splitHostPort addr of
        None \<Rightarrow> (Inl BadDialAddr, [])
      | Some (host, port) \<Rightarrow>
          if deniedHost (trPolicy t) host then (Inl HostDenied, [])
          else if \<not> allowsHost (trDialPolicy t) host then (Inl HostNotAllowed, [])
          else
            let allowLoopback = AllowLoopback (trPolicy t) \<and> isLoopbackHost parseAddr host
            in case parseAddr host of
                 Some ip \<Rightarrow>
                   if deniedIP (trPolicy t) ip then (Inl AddrDenied, [])
                   else if ipBlocked (trPolicy t) ip allowLoopback then (Inl AddrBlocked, [])
                   else try_dial connect port [ip]
               | None \<Rightarrow>
                   (case lookupIP host of
                      None \<Rightarrow> (Inl DNSFailed, [])
                    | Some ips \<Rightarrow>
                        if ips = [] then (Inl DNSFailed, [])
                        else if \<not> checkDialAnswers (trDialPolicy t) (map AddrFromSlice ips) allowLoopback
                        then (Inl AnswerBlocked, [])
                        else try_dial connect port (map (\<lambda>ip. Unmap (AddrFromSlice ip)) ips)))"

section \<open>Redirects\<close>

definition SameOrigin :: "URL option \<Rightarrow> URL option \<Rightarrow> bool" where
  "SameOrigin a b \<longleftrightarrow>
     (case (a, b) of (Some x, Some y) \<Rightarrow> EqualFold (uScheme x) (uScheme y) \<and> EqualFold (uHost x) (uHost y) | _ \<Rightarrow> False)"

datatype redirect_error = TooManyRedirects | CrossOrigin

definition RefuseCrossOriginRedirects :: "int \<Rightarrow> URL option \<Rightarrow> URL option list \<Rightarrow> redirect_error option" where
  "RefuseCrossOriginRedirects maxRedirects req via =
     (case via of
        [] \<Rightarrow> None
      | origin # _ \<Rightarrow>
          if 0 < maxRedirects \<and> maxRedirects \<le> int (length via) then Some TooManyRedirects
          else if \<not> SameOrigin origin req then Some CrossOrigin
          else None)"

section \<open>Address ranges\<close>

lemma xor_zero: "drop_bit k (a XOR q) = 0 \<longleftrightarrow> drop_bit k a = drop_bit k (q :: 'a::len word)"
proof
  assume "drop_bit k (a XOR q) = 0"
  then have "drop_bit k a XOR drop_bit k q = 0" by simp
  then have "(drop_bit k a XOR drop_bit k q) XOR drop_bit k q = drop_bit k q" by simp
  then show "drop_bit k a = drop_bit k q" by (simp add: xor.assoc)
qed simp

lemma drop_bit_range:
  "drop_bit k a = (c :: 'a::len word) \<longleftrightarrow> unat c * 2 ^ k \<le> unat a \<and> unat a < (unat c + 1) * 2 ^ k"
proof -
  have "drop_bit k a = c \<longleftrightarrow> unat a div 2 ^ k = unat c"
    unfolding word_unat_eq_iff unat_drop_bit_eq by (simp only: drop_bit_eq_div)
  also have "\<dots> \<longleftrightarrow> unat c * 2 ^ k \<le> unat a \<and> unat a < (unat c + 1) * 2 ^ k"
    by (metis Suc_eq_plus1 div_nat_eqI div_times_less_eq_dividend dividend_less_times_div mult.commute
        add.commute mult_Suc_right zero_less_numeral zero_less_power)
  finally show ?thesis .
qed

text \<open>
  The special-purpose ranges as half-open intervals of numbers: the IPv4 ranges no provider can have, and
  the IPv6 ranges apart from the forms that embed an IPv4 address.
\<close>

definition special4_ranges :: "(nat \<times> nat) list" where
  "special4_ranges =
     [(0x00000000, 0x01000000), (0x0a000000, 0x0b000000), (0x64400000, 0x64800000), (0x7f000000, 0x80000000),
      (0xa9fe0000, 0xa9ff0000), (0xac100000, 0xac200000), (0xc0000000, 0xc0000100), (0xc0000200, 0xc0000300),
      (0xc0586300, 0xc0586400), (0xc0a80000, 0xc0a90000), (0xc6120000, 0xc6140000), (0xc6336400, 0xc6336500),
      (0xcb007100, 0xcb007200), (0xe0000000, 0xf0000000), (0xf0000000, 0x100000000)]"

definition special4 :: "32 word \<Rightarrow> bool" where
  "special4 a \<longleftrightarrow> list_ex (\<lambda>(lo, hi). lo \<le> unat a \<and> unat a < hi) special4_ranges"

definition special6_ranges :: "(nat \<times> nat) list" where
  "special6_ranges =
     [(0, 0x100000000),
      (0x0064ff9b000100000000000000000000, 0x0064ff9b000200000000000000000000),
      (0x01000000000000000000000000000000, 0x01000000000000010000000000000000),
      (0x20010000000000000000000000000000, 0x20010001000000000000000000000000),
      (0x20010db8000000000000000000000000, 0x20010db9000000000000000000000000),
      (0xfc000000000000000000000000000000, 0xfe000000000000000000000000000000),
      (0xfe800000000000000000000000000000, 0xfec00000000000000000000000000000),
      (0xfec00000000000000000000000000000, 0xff000000000000000000000000000000),
      (0xff000000000000000000000000000000, 0x100000000000000000000000000000000)]"

definition special6 :: "128 word \<Rightarrow> bool" where
  "special6 a \<longleftrightarrow> list_ex (\<lambda>(lo, hi). lo \<le> unat a \<and> unat a < hi) special6_ranges"

text \<open>The IPv4 address a packet to an address ends up at, through mapping, NAT64 or 6to4.\<close>

definition destination4 :: "Addr \<Rightarrow> 32 word option" where
  "destination4 ip =
     (case ip of
        NoAddr \<Rightarrow> None
      | V4 a \<Rightarrow> Some a
      | V6 a z \<Rightarrow>
          if 0xffff00000000 \<le> unat a \<and> unat a < 0x1000000000000 then Some (ucast a)
          else if 0x0064ff9b000000000000000000000000 \<le> unat a \<and> unat a < 0x0064ff9b000000000000000100000000 then Some (ucast a)
          else if 0x20020000000000000000000000000000 \<le> unat a \<and> unat a < 0x20030000000000000000000000000000
          then Some (ucast (drop_bit 80 a))
          else None)"

definition forbidden :: "Addr \<Rightarrow> bool" where
  "forbidden ip \<longleftrightarrow>
     (case destination4 ip of
        Some w \<Rightarrow> special4 w
      | None \<Rightarrow> (case ip of V6 a z \<Rightarrow> special6 a | _ \<Rightarrow> True))"

lemmas addr_defs = Unmap_def Is4In6_def WithoutZone_def IsValid_def IsLoopback_def IsMulticast_def
  IsLinkLocalUnicast_def IsGlobalUnicast_def IsPrivate_def

lemma Unmap_V4 [simp]: "Unmap (V4 a) = V4 a"
  by (simp add: Unmap_def Is4In6_def)

lemma embedded_V4 [simp]: "embeddedIPv4 (V4 a) = None"
  by (simp add: embeddedIPv4_def)

lemma unat32: "unat (a :: 32 word) < 0x100000000"
  using unsigned_less[of a, where ?'a = nat] by simp

lemma unat128: "unat (a :: 128 word) < 0x100000000000000000000000000000000"
  using unsigned_less[of a, where ?'a = nat] by simp

lemma PrefixContains_simps [simp]:
  "PrefixContains (P4 q n) (V4 a) \<longleftrightarrow> n \<le> 32 \<and> drop_bit (32 - n) a = drop_bit (32 - n) q"
  "PrefixContains (P6 r m) (V6 b z) \<longleftrightarrow> z = [] \<and> m \<le> 128 \<and> drop_bit (128 - m) b = drop_bit (128 - m) r"
  "\<not> PrefixContains (P4 q n) (V6 b z)" "\<not> PrefixContains (P6 r m) (V4 a)" "\<not> PrefixContains p NoAddr"
  unfolding PrefixContains_def by (simp_all only: xor_zero prod.case Addr.case Prefix.case) (simp_all split: Prefix.split)

text \<open>The tests of the code on an IPv4 address, as intervals.\<close>

lemma tests_V4:
  "IsLoopback (V4 a) \<longleftrightarrow> 0x7f000000 \<le> unat a \<and> unat a < 0x80000000"
  "IsMulticast (V4 a) \<longleftrightarrow> 0xe0000000 \<le> unat a \<and> unat a < 0xf0000000"
  "IsLinkLocalUnicast (V4 a) \<longleftrightarrow> 0xa9fe0000 \<le> unat a \<and> unat a < 0xa9ff0000"
  "IsPrivate (V4 a) \<longleftrightarrow> 0x0a000000 \<le> unat a \<and> unat a < 0x0b000000 \<or> 0xac100000 \<le> unat a \<and> unat a < 0xac200000 \<or>
     0xc0a80000 \<le> unat a \<and> unat a < 0xc0a90000"
  by (simp_all add: IsLoopback_def IsMulticast_def IsLinkLocalUnicast_def IsPrivate_def drop_bit_range)

lemma listed_V4:
  "list_ex (\<lambda>p. PrefixContains p (V4 a)) blockedPrefixes \<longleftrightarrow>
     unat a < 0x01000000 \<or> 0x64400000 \<le> unat a \<and> unat a < 0x64800000 \<or> 0xc0000000 \<le> unat a \<and> unat a < 0xc0000100 \<or>
     0xc0000200 \<le> unat a \<and> unat a < 0xc0000300 \<or> 0xc0586300 \<le> unat a \<and> unat a < 0xc0586400 \<or>
     0xc6120000 \<le> unat a \<and> unat a < 0xc6140000 \<or> 0xc6336400 \<le> unat a \<and> unat a < 0xc6336500 \<or>
     0xcb007100 \<le> unat a \<and> unat a < 0xcb007200 \<or> 0xf0000000 \<le> unat a"
  using unat32[of a] by (simp add: blockedPrefixes_def drop_bit_range)

text \<open>What the tests of the code amount to on the number of an IPv4 address.\<close>

lemma special4_iff:
  assumes "(n :: nat) < 0x100000000"
  shows "(0x7f000000 \<le> n \<and> n < 0x80000000 \<or>
      \<not> (n \<noteq> 0 \<and> n \<noteq> 0xffffffff \<and> \<not> (0x7f000000 \<le> n \<and> n < 0x80000000) \<and> \<not> (0xe0000000 \<le> n \<and> n < 0xf0000000) \<and>
         \<not> (0xa9fe0000 \<le> n \<and> n < 0xa9ff0000)) \<or>
      (0x0a000000 \<le> n \<and> n < 0x0b000000 \<or> 0xac100000 \<le> n \<and> n < 0xac200000 \<or> 0xc0a80000 \<le> n \<and> n < 0xc0a90000) \<or>
      (n < 0x01000000 \<or> 0x64400000 \<le> n \<and> n < 0x64800000 \<or> 0xc0000000 \<le> n \<and> n < 0xc0000100 \<or>
       0xc0000200 \<le> n \<and> n < 0xc0000300 \<or> 0xc0586300 \<le> n \<and> n < 0xc0586400 \<or>
       0xc6120000 \<le> n \<and> n < 0xc6140000 \<or> 0xc6336400 \<le> n \<and> n < 0xc6336500 \<or>
       0xcb007100 \<le> n \<and> n < 0xcb007200 \<or> 0xf0000000 \<le> n)) \<longleftrightarrow>
    (\<exists>(lo, hi) \<in> set special4_ranges. lo \<le> n \<and> n < hi)" (is "?l \<longleftrightarrow> ?r")
proof -
  have ends: "n = 0 \<longrightarrow> n < 0x01000000" "n = 0xffffffff \<longrightarrow> 0xf0000000 \<le> n" by simp_all
  have "?r \<longleftrightarrow>
      n < 0x01000000 \<or> 0x0a000000 \<le> n \<and> n < 0x0b000000 \<or> 0x64400000 \<le> n \<and> n < 0x64800000 \<or>
      0x7f000000 \<le> n \<and> n < 0x80000000 \<or> 0xa9fe0000 \<le> n \<and> n < 0xa9ff0000 \<or> 0xac100000 \<le> n \<and> n < 0xac200000 \<or>
      0xc0000000 \<le> n \<and> n < 0xc0000100 \<or> 0xc0000200 \<le> n \<and> n < 0xc0000300 \<or> 0xc0586300 \<le> n \<and> n < 0xc0586400 \<or>
      0xc0a80000 \<le> n \<and> n < 0xc0a90000 \<or> 0xc6120000 \<le> n \<and> n < 0xc6140000 \<or> 0xc6336400 \<le> n \<and> n < 0xc6336500 \<or>
      0xcb007100 \<le> n \<and> n < 0xcb007200 \<or> 0xe0000000 \<le> n \<and> n < 0xf0000000 \<or> 0xf0000000 \<le> n"
    unfolding special4_ranges_def list.set using assms by (simp only: Set.bex_simps(5,7) Set.bex_empty prod.case simp_thms le0)
  with ends show ?thesis by argo
qed

lemma blocked_V4: "blocked (V4 a) False \<longleftrightarrow> special4 a"
proof -
  have z: "a = 0 \<longleftrightarrow> unat a = 0" "a = 0xffffffff \<longleftrightarrow> unat a = 0xffffffff" by (simp_all add: word_unat_eq_iff)
  have "blocked (V4 a) False \<longleftrightarrow> IsLoopback (V4 a) \<or> \<not> IsGlobalUnicast (V4 a) \<or> IsPrivate (V4 a) \<or>
      list_ex (\<lambda>p. PrefixContains p (V4 a)) blockedPrefixes"
    by (subst blocked.simps) (auto simp: WithoutZone_def IsValid_def Let_def)
  also have "\<dots> \<longleftrightarrow> special4 a"
    unfolding IsGlobalUnicast_def Unmap_V4 Addr.case z tests_V4 listed_V4 special4_def[unfolded list_ex_iff] by (rule special4_iff[OF unat32])
  finally show ?thesis .
qed

lemma tests_V6:
  assumes "\<not> Is4In6 (V6 a z)"
  shows "Unmap (V6 a z) = V6 a z"
    and "IsLoopback (V6 a z) \<longleftrightarrow> unat a = 1"
    and "IsMulticast (V6 a z) \<longleftrightarrow> 0xff000000000000000000000000000000 \<le> unat a"
    and "IsLinkLocalUnicast (V6 a z) \<longleftrightarrow>
      0xfe800000000000000000000000000000 \<le> unat a \<and> unat a < 0xfec00000000000000000000000000000"
    and "IsPrivate (V6 a z) \<longleftrightarrow>
      0xfc000000000000000000000000000000 \<le> unat a \<and> unat a < 0xfe000000000000000000000000000000"
proof -
  show u: "Unmap (V6 a z) = V6 a z" using assms by (simp add: Unmap_def)
  show "IsLoopback (V6 a z) \<longleftrightarrow> unat a = 1" by (simp add: IsLoopback_def u word_unat_eq_iff)
  show "IsMulticast (V6 a z) \<longleftrightarrow> 0xff000000000000000000000000000000 \<le> unat a"
    using unat128[of a] by (simp add: IsMulticast_def u drop_bit_range)
qed (simp_all add: IsLinkLocalUnicast_def IsPrivate_def Unmap_def assms drop_bit_range)

lemma Is4In6_range: "Is4In6 (V6 a z) \<longleftrightarrow> 0xffff00000000 \<le> unat a \<and> unat a < 0x1000000000000"
  by (simp add: Is4In6_def drop_bit_range)

lemma listed_V6:
  "list_ex (\<lambda>p. PrefixContains p (V6 a [])) blockedPrefixes \<longleftrightarrow>
     unat a < 0x100000000 \<or>
     0x01000000000000000000000000000000 \<le> unat a \<and> unat a < 0x01000000000000010000000000000000 \<or>
     0x20010000000000000000000000000000 \<le> unat a \<and> unat a < 0x20010001000000000000000000000000 \<or>
     0x20010db8000000000000000000000000 \<le> unat a \<and> unat a < 0x20010db9000000000000000000000000 \<or>
     0xfec00000000000000000000000000000 \<le> unat a \<and> unat a < 0xff000000000000000000000000000000 \<or>
     0x0064ff9b000100000000000000000000 \<le> unat a \<and> unat a < 0x0064ff9b000200000000000000000000"
  by (simp add: blockedPrefixes_def drop_bit_range)

lemma embedded_V6:
  "embeddedIPv4 (V6 a []) =
     (if 0x0064ff9b000000000000000000000000 \<le> unat a \<and> unat a < 0x0064ff9b000000000000000100000000 then Some (V4 (ucast a))
      else if 0x20020000000000000000000000000000 \<le> unat a \<and> unat a < 0x20030000000000000000000000000000
      then Some (V4 (ucast (drop_bit 80 a)))
      else None)"
  by (simp add: embeddedIPv4_def nat64WellKnown_def sixToFour_def drop_bit_range)

lemma blocked_unmap: "blocked ip al = blocked (Unmap (WithoutZone ip)) al"
proof -
  have "Unmap (WithoutZone (Unmap (WithoutZone ip))) = Unmap (WithoutZone ip)"
    by (auto simp: Unmap_def WithoutZone_def Is4In6_def split: Addr.split)
  then show ?thesis by (metis blocked.simps)
qed

text \<open>Loopback is the only address the exemption changes.\<close>

lemma blocked_exempt: "blocked ip al \<longleftrightarrow> (if IsLoopback (Unmap (WithoutZone ip)) then \<not> al else blocked ip False)"
  by (cases "IsValid (Unmap (WithoutZone ip))")
    (simp_all add: blocked.simps[of ip] Let_def IsValid_def IsLoopback_def Unmap_def Is4In6_def)

lemma special6_iff:
  assumes "(n :: nat) < 0x100000000000000000000000000000000"
  shows "(n = 1 \<or>
      \<not> (n \<noteq> 0 \<and> n \<noteq> 1 \<and> \<not> 0xff000000000000000000000000000000 \<le> n \<and>
         \<not> (0xfe800000000000000000000000000000 \<le> n \<and> n < 0xfec00000000000000000000000000000)) \<or>
      (0xfc000000000000000000000000000000 \<le> n \<and> n < 0xfe000000000000000000000000000000) \<or>
      (n < 0x100000000 \<or>
       0x01000000000000000000000000000000 \<le> n \<and> n < 0x01000000000000010000000000000000 \<or>
       0x20010000000000000000000000000000 \<le> n \<and> n < 0x20010001000000000000000000000000 \<or>
       0x20010db8000000000000000000000000 \<le> n \<and> n < 0x20010db9000000000000000000000000 \<or>
       0xfec00000000000000000000000000000 \<le> n \<and> n < 0xff000000000000000000000000000000 \<or>
       0x0064ff9b000100000000000000000000 \<le> n \<and> n < 0x0064ff9b000200000000000000000000)) \<longleftrightarrow>
    (\<exists>(lo, hi) \<in> set special6_ranges. lo \<le> n \<and> n < hi)" (is "?l \<longleftrightarrow> ?r")
proof -
  have ends: "n = 0 \<longrightarrow> n < 0x100000000" "n = 1 \<longrightarrow> n < 0x100000000" by simp_all
  have "?r \<longleftrightarrow> n < 0x100000000 \<or>
      0x0064ff9b000100000000000000000000 \<le> n \<and> n < 0x0064ff9b000200000000000000000000 \<or>
      0x01000000000000000000000000000000 \<le> n \<and> n < 0x01000000000000010000000000000000 \<or>
      0x20010000000000000000000000000000 \<le> n \<and> n < 0x20010001000000000000000000000000 \<or>
      0x20010db8000000000000000000000000 \<le> n \<and> n < 0x20010db9000000000000000000000000 \<or>
      0xfc000000000000000000000000000000 \<le> n \<and> n < 0xfe000000000000000000000000000000 \<or>
      0xfe800000000000000000000000000000 \<le> n \<and> n < 0xfec00000000000000000000000000000 \<or>
      0xfec00000000000000000000000000000 \<le> n \<and> n < 0xff000000000000000000000000000000 \<or>
      0xff000000000000000000000000000000 \<le> n"
    unfolding special6_ranges_def list.set using assms
    by (simp only: Set.bex_simps(5,7) Set.bex_empty prod.case simp_thms le0)
  with ends show ?thesis by argo
qed

lemma blocked_V6:
  assumes "\<not> Is4In6 (V6 a [])"
  shows "blocked (V6 a []) False \<longleftrightarrow> special6 a \<or> (\<exists>w. embeddedIPv4 (V6 a []) = Some (V4 w) \<and> special4 w)"
proof -
  have z: "a = 0 \<longleftrightarrow> unat a = 0" by (simp add: word_unat_eq_iff)
  have bad: "IsLoopback (V6 a []) \<or> \<not> IsGlobalUnicast (V6 a []) \<or> IsPrivate (V6 a []) \<or>
      list_ex (\<lambda>p. PrefixContains p (V6 a [])) blockedPrefixes \<longleftrightarrow> special6 a"
    unfolding IsGlobalUnicast_def tests_V6[OF assms] Addr.case z listed_V6 special6_def[unfolded list_ex_iff] simp_thms
    by (rule special6_iff[OF unat128])
  have "blocked (V6 a []) False \<longleftrightarrow> (IsLoopback (V6 a []) \<or> \<not> IsGlobalUnicast (V6 a []) \<or> IsPrivate (V6 a []) \<or>
      list_ex (\<lambda>p. PrefixContains p (V6 a [])) blockedPrefixes) \<or>
      (case embeddedIPv4 (V6 a []) of Some inner \<Rightarrow> blocked inner False | None \<Rightarrow> False)"
    by (subst blocked.simps) (auto simp: WithoutZone_def IsValid_def Let_def tests_V6(1)[OF assms])
  then show ?thesis
    unfolding bad by (auto simp: embedded_V6 blocked_V4)
qed

text \<open>The code blocks exactly the forbidden addresses.\<close>

lemma blocked_forbidden: "blocked ip False \<longleftrightarrow> forbidden ip"
proof (cases ip)
  case NoAddr
  then show ?thesis by (simp add: blocked.simps[of NoAddr] addr_defs Let_def forbidden_def destination4_def)
next
  case (V4 a)
  then show ?thesis by (simp add: blocked_V4 forbidden_def destination4_def)
next
  case (V6 a z)
  have w: "blocked ip False = blocked (Unmap (V6 a [])) False" by (subst blocked_unmap) (simp add: V6 WithoutZone_def)
  show ?thesis
  proof (cases "Is4In6 (V6 a [])")
    case True
    then have "Unmap (V6 a []) = V4 (ucast a)" by (simp add: Unmap_def)
    then show ?thesis using w True by (simp add: blocked_V4 V6 forbidden_def destination4_def Is4In6_range)
  next
    case False
    have dis: "special6 a \<Longrightarrow> embeddedIPv4 (V6 a []) = None"
      unfolding special6_def special6_ranges_def embedded_V6 by auto
    show ?thesis
      using w False dis
      by (auto simp: tests_V6(1) blocked_V6 V6 forbidden_def destination4_def Is4In6_range embedded_V6 split: if_splits)
  qed
qed

section \<open>The dialer\<close>

lemma try_dial_contacts:
  "try_dial connect port ips = (r, xs) \<Longrightarrow> set xs \<subseteq> set ips \<and> (\<forall>a. r = Inr a \<longrightarrow> a \<in> set xs)"
  by (induction ips arbitrary: r xs) (auto split: if_splits prod.splits)

lemma Unmap_idem [simp]: "Unmap (Unmap ip) = Unmap ip"
  by (auto simp: Unmap_def Is4In6_def split: Addr.split)

lemma IsLoopback_Unmap [simp]: "IsLoopback (Unmap ip) = IsLoopback ip"
  by (simp add: IsLoopback_def)

lemma slice_zone: "WithoutZone (AddrFromSlice bs) = AddrFromSlice bs"
  by (simp add: AddrFromSlice_def WithoutZone_def)

lemma Unmap_zone: "WithoutZone x = x \<Longrightarrow> WithoutZone (Unmap x) = Unmap x"
  by (auto simp: WithoutZone_def Unmap_def split: Addr.splits)

lemma embedded_Unmap: "WithoutZone x = x \<Longrightarrow> embeddedIPv4 (Unmap x) = Some i \<Longrightarrow> embeddedIPv4 x = Some i"
  by (auto simp: Unmap_def split: if_splits Addr.splits)

text \<open>An address that may be contacted under a policy.\<close>

definition contactable :: "Policy \<Rightarrow> bool \<Rightarrow> Addr \<Rightarrow> bool" where
  "contactable p exempt a \<longleftrightarrow>
     (exempt \<and> IsLoopback a \<or> \<not> forbidden a) \<and>
     (\<forall>c \<in> set (DenyCIDRs p). \<not> PrefixContains c (Unmap (WithoutZone a)) \<and>
        (\<forall>i. embeddedIPv4 (WithoutZone a) = Some i \<longrightarrow> \<not> PrefixContains c i))"

lemma deniedIP_iff: "deniedIP p ip \<longleftrightarrow> (\<exists>c \<in> set (DenyCIDRs p). PrefixContains c (Unmap (WithoutZone ip)))"
  by (auto simp: deniedIP_def Let_def IsValid_def list_ex_iff)

lemma ipBlocked_contactable:
  assumes "\<not> ipBlocked p ip exempt"
  shows "contactable p exempt ip"
proof -
  have d: "\<not> deniedIP p ip" "\<not> blocked ip exempt" and e: "\<And>i. embeddedIPv4 (WithoutZone ip) = Some i \<Longrightarrow> \<not> deniedIP p i"
    using assms by (auto simp: ipBlocked_def split: if_splits option.splits)
  have "IsLoopback (Unmap (WithoutZone ip)) \<Longrightarrow> IsLoopback ip"
    by (auto simp: IsLoopback_def WithoutZone_def Unmap_def Is4In6_def split: Addr.splits if_splits)
  then have "exempt \<and> IsLoopback ip \<or> \<not> forbidden ip"
    using d(2) blocked_exempt[of ip exempt] blocked_forbidden[of ip] by (auto split: if_splits)
  moreover have "\<not> PrefixContains c i" if c: "c \<in> set (DenyCIDRs p)" and i: "embeddedIPv4 (WithoutZone ip) = Some i" for c i
  proof -
    obtain w where "i = V4 w" using embedded_is_v4[OF i] by blast
    then show ?thesis using e[OF i] c by (auto simp: deniedIP_iff WithoutZone_def)
  qed
  ultimately show ?thesis using d(1) by (auto simp: contactable_def deniedIP_iff)
qed

lemma contactable_Unmap:
  assumes "WithoutZone x = x" and "contactable p exempt x"
  shows "contactable p exempt (Unmap x)"
proof -
  have "forbidden (Unmap x) = forbidden x"
    using blocked_unmap[of x False] by (simp add: assms(1) flip: blocked_forbidden)
  then show ?thesis
    using assms embedded_Unmap[OF assms(1)] Unmap_zone[OF assms(1)] by (auto simp: contactable_def)
qed

lemma answers_contactable:
  assumes "checkDialAnswers p (map AddrFromSlice ips) exempt" and "ip \<in> set ips"
  shows "contactable p exempt (Unmap (AddrFromSlice ip))"
  using assms by (intro contactable_Unmap slice_zone ipBlocked_contactable) (auto simp: checkDialAnswers_def list_all_iff)

lemma contactable_cong: "DenyCIDRs q = DenyCIDRs p \<Longrightarrow> contactable q e a = contactable p e a"
  by (simp add: contactable_def)

lemma NewTransport_policies:
  "NewTransport parseURL parseAddr p target proxy = Inr t \<Longrightarrow> trPolicy t = p \<and> DenyCIDRs (trDialPolicy t) = DenyCIDRs p"
  by (auto simp: NewTransport_def split: sum.splits if_splits)

section \<open>Properties\<close>

text \<open>C15: The built-in blocklist is exact: an address is blocked if and only if it is forbidden by
  the table of special-purpose ranges, where an IPv4-mapped, NAT64 or 6to4 address is judged
  by the IPv4 address it leads to and by nothing else.
\<close>

theorem blocklist_is_exact: "BlockedIP ip \<longleftrightarrow> forbidden ip"
  unfolding BlockedIP_def by (rule blocked_forbidden)

text \<open>C14: The dialer never leaves the egress boundary: whatever the DNS answers, the parsers and
  the network do, every address a transport contacts belongs to a host that is not denied and
  that the dial policy allows, is in no denied range in its own form or in the IPv4 form it
  embeds, and is not forbidden; the one exception is loopback, contacted only when the policy
  allows it and the host is spelled as loopback.
\<close>

theorem dial_stays_inside:
  assumes "NewTransport parseURL parseAddr p target proxyURL = Inr t"
    and "splitHostPort addr = Some (host, port)"
    and "dial parseAddr splitHostPort lookupIP connect t addr = (r, contacted)" and "a \<in> set contacted"
  shows "\<not> deniedHost p host \<and> allowsHost (trDialPolicy t) host \<and>
    contactable p (AllowLoopback p \<and> isLoopbackHost parseAddr host) a"
proof -
  define exempt where "exempt = (AllowLoopback p \<and> isLoopbackHost parseAddr host)"
  have t: "trPolicy t = p" "DenyCIDRs (trDialPolicy t) = DenyCIDRs p" using NewTransport_policies[OF assms(1)] by auto
  have host: "\<not> deniedHost p host" "allowsHost (trDialPolicy t) host"
    using assms(2-4) t(1) by (auto simp: dial_def split: if_splits)
  have "contactable p exempt a"
  proof (cases "parseAddr host")
    case (Some ip)
    then have "\<not> ipBlocked p ip exempt" "try_dial connect port [ip] = (r, contacted)"
      using assms(2-4) host t(1) by (auto simp: dial_def exempt_def Let_def split: if_splits)
    then show ?thesis using try_dial_contacts[of connect port "[ip]"] assms(4) ipBlocked_contactable by auto
  next
    case None
    then obtain ips where "checkDialAnswers (trDialPolicy t) (map AddrFromSlice ips) exempt"
      "try_dial connect port (map (\<lambda>ip. Unmap (AddrFromSlice ip)) ips) = (r, contacted)"
      using assms(2-4) host t(1) by (auto simp: dial_def exempt_def Let_def split: if_splits option.splits)
    then show ?thesis
      using try_dial_contacts assms(4) answers_contactable contactable_cong[OF t(2)] by fastforce
  qed
  then show ?thesis using host unfolding exempt_def by blast
qed

definition demo_policy :: Policy where
  "demo_policy = \<lparr>AllowedHosts = [], AllowLoopback = False, DenyHosts = [], DenyCIDRs = []\<rparr>"

definition demo_url :: URL where
  "demo_url = \<lparr>uScheme = ''https'', uHost = ''h'', uHostname = ''h'', uHasUser = False, uRawQuery = [], uFragment = []\<rparr>"

theorem dial_stays_inside_witness:
  "snd (dial (\<lambda>_. None) (\<lambda>_. Some (''h'', ''1'')) (\<lambda>_. Some [[8, 8, 8, 8]]) (\<lambda>_ _. True)
      \<lparr>trPolicy = demo_policy, trDialPolicy = demo_policy\<rparr> ''h'') = [V4 0x08080808] \<and> contactable demo_policy False (V4 0x08080808)"
proof -
  have n: "NewTransport (\<lambda>_. Some demo_url) (\<lambda>_. None) demo_policy ''h'' [] = Inr \<lparr>trPolicy = demo_policy, trDialPolicy = demo_policy\<rparr>"
    by (simp add: NewTransport_def validateURL_def demo_url_def demo_policy_def deniedHost_def allowsHost_def)
  have w: "word_rcat [8, 8, 8, 8 :: 8 word] = (0x08080808 :: 32 word)" by (simp add: word_rcat_def)
  have d: "dial (\<lambda>_. None) (\<lambda>_. Some (''h'', ''1'')) (\<lambda>_. Some [[8, 8, 8, 8]]) (\<lambda>_ _. True)
      \<lparr>trPolicy = demo_policy, trDialPolicy = demo_policy\<rparr> ''h'' = (Inr (V4 0x08080808), [V4 0x08080808])"
    by (simp add: dial_def demo_policy_def deniedHost_def allowsHost_def checkDialAnswers_def AddrFromSlice_def w ipBlocked_def
        deniedIP_def WithoutZone_def blocked_V4 special4_def special4_ranges_def IsValid_def)
  have "contactable demo_policy (AllowLoopback demo_policy \<and> isLoopbackHost (\<lambda>_. None) ''h'') (V4 0x08080808)"
    using dial_stays_inside[OF n refl d, of "V4 0x08080808"] by simp
  then show ?thesis unfolding d by (simp add: demo_policy_def)
qed

text \<open>Chains of requests a client with the redirect policy follows.\<close>

inductive followed :: "int \<Rightarrow> URL option list \<Rightarrow> bool" for mx where
  start: "followed mx [u]"
| redirect: "followed mx via \<Longrightarrow> RefuseCrossOriginRedirects mx req via = None \<Longrightarrow> followed mx (via @ [req])"

text \<open>C16: A client with this redirect policy stays at its origin: in every chain of requests it
  follows, each request goes to the scheme and host of the first one, and a positive bound is
  never exceeded.
\<close>

theorem redirects_stay_at_origin:
  assumes "followed mx us"
  shows "(\<forall>u \<in> set (tl us). SameOrigin (hd us) u) \<and> (0 < mx \<longrightarrow> int (length us) \<le> mx) \<and> us \<noteq> []"
  using assms
proof (induction rule: followed.induct)
  case (redirect via req)
  then show ?case by (cases via) (auto simp: RefuseCrossOriginRedirects_def split: if_splits)
qed auto

theorem redirects_stay_at_origin_witness:
  "followed 3 [Some demo_url, Some demo_url] \<and> SameOrigin (Some demo_url) (Some demo_url)"
proof -
  have "followed 3 ([Some demo_url] @ [Some demo_url])"
    by (rule followed.redirect[OF followed.start]) (simp add: RefuseCrossOriginRedirects_def SameOrigin_def EqualFold_def)
  then have f: "followed 3 [Some demo_url, Some demo_url]" by simp
  show ?thesis using f redirects_stay_at_origin[OF f] by simp
qed

end
