(* ===== verification/VideoJobs.thy ===== *)
theory VideoJobs
  imports Float64 Utf8
begin

text \<open>
  Video jobs (\<^verbatim>\<open>src/internal/video/job.go\<close>), their stores in memory and in a file
  (\<^verbatim>\<open>src/internal/video/queue/store.go\<close>, \<^verbatim>\<open>file_store.go\<close>) and the bounded queue
  (\<^verbatim>\<open>queue.go\<close>).

  \<^item> A job has its own fields and those of its request that decide how it runs; \<open>vjPlan\<close> tells for
    each shot of the request's plan whether it has an output asset, and \<open>vjRest\<close> stands for the
    other fields.  The stores copy and compare whole jobs.
  \<^item> Jobs are values.  A Go copy of a job shares its slices and maps with the stored one, and
    \<^verbatim>\<open>orchestrator/episode.go\<close> changes shot executions of a job it has read in place; such
    changes by way of shared memory are outside the model, as is the difference between a
    missing and an empty slice or map, which \<^verbatim>\<open>reflect.DeepEqual\<close> sees.
  \<^item> A write of the file store ends in one of three ways: it succeeds, it fails and leaves the
    file alone, or the file was replaced and only the directory could not be synced.  Which
    one is an argument of the operation.  \<open>fsDisk\<close> is the contents of the file, if there is one.
  \<^item> \<^verbatim>\<open>encoding/json\<close> is not part of the repository: the marshalling of a document into bytes and
    the unmarshalling of bytes, both of which can fail, are an argument \<open>cd\<close>.
  \<^item> The order in which Go visits a map is the argument \<open>iter\<close>.
\<close>

section \<open>Jobs\<close>

datatype JobState = StateQueued | StateAdmitted | StatePlanning | StateWaitingForBudget | StateSubmitted
  | StateProcessing | StatePolling | StateComposing | StateUploading | StateCompleted | StateFailed
  | StateCancelRequested | StateCancelled | StateExpired | StateNeedsManualAction | StateDryRun
  | OtherJobState string

definition known_states :: "(JobState \<times> string) list" where
  "known_states = [(StateQueued, ''queued''), (StateAdmitted, ''admitted''), (StatePlanning, ''planning''),
     (StateWaitingForBudget, ''waiting_for_budget''), (StateSubmitted, ''submitted''), (StateProcessing, ''processing''),
     (StatePolling, ''polling''), (StateComposing, ''composing''), (StateUploading, ''uploading''),
     (StateCompleted, ''completed''), (StateFailed, ''failed''), (StateCancelRequested, ''cancel_requested''),
     (StateCancelled, ''cancelled''), (StateExpired, ''expired''), (StateNeedsManualAction, ''needs_manual_action''),
     (StateDryRun, ''dry_run'')]"

record Asset =
  aURI :: string
  aContentType :: string
  aSize :: int
  aSHA256 :: string
  aMetadata :: "(string, string) fmap"
  aRest :: string

record ShotExecution =
  seShotID :: string
  seState :: JobState
  seProviderJobID :: string

record VideoJob =
  vjID :: string
  vjKey :: string
  vjLeaseOwner :: string
  vjLeaseUntil :: gotime
  vjProject :: string
  vjEpisode :: string
  vjModelPreference :: string
  vjDryRun :: bool
  vjPlan :: "bool list"
  vjProvider :: string
  vjModel :: string
  vjProviderJobID :: string
  vjState :: JobState
  vjProgress :: gofloat
  vjCreatedAt :: gotime
  vjSubmittedAt :: "gotime option"
  vjCompletedAt :: "gotime option"
  vjLastError :: string
  vjForceFailed :: bool
  vjRetryCount :: int
  vjCurrentShot :: int
  vjShotExecutions :: "ShotExecution list"
  vjOutputs :: "Asset list"
  vjEstimated :: gofloat
  vjActual :: gofloat
  vjReconciled :: bool
  vjDelta :: "gofloat option"
  vjBasis :: string
  vjUsage :: "(string, string) fmap"
  vjRest :: string

definition CanTransition :: "JobState \<Rightarrow> JobState \<Rightarrow> bool" where
  "CanTransition from to \<longleftrightarrow>
     (if from = to then True
      else case from of
        StateQueued \<Rightarrow> to \<in> {StateAdmitted, StateWaitingForBudget, StateFailed, StateCancelled, StateNeedsManualAction}
      | StateAdmitted \<Rightarrow> to \<in> {StatePlanning, StateSubmitted, StateFailed, StateCancelRequested, StateNeedsManualAction}
      | StatePlanning \<Rightarrow> to \<in> {StateSubmitted, StateFailed, StateNeedsManualAction}
      | StateWaitingForBudget \<Rightarrow> to \<in> {StateQueued, StateFailed, StateNeedsManualAction}
      | StateSubmitted \<Rightarrow> to \<in> {StateProcessing, StatePolling, StateCompleted, StateComposing, StateUploading,
          StateCancelRequested, StateCancelled, StateFailed, StateNeedsManualAction}
      | StateProcessing \<Rightarrow> to \<in> {StateProcessing, StatePolling, StateComposing, StateUploading, StateCompleted,
          StateCancelRequested, StateCancelled, StateFailed, StateExpired, StateNeedsManualAction}
      | StatePolling \<Rightarrow> to \<in> {StateProcessing, StatePolling, StateComposing, StateUploading, StateCompleted,
          StateCancelRequested, StateCancelled, StateFailed, StateExpired, StateNeedsManualAction}
      | StateComposing \<Rightarrow> to \<in> {StateUploading, StateCompleted, StateFailed, StateNeedsManualAction}
      | StateUploading \<Rightarrow> to \<in> {StateCompleted, StateCancelled, StateFailed, StateNeedsManualAction}
      | StateCancelRequested \<Rightarrow> to \<in> {StateCancelled, StateFailed, StateNeedsManualAction}
      | StateNeedsManualAction \<Rightarrow> to = StateCancelled
      | StateFailed \<Rightarrow> to \<in> {StateQueued, StateCancelled}
      | _ \<Rightarrow> False)"

definition IsTerminalState :: "JobState \<Rightarrow> bool" where
  "IsTerminalState state \<longleftrightarrow>
     (case state of StateCompleted \<Rightarrow> True | StateCancelled \<Rightarrow> True | StateExpired \<Rightarrow> True | StateDryRun \<Rightarrow> True | _ \<Rightarrow> False)"

definition IsTerminal :: "VideoJob \<Rightarrow> bool" where
  "IsTerminal j \<longleftrightarrow> IsTerminalState (vjState j) \<or> vjForceFailed j"

definition Transition :: "JobState \<Rightarrow> VideoJob \<Rightarrow> VideoJob option" where
  "Transition to j = (if CanTransition (vjState j) to then Some (j\<lparr>vjState := to\<rparr>) else None)"

section \<open>The store in memory\<close>

datatype job_error = JobNotFound | TerminalJob | IdempotencyConflict | JobAlreadyExists
  | StoreClosed | CommitUncertain | PersistError

definition checkTerminalUpdate :: "VideoJob \<Rightarrow> VideoJob \<Rightarrow> job_error option" where
  "checkTerminalUpdate current next' =
     (if \<not> IsTerminal current then None else if current = next' then None else Some TerminalJob)"

record JobStore =
  jsJobs :: "(string, VideoJob) fmap"
  jsIdem :: "(string, string) fmap"

definition NewJobStore :: JobStore where
  "NewJobStore = \<lparr>jsJobs = fmempty, jsIdem = fmempty\<rparr>"

definition js_Create :: "VideoJob \<Rightarrow> JobStore \<Rightarrow> job_error option \<times> JobStore" where
  "js_Create j s =
     (if fm_has (jsJobs s) (vjID j) then (Some JobAlreadyExists, s)
      else if vjKey j \<noteq> [] \<and> fm_get [] (jsIdem s) (vjKey j) \<noteq> [] then (Some IdempotencyConflict, s)
      else (None, s\<lparr>jsIdem := (if vjKey j \<noteq> [] then fmupd (vjKey j) (vjID j) (jsIdem s) else jsIdem s),
                     jsJobs := fmupd (vjID j) j (jsJobs s)\<rparr>))"

definition js_Delete :: "string \<Rightarrow> JobStore \<Rightarrow> JobStore" where
  "js_Delete i s =
     (case fmlookup (jsJobs s) i of
        None \<Rightarrow> s
      | Some j \<Rightarrow> s\<lparr>jsJobs := fmdrop i (jsJobs s), jsIdem := (if vjKey j \<noteq> [] then fmdrop (vjKey j) (jsIdem s) else jsIdem s)\<rparr>)"

definition js_Get :: "string \<Rightarrow> JobStore \<Rightarrow> job_error + VideoJob" where
  "js_Get i s = (case fmlookup (jsJobs s) i of None \<Rightarrow> Inl JobNotFound | Some j \<Rightarrow> Inr j)"

definition zero_VideoJob :: VideoJob where
  "zero_VideoJob = \<lparr>vjID = [], vjKey = [], vjLeaseOwner = [], vjLeaseUntil = 0, vjProject = [], vjEpisode = [],
     vjModelPreference = [], vjDryRun = False, vjPlan = [], vjProvider = [], vjModel = [], vjProviderJobID = [],
     vjState = OtherJobState [], vjProgress = Fin 0, vjCreatedAt = 0, vjSubmittedAt = None, vjCompletedAt = None,
     vjLastError = [], vjForceFailed = False, vjRetryCount = 0, vjCurrentShot = 0, vjShotExecutions = [], vjOutputs = [],
     vjEstimated = Fin 0, vjActual = Fin 0, vjReconciled = False, vjDelta = None, vjBasis = [], vjUsage = fmempty,
     vjRest = []\<rparr>"

definition js_GetByIdempotency :: "string \<Rightarrow> JobStore \<Rightarrow> job_error + VideoJob" where
  "js_GetByIdempotency key s =
     (let i = fm_get [] (jsIdem s) key in
      if i = [] then Inl JobNotFound else Inr (fm_get zero_VideoJob (jsJobs s) i))"

text \<open>The change of the index when an update changes the key of a job.\<close>

definition rekey :: "VideoJob \<Rightarrow> VideoJob \<Rightarrow> (string, string) fmap \<Rightarrow> (string, string) fmap" where
  "rekey old j idem =
     (let m = (if vjKey old \<noteq> [] then fmdrop (vjKey old) idem else idem)
      in if vjKey j \<noteq> [] then fmupd (vjKey j) (vjID j) m else m)"

definition js_Update :: "VideoJob \<Rightarrow> JobStore \<Rightarrow> job_error option \<times> JobStore" where
  "js_Update j s =
     (case fmlookup (jsJobs s) (vjID j) of
        None \<Rightarrow> (Some JobNotFound, s)
      | Some old \<Rightarrow>
          (case checkTerminalUpdate old j of
             Some e \<Rightarrow> (Some e, s)
           | None \<Rightarrow>
               if vjKey j \<noteq> vjKey old \<and> vjKey j \<noteq> [] \<and>
                  (case fmlookup (jsIdem s) (vjKey j) of Some i \<Rightarrow> i \<noteq> vjID j | None \<Rightarrow> False)
               then (Some IdempotencyConflict, s)
               else (None, s\<lparr>jsIdem := (if vjKey j \<noteq> vjKey old then rekey old j (jsIdem s) else jsIdem s),
                              jsJobs := fmupd (vjID j) j (jsJobs s)\<rparr>)))"

definition claimable :: "VideoJob \<Rightarrow> string \<Rightarrow> gotime \<Rightarrow> bool" where
  "claimable j owner now \<longleftrightarrow>
     (if vjLeaseOwner j = [] \<or> \<not> After (vjLeaseUntil j) now then True else vjLeaseOwner j = owner)"

definition leased :: "string \<Rightarrow> gotime \<Rightarrow> VideoJob \<Rightarrow> VideoJob" where
  "leased owner until j = j\<lparr>vjLeaseOwner := owner, vjLeaseUntil := until\<rparr>"

definition js_TryClaim :: "string \<Rightarrow> string \<Rightarrow> duration \<Rightarrow> gotime \<Rightarrow> JobStore \<Rightarrow> (job_error + VideoJob option) \<times> JobStore" where
  "js_TryClaim i owner ttl now s =
     (case fmlookup (jsJobs s) i of
        None \<Rightarrow> (Inl JobNotFound, s)
      | Some j \<Rightarrow>
          if \<not> claimable j owner now then (Inr None, s)
          else let j' = leased owner (Add now ttl) j
               in (Inr (Some j'), s\<lparr>jsJobs := fmupd i j' (jsJobs s)\<rparr>))"

definition js_List :: "(string fset \<Rightarrow> string list) \<Rightarrow> JobStore \<Rightarrow> VideoJob list" where
  "js_List iter s = map (fm_get zero_VideoJob (jsJobs s)) (iter (fmdom (jsJobs s)))"

section \<open>The store in a file\<close>

datatype persist_result = PersistOk | PersistFailed | PersistUncertain

type_synonym job_doc = "(string, VideoJob) fmap \<times> (string, string) fmap"

record job_codec =
  jcMarshal :: "job_doc \<Rightarrow> string option"
  jcUnmarshal :: "string \<Rightarrow> job_doc option"

record FileStore =
  fsJobs :: "(string, VideoJob) fmap"
  fsIdem :: "(string, string) fmap"
  fsClosed :: bool
  fsUncertain :: bool
  fsDisk :: "string option"

definition usable :: "FileStore \<Rightarrow> job_error option" where
  "usable s = (if fsClosed s then Some StoreClosed else if fsUncertain s then Some CommitUncertain else None)"

fun index_jobs :: "(string, VideoJob) fmap \<Rightarrow> string list \<Rightarrow> (string, string) fmap \<Rightarrow> (string, string) fmap option" where
  "index_jobs jobs [] idem = Some idem"
| "index_jobs jobs (i # is) idem =
     (let job = fm_get zero_VideoJob jobs i in
      if vjKey job = [] then index_jobs jobs is idem
      else let existing = fm_get [] idem (vjKey job)
           in if existing = [] then index_jobs jobs is (fmupd (vjKey job) i idem)
              else if existing \<noteq> i then None
              else index_jobs jobs is idem)"

text \<open>
  Opening a path: no file gives an empty store, a document gives its jobs with a fresh index.  A
  null document counts as one that cannot be unmarshalled.
\<close>

datatype file_read = FileMissing | FileUnreadable | FileData string

definition NewFileStore :: "job_codec \<Rightarrow> (string fset \<Rightarrow> string list) \<Rightarrow> string \<Rightarrow> file_read \<Rightarrow> FileStore option" where
  "NewFileStore cd iter path file =
     (if path = [] then None
      else case file of
        FileMissing \<Rightarrow> Some \<lparr>fsJobs = fmempty, fsIdem = fmempty, fsClosed = False, fsUncertain = False, fsDisk = None\<rparr>
      | FileUnreadable \<Rightarrow> None
      | FileData bytes \<Rightarrow>
          (case jcUnmarshal cd bytes of
             None \<Rightarrow> None
           | Some (jobs, _) \<Rightarrow>
               (case index_jobs jobs (iter (fmdom jobs)) fmempty of
                  None \<Rightarrow> None
                | Some idem \<Rightarrow>
                    Some \<lparr>fsJobs = jobs, fsIdem = idem, fsClosed = False, fsUncertain = False, fsDisk = Some bytes\<rparr>)))"

definition persist :: "job_codec \<Rightarrow> persist_result \<Rightarrow> FileStore \<Rightarrow> job_error option \<times> FileStore" where
  "persist cd w s =
     (case jcMarshal cd (fsJobs s, fsIdem s) of
        None \<Rightarrow> (Some PersistError, s)
      | Some bytes \<Rightarrow>
          (case w of
             PersistOk \<Rightarrow> (None, s\<lparr>fsDisk := Some bytes\<rparr>)
           | PersistFailed \<Rightarrow> (Some PersistError, s)
           | PersistUncertain \<Rightarrow> (Some CommitUncertain, s\<lparr>fsDisk := Some bytes, fsUncertain := True\<rparr>)))"

definition fs_Close :: "FileStore \<Rightarrow> FileStore" where
  "fs_Close s = s\<lparr>fsClosed := True\<rparr>"

definition fs_Create :: "job_codec \<Rightarrow> persist_result \<Rightarrow> VideoJob \<Rightarrow> FileStore \<Rightarrow> job_error option \<times> FileStore" where
  "fs_Create cd w j s =
     (case usable s of
        Some e \<Rightarrow> (Some e, s)
      | None \<Rightarrow>
          if fm_has (fsJobs s) (vjID j) then (Some JobAlreadyExists, s)
          else if vjKey j \<noteq> [] \<and> fm_has (fsIdem s) (vjKey j) then (Some IdempotencyConflict, s)
          else
            let s1 = s\<lparr>fsJobs := fmupd (vjID j) j (fsJobs s),
                       fsIdem := (if vjKey j \<noteq> [] then fmupd (vjKey j) (vjID j) (fsIdem s) else fsIdem s)\<rparr>
            in case persist cd w s1 of
                 (None, s2) \<Rightarrow> (None, s2)
               | (Some e, s2) \<Rightarrow>
                   (Some e, s2\<lparr>fsJobs := fmdrop (vjID j) (fsJobs s2),
                      fsIdem := (if vjKey j \<noteq> [] then fmdrop (vjKey j) (fsIdem s2) else fsIdem s2)\<rparr>))"

definition fs_Get :: "string \<Rightarrow> FileStore \<Rightarrow> job_error + VideoJob" where
  "fs_Get i s =
     (case usable s of
        Some e \<Rightarrow> Inl e
      | None \<Rightarrow> (case fmlookup (fsJobs s) i of None \<Rightarrow> Inl JobNotFound | Some j \<Rightarrow> Inr j))"

definition fs_GetByIdempotency :: "string \<Rightarrow> FileStore \<Rightarrow> job_error + VideoJob" where
  "fs_GetByIdempotency key s =
     (case usable s of
        Some e \<Rightarrow> Inl e
      | None \<Rightarrow> (case fmlookup (fsJobs s) (fm_get [] (fsIdem s) key) of None \<Rightarrow> Inl JobNotFound | Some j \<Rightarrow> Inr j))"

definition fs_Update :: "job_codec \<Rightarrow> persist_result \<Rightarrow> VideoJob \<Rightarrow> FileStore \<Rightarrow> job_error option \<times> FileStore" where
  "fs_Update cd w j s =
     (case usable s of
        Some e \<Rightarrow> (Some e, s)
      | None \<Rightarrow>
        (case fmlookup (fsJobs s) (vjID j) of
           None \<Rightarrow> (Some JobNotFound, s)
         | Some old \<Rightarrow>
           (case checkTerminalUpdate old j of
              Some e \<Rightarrow> (Some e, s)
            | None \<Rightarrow>
                let changed = (vjKey old \<noteq> vjKey j) in
                if changed \<and> vjKey j \<noteq> [] \<and> (case fmlookup (fsIdem s) (vjKey j) of Some i \<Rightarrow> i \<noteq> vjID j | None \<Rightarrow> False)
                then (Some IdempotencyConflict, s)
                else
                  let s1 = s\<lparr>fsJobs := fmupd (vjID j) j (fsJobs s),
                             fsIdem := (if changed then rekey old j (fsIdem s) else fsIdem s)\<rparr>
                  in case persist cd w s1 of
                       (None, s2) \<Rightarrow> (None, s2)
                     | (Some e, s2) \<Rightarrow>
                         (Some e, s2\<lparr>fsJobs := fmupd (vjID j) old (fsJobs s2),
                            fsIdem := (if changed
                              then let m = (if vjKey j \<noteq> [] then fmdrop (vjKey j) (fsIdem s2) else fsIdem s2)
                                   in if vjKey old \<noteq> [] then fmupd (vjKey old) (vjID j) m else m
                              else fsIdem s2)\<rparr>))))"

definition fs_Delete :: "job_codec \<Rightarrow> persist_result \<Rightarrow> string \<Rightarrow> FileStore \<Rightarrow> job_error option \<times> FileStore" where
  "fs_Delete cd w i s =
     (case usable s of
        Some e \<Rightarrow> (Some e, s)
      | None \<Rightarrow>
        (case fmlookup (fsJobs s) i of
           None \<Rightarrow> (None, s)
         | Some j \<Rightarrow>
             let s1 = s\<lparr>fsJobs := fmdrop i (fsJobs s), fsIdem := (if vjKey j \<noteq> [] then fmdrop (vjKey j) (fsIdem s) else fsIdem s)\<rparr>
             in case persist cd w s1 of
                  (None, s2) \<Rightarrow> (None, s2)
                | (Some e, s2) \<Rightarrow>
                    (Some e, s2\<lparr>fsJobs := fmupd i j (fsJobs s2),
                       fsIdem := (if vjKey j \<noteq> [] then fmupd (vjKey j) i (fsIdem s2) else fsIdem s2)\<rparr>)))"

definition fs_TryClaim ::
    "job_codec \<Rightarrow> persist_result \<Rightarrow> string \<Rightarrow> string \<Rightarrow> duration \<Rightarrow> gotime \<Rightarrow> FileStore \<Rightarrow> (job_error + VideoJob option) \<times> FileStore" where
  "fs_TryClaim cd w i owner ttl now s =
     (case usable s of
        Some e \<Rightarrow> (Inl e, s)
      | None \<Rightarrow>
        (case fmlookup (fsJobs s) i of
           None \<Rightarrow> (Inl JobNotFound, s)
         | Some j \<Rightarrow>
             if \<not> claimable j owner now then (Inr None, s)
             else
               let j' = leased owner (Add now ttl) j;
                   s1 = s\<lparr>fsJobs := fmupd i j' (fsJobs s)\<rparr>
               in case persist cd w s1 of
                    (None, s2) \<Rightarrow> (Inr (Some j'), s2)
                  | (Some e, s2) \<Rightarrow> (Inl e, s2\<lparr>fsJobs := fmupd i j (fsJobs s2)\<rparr>)))"

definition fs_List :: "(string fset \<Rightarrow> string list) \<Rightarrow> FileStore \<Rightarrow> job_error + VideoJob list" where
  "fs_List iter s =
     (case usable s of
        Some e \<Rightarrow> Inl e
      | None \<Rightarrow> Inr (map (fm_get zero_VideoJob (fsJobs s)) (iter (fmdom (fsJobs s)))))"

section \<open>The queue\<close>

record Queue =
  qJobs :: "VideoJob list"
  qCap :: nat
  qClosed :: bool

datatype queue_error = QueueFull | QueueClosed | QueueCancelled

definition New_queue :: "int \<Rightarrow> Queue" where
  "New_queue size' = \<lparr>qJobs = [], qCap = nat (if size' < 1 then 1 else size'), qClosed = False\<rparr>"

text \<open>
  \<open>cx\<close> says that the context is done on entry, \<open>cx'\<close> that it is at the select, and \<open>pick\<close>
  which case the select takes when both are ready.
\<close>

definition Enqueue :: "bool \<Rightarrow> bool \<Rightarrow> bool \<Rightarrow> VideoJob \<Rightarrow> Queue \<Rightarrow> queue_error option \<times> Queue" where
  "Enqueue cx cx' pick j q =
     (if cx then (Some QueueCancelled, q)
      else if qClosed q then (Some QueueClosed, q)
      else if length (qJobs q) < qCap q \<and> (\<not> cx' \<or> pick) then (None, q\<lparr>qJobs := qJobs q @ [j]\<rparr>)
      else if cx' then (Some QueueCancelled, q)
      else (Some QueueFull, q))"

text \<open>\<open>None\<close> is a call that blocks.\<close>

definition Next :: "bool \<Rightarrow> bool \<Rightarrow> Queue \<Rightarrow> ((queue_error + VideoJob) \<times> Queue) option" where
  "Next cx pick q =
     (if cx \<and> \<not> pick then Some (Inl QueueCancelled, q)
      else case qJobs q of
        j # js \<Rightarrow> Some (Inr j, q\<lparr>qJobs := js\<rparr>)
      | [] \<Rightarrow> if qClosed q \<or> cx then Some (Inl QueueCancelled, q) else None)"

definition Close_queue :: "Queue \<Rightarrow> Queue" where
  "Close_queue q = q\<lparr>qClosed := True\<rparr>"

section \<open>Index of keys\<close>

definition index_ok :: "(string, VideoJob) fmap \<Rightarrow> (string, string) fmap \<Rightarrow> bool" where
  "index_ok jobs idem \<longleftrightarrow>
     (\<forall>i j. fmlookup jobs i = Some j \<longrightarrow> vjID j = i \<and> i \<noteq> []) \<and>
     (\<forall>k i. fmlookup idem k = Some i \<longleftrightarrow> k \<noteq> [] \<and> (\<exists>j. fmlookup jobs i = Some j \<and> vjKey j = k))"

lemma index_job: "index_ok jobs idem \<Longrightarrow> fmlookup jobs i = Some j \<Longrightarrow> vjID j = i \<and> i \<noteq> []"
  by (simp add: index_ok_def)

lemma index_key:
  "index_ok jobs idem \<Longrightarrow> fmlookup idem k = Some i \<longleftrightarrow> k \<noteq> [] \<and> (\<exists>j. fmlookup jobs i = Some j \<and> vjKey j = k)"
  by (simp add: index_ok_def)

lemma index_empty [simp]: "index_ok fmempty fmempty"
  by (simp add: index_ok_def)

lemma index_okI:
  assumes "\<And>i j. fmlookup jobs i = Some j \<Longrightarrow> vjID j = i \<and> i \<noteq> []"
    and "\<And>k i. fmlookup idem k = Some i \<longleftrightarrow> k \<noteq> [] \<and> (\<exists>j. fmlookup jobs i = Some j \<and> vjKey j = k)"
  shows "index_ok jobs idem"
  using assms by (simp add: index_ok_def)

lemma index_add:
  assumes ok: "index_ok jobs idem" and new: "fmlookup jobs (vjID j) = None" "vjID j \<noteq> []"
    and free: "vjKey j = [] \<or> fmlookup idem (vjKey j) = None"
  shows "index_ok (fmupd (vjID j) j jobs) (if vjKey j \<noteq> [] then fmupd (vjKey j) (vjID j) idem else idem)"
proof (rule index_okI)
  fix i x assume "fmlookup (fmupd (vjID j) j jobs) i = Some x"
  then show "vjID x = i \<and> i \<noteq> []" using index_job[OF ok, of i x] new(2) by (auto split: if_splits)
next
  fix k i
  have old: "fmlookup idem k = Some i \<longleftrightarrow> k \<noteq> [] \<and> (\<exists>j. fmlookup jobs i = Some j \<and> vjKey j = k)" by (rule index_key[OF ok])
  show "fmlookup (if vjKey j \<noteq> [] then fmupd (vjKey j) (vjID j) idem else idem) k = Some i \<longleftrightarrow>
      k \<noteq> [] \<and> (\<exists>x. fmlookup (fmupd (vjID j) j jobs) i = Some x \<and> vjKey x = k)"
  proof (cases "i = vjID j")
    case True
    then show ?thesis using old new(1) by (cases "k = vjKey j") auto
  next
    case False
    then show ?thesis using old free by (cases "k = vjKey j") auto
  qed
qed

lemma index_drop:
  assumes ok: "index_ok jobs idem" and at: "fmlookup jobs i = Some j"
  shows "index_ok (fmdrop i jobs) (if vjKey j \<noteq> [] then fmdrop (vjKey j) idem else idem)"
proof (rule index_okI)
  fix a x assume "fmlookup (fmdrop i jobs) a = Some x"
  then show "vjID x = a \<and> a \<noteq> []" using index_job[OF ok, of a x] by (auto split: if_splits)
next
  fix k a
  have old: "fmlookup idem k = Some a \<longleftrightarrow> k \<noteq> [] \<and> (\<exists>j. fmlookup jobs a = Some j \<and> vjKey j = k)" by (rule index_key[OF ok])
  have mine: "vjKey j \<noteq> [] \<Longrightarrow> fmlookup idem (vjKey j) = Some i" using index_key[OF ok] at by blast
  show "fmlookup (if vjKey j \<noteq> [] then fmdrop (vjKey j) idem else idem) k = Some a \<longleftrightarrow>
      k \<noteq> [] \<and> (\<exists>x. fmlookup (fmdrop i jobs) a = Some x \<and> vjKey x = k)"
  proof (cases "k = vjKey j")
    case True
    then show ?thesis using old mine by (cases "a = i") auto
  next
    case False
    then show ?thesis using old at by (cases "a = i") auto
  qed
qed

lemma index_same_key:
  assumes ok: "index_ok jobs idem" and at: "fmlookup jobs i = Some old" and j: "vjID j = i" "vjKey j = vjKey old"
  shows "index_ok (fmupd i j jobs) idem"
proof (rule index_okI)
  fix a x assume "fmlookup (fmupd i j jobs) a = Some x"
  then show "vjID x = a \<and> a \<noteq> []" using index_job[OF ok] at j(1) by (auto split: if_splits)
next
  fix k a
  show "fmlookup idem k = Some a \<longleftrightarrow> k \<noteq> [] \<and> (\<exists>x. fmlookup (fmupd i j jobs) a = Some x \<and> vjKey x = k)"
    unfolding index_key[OF ok] using at j(2) by (cases "a = i") auto
qed

lemma index_rekey:
  assumes "index_ok jobs idem" and "fmlookup jobs (vjID j) = Some old" and "vjKey j \<noteq> vjKey old"
    and "vjKey j = [] \<or> fmlookup idem (vjKey j) = None \<or> fmlookup idem (vjKey j) = Some (vjID j)"
  shows "index_ok (fmupd (vjID j) j jobs) (rekey old j idem)"
proof -
  have "fmlookup idem (vjKey j) \<noteq> Some (vjID j)" using index_key[OF assms(1)] assms(2,3) by auto
  then have free: "vjKey j = [] \<or> fmlookup (if vjKey old \<noteq> [] then fmdrop (vjKey old) idem else idem) (vjKey j) = None"
    using assms(4) by auto
  have upd: "fmupd (vjID j) j jobs = fmupd (vjID j) j (fmdrop (vjID j) jobs)" by (rule fmap_ext) simp
  show ?thesis
    unfolding rekey_def Let_def upd
    by (rule index_add[OF index_drop[OF assms(1,2)]]) (use free index_job[OF assms(1,2)] in auto)
qed

section \<open>Runs of the store in memory\<close>

datatype job_op = OpCreateJob VideoJob | OpUpdateJob VideoJob | OpDeleteJob string
  | OpClaimJob string string duration gotime

datatype job_out = Wrote "job_error option" | Claimed "job_error + VideoJob option"

fun js_step :: "job_op \<Rightarrow> JobStore \<Rightarrow> job_out \<times> JobStore" where
  "js_step (OpCreateJob j) s = map_prod Wrote id (js_Create j s)"
| "js_step (OpUpdateJob j) s = map_prod Wrote id (js_Update j s)"
| "js_step (OpDeleteJob i) s = (Wrote None, js_Delete i s)"
| "js_step (OpClaimJob i owner ttl now) s = map_prod Claimed id (js_TryClaim i owner ttl now s)"

definition js_run :: "job_op list \<Rightarrow> JobStore \<Rightarrow> JobStore" where
  "js_run ops s = fold (\<lambda>op s. snd (js_step op s)) ops s"

definition named :: "job_op \<Rightarrow> bool" where
  "named op \<longleftrightarrow> (case op of OpCreateJob j \<Rightarrow> vjID j \<noteq> [] | _ \<Rightarrow> True)"

abbreviation js_ok :: "JobStore \<Rightarrow> bool" where
  "js_ok s \<equiv> index_ok (jsJobs s) (jsIdem s)"

lemma key_free:
  assumes "index_ok jobs idem"
  shows "fm_get [] idem k = [] \<longleftrightarrow> fmlookup idem k = None"
proof (cases "fmlookup idem k")
  case (Some i)
  then obtain j where "fmlookup jobs i = Some j" using index_key[OF assms] by blast
  then show ?thesis using Some index_job[OF assms] by (auto simp: fm_get_def)
qed (simp add: fm_get_def)

lemma leased_simps [simp]:
  "vjID (leased o' u j) = vjID j" "vjKey (leased o' u j) = vjKey j" "vjState (leased o' u j) = vjState j"
  "vjForceFailed (leased o' u j) = vjForceFailed j" "IsTerminal (leased o' u j) = IsTerminal j"
  "leased o' u (leased p v j) = leased o' u j" "vjLeaseOwner (leased o' u j) = o'" "vjLeaseUntil (leased o' u j) = u"
  by (simp_all add: leased_def IsTerminal_def)

lemma js_step_ok:
  assumes "js_ok s" and "named op"
  shows "js_ok (snd (js_step op s))"
proof (cases op)
  case (OpCreateJob j)
  show ?thesis
  proof (cases "fst (js_Create j s)")
    case None
    then have "fmlookup (jsJobs s) (vjID j) = None" "vjKey j = [] \<or> fmlookup (jsIdem s) (vjKey j) = None"
      using key_free[OF assms(1)] by (auto simp: js_Create_def fm_has_def split: if_splits)
    from index_add[OF assms(1) this(1) _ this(2)] show ?thesis
      using assms(2) OpCreateJob None by (auto simp: js_Create_def named_def split: if_splits)
  qed (use assms OpCreateJob in \<open>auto simp: js_Create_def split: if_splits\<close>)
next
  case (OpUpdateJob j)
  show ?thesis
  proof (cases "fmlookup (jsJobs s) (vjID j)")
    case (Some old)
    show ?thesis
    proof (cases "vjKey j = vjKey old")
      case True
      then show ?thesis using index_same_key[OF assms(1) Some refl] assms(1) OpUpdateJob Some
        by (auto simp: js_Update_def split: option.splits if_splits)
    next
      case False
      then show ?thesis using index_rekey[OF assms(1) Some False] assms(1) OpUpdateJob Some
        by (auto simp: js_Update_def split: option.splits if_splits)
    qed
  qed (use assms OpUpdateJob in \<open>simp add: js_Update_def\<close>)
next
  case (OpDeleteJob i)
  then show ?thesis using assms(1) index_drop[OF assms(1)] by (auto simp: js_Delete_def split: option.split)
next
  case (OpClaimJob i owner ttl now)
  then show ?thesis
    using assms(1) index_same_key[OF assms(1)] index_job[OF assms(1)]
    by (auto simp: js_TryClaim_def Let_def split: option.split)
qed

lemma js_run_ok: "js_ok s \<Longrightarrow> \<forall>op \<in> set ops. named op \<Longrightarrow> js_ok (js_run ops s)"
  by (induction ops arbitrary: s) (auto simp: js_run_def js_step_ok)

end
