(* ===== verification/VideoStores.thy ===== *)
theory VideoStores
  imports VideoJobs "HOL-Library.Sublist"
begin

text \<open>
  What the job stores promise: one job per idempotency key, one live lease per job, frozen
  terminal jobs, and a file store that behaves like the store in memory, undoes every failed
  write exactly and can always be reopened from its file.
\<close>

section \<open>The file store as a store in memory\<close>

definition fs_view :: "FileStore \<Rightarrow> JobStore" where
  "fs_view s = \<lparr>jsJobs = fsJobs s, jsIdem = fsIdem s\<rparr>"

fun fs_step :: "job_codec \<Rightarrow> persist_result \<Rightarrow> job_op \<Rightarrow> FileStore \<Rightarrow> job_out \<times> FileStore" where
  "fs_step cd w (OpCreateJob j) s = map_prod Wrote id (fs_Create cd w j s)"
| "fs_step cd w (OpUpdateJob j) s = map_prod Wrote id (fs_Update cd w j s)"
| "fs_step cd w (OpDeleteJob i) s = map_prod Wrote id (fs_Delete cd w i s)"
| "fs_step cd w (OpClaimJob i owner ttl now) s = map_prod Claimed id (fs_TryClaim cd w i owner ttl now s)"

definition refused :: "job_out \<Rightarrow> bool" where
  "refused r \<longleftrightarrow> r \<in> Wrote ` Some ` {StoreClosed, CommitUncertain, PersistError} \<union>
     Claimed ` Inl ` {StoreClosed, CommitUncertain, PersistError}"

definition fs_ok :: "FileStore \<Rightarrow> bool" where
  "fs_ok s \<longleftrightarrow> index_ok (fsJobs s) (fsIdem s)"

text \<open>A write and its undoing.\<close>

definition landed :: "job_codec \<Rightarrow> persist_result \<Rightarrow> job_doc \<Rightarrow> bool" where
  "landed cd w d \<longleftrightarrow> w = PersistOk \<and> jcMarshal cd d \<noteq> None"

definition write_error :: "job_codec \<Rightarrow> persist_result \<Rightarrow> job_doc \<Rightarrow> job_error" where
  "write_error cd w d = (if w = PersistUncertain \<and> jcMarshal cd d \<noteq> None then CommitUncertain else PersistError)"

definition written :: "job_codec \<Rightarrow> persist_result \<Rightarrow> job_doc \<Rightarrow> job_error option" where
  "written cd w d = (if landed cd w d then None else Some (write_error cd w d))"

definition attempt :: "job_codec \<Rightarrow> (string, VideoJob) fmap \<Rightarrow> (string, string) fmap \<Rightarrow> FileStore \<Rightarrow> persist_result \<Rightarrow> FileStore" where
  "attempt cd jobs idem s w =
     (let s2 = snd (persist cd w (s\<lparr>fsJobs := jobs, fsIdem := idem\<rparr>))
      in if landed cd w (jobs, idem) then s2 else s2\<lparr>fsJobs := fsJobs s, fsIdem := fsIdem s\<rparr>)"

lemma persist_cases:
  "persist cd w s = (written cd w (fsJobs s, fsIdem s), snd (persist cd w s))"
  by (cases w) (simp_all add: persist_def written_def landed_def write_error_def split: option.split)

lemma persist_maps [simp]: "fsJobs (snd (persist cd w s)) = fsJobs s" "fsIdem (snd (persist cd w s)) = fsIdem s"
  by (cases w; simp add: persist_def split: option.split)+

lemma attempt_ok:
  assumes "fs_ok s" and "named op" and "js_step op (fs_view s) = (r, \<lparr>jsJobs = jobs, jsIdem = idem\<rparr>)"
  shows "fs_ok (attempt cd jobs idem s w)"
    and "fs_view (attempt cd jobs idem s w) =
      (if landed cd w (jobs, idem) then \<lparr>jsJobs = jobs, jsIdem = idem\<rparr> else fs_view s)"
proof -
  have "index_ok jobs idem" using js_step_ok[OF _ assms(2), of "fs_view s"] assms(1,3) by (simp add: fs_ok_def fs_view_def)
  then show "fs_ok (attempt cd jobs idem s w)" using assms(1) by (simp add: attempt_def fs_ok_def Let_def)
  show "fs_view (attempt cd jobs idem s w) =
      (if landed cd w (jobs, idem) then \<lparr>jsJobs = jobs, jsIdem = idem\<rparr> else fs_view s)"
    by (simp add: attempt_def fs_view_def Let_def)
qed

lemma fs_ok_index: "fs_ok s \<Longrightarrow> index_ok (fsJobs s) (fsIdem s)"
  by (simp add: fs_ok_def)

lemma refusedI [simp]: "refused (Wrote (Some (write_error cd w d)))" "refused (Claimed (Inl (write_error cd w d)))"
  by (simp_all add: refused_def write_error_def)

lemma usable_refused: "usable s = Some e \<Longrightarrow> refused (Wrote (Some e)) \<and> refused (Claimed (Inl e))"
  by (auto simp: usable_def refused_def split: if_splits)

lemma fs_Create_attempt:
  assumes "usable s = None" and "fmlookup (fsJobs s) (vjID j) = None" and "vjKey j = [] \<or> fmlookup (fsIdem s) (vjKey j) = None"
  shows "fs_Create cd w j s =
    (written cd w (fmupd (vjID j) j (fsJobs s), (if vjKey j \<noteq> [] then fmupd (vjKey j) (vjID j) (fsIdem s) else fsIdem s)),
     attempt cd (fmupd (vjID j) j (fsJobs s)) (if vjKey j \<noteq> [] then fmupd (vjKey j) (vjID j) (fsIdem s) else fsIdem s) s w)"
proof -
  have undo: "fmdrop (vjID j) (fmupd (vjID j) j (fsJobs s)) = fsJobs s"
    "vjKey j \<noteq> [] \<Longrightarrow> fmdrop (vjKey j) (fmupd (vjKey j) (vjID j) (fsIdem s)) = fsIdem s"
    using assms(2,3) by (auto intro!: fmap_ext)
  show ?thesis
    using assms undo
    by (subst fs_Create_def, subst persist_cases) (auto simp: fm_has_def attempt_def written_def Let_def)
qed

lemma fs_Delete_attempt:
  assumes "usable s = None" and "fs_ok s" and "fmlookup (fsJobs s) i = Some j"
  shows "fs_Delete cd w i s =
    (written cd w (fmdrop i (fsJobs s), (if vjKey j \<noteq> [] then fmdrop (vjKey j) (fsIdem s) else fsIdem s)),
     attempt cd (fmdrop i (fsJobs s)) (if vjKey j \<noteq> [] then fmdrop (vjKey j) (fsIdem s) else fsIdem s) s w)"
proof -
  have "vjKey j \<noteq> [] \<Longrightarrow> fmlookup (fsIdem s) (vjKey j) = Some i" using index_key[OF fs_ok_index[OF assms(2)]] assms(3) by blast
  then have undo: "fmupd i j (fmdrop i (fsJobs s)) = fsJobs s"
    "vjKey j \<noteq> [] \<Longrightarrow> fmupd (vjKey j) i (fmdrop (vjKey j) (fsIdem s)) = fsIdem s"
    using assms(3) by (auto intro!: fmap_ext)
  show ?thesis
    using assms undo by (subst fs_Delete_def, subst persist_cases) (auto simp: attempt_def written_def Let_def)
qed

lemma keep_index: "s\<lparr>fsJobs := x, fsIdem := fsIdem s\<rparr> = s\<lparr>fsJobs := x\<rparr>"
  by (cases s) simp

lemma keep_index': "(s' :: FileStore)\<lparr>fsJobs := x, fsIdem := i\<rparr> = s'\<lparr>fsJobs := x\<rparr>" if "fsIdem s' = i"
  using that by (cases s') simp

lemma fs_TryClaim_attempt:
  assumes "usable s = None" and "fmlookup (fsJobs s) i = Some j" and "claimable j owner now"
  shows "fs_TryClaim cd w i owner ttl now s =
    ((if landed cd w (fmupd i (leased owner (Add now ttl) j) (fsJobs s), fsIdem s) then Inr (Some (leased owner (Add now ttl) j))
      else Inl (write_error cd w (fmupd i (leased owner (Add now ttl) j) (fsJobs s), fsIdem s))),
     attempt cd (fmupd i (leased owner (Add now ttl) j) (fsJobs s)) (fsIdem s) s w)"
proof -
  have undo: "fmupd i j (fmupd i j' (fsJobs s)) = fsJobs s" for j' using assms(2) by (auto intro!: fmap_ext)
  show ?thesis
    using assms undo by (subst fs_TryClaim_def, subst persist_cases) (auto simp: attempt_def written_def Let_def keep_index keep_index')
qed

lemma undo_rekey:
  assumes "index_ok jobs idem" and "fmlookup jobs (vjID j) = Some old" and "vjKey old \<noteq> vjKey j"
    and "vjKey j = [] \<or> fmlookup idem (vjKey j) = None \<or> fmlookup idem (vjKey j) = Some (vjID j)"
  shows "(let m = (if vjKey j \<noteq> [] then fmdrop (vjKey j) (rekey old j idem) else rekey old j idem)
     in if vjKey old \<noteq> [] then fmupd (vjKey old) (vjID j) m else m) = idem"
proof -
  have "fmlookup idem (vjKey j) \<noteq> Some (vjID j)" using index_key[OF assms(1)] assms(2,3) by auto
  then have free: "vjKey j = [] \<or> fmlookup idem (vjKey j) = None" using assms(4) by auto
  have own: "vjKey old \<noteq> [] \<Longrightarrow> fmlookup idem (vjKey old) = Some (vjID j)" using index_key[OF assms(1)] assms(2) by blast
  show ?thesis using free own assms(3) by (auto simp: rekey_def Let_def intro!: fmap_ext)
qed

lemma fs_Update_attempt:
  assumes "usable s = None" and "fs_ok s" and "fmlookup (fsJobs s) (vjID j) = Some old" and "checkTerminalUpdate old j = None"
    and "vjKey old \<noteq> vjKey j \<Longrightarrow> vjKey j = [] \<or> fmlookup (fsIdem s) (vjKey j) = None \<or> fmlookup (fsIdem s) (vjKey j) = Some (vjID j)"
  shows "fs_Update cd w j s =
    (written cd w (fmupd (vjID j) j (fsJobs s), (if vjKey old \<noteq> vjKey j then rekey old j (fsIdem s) else fsIdem s)),
     attempt cd (fmupd (vjID j) j (fsJobs s)) (if vjKey old \<noteq> vjKey j then rekey old j (fsIdem s) else fsIdem s) s w)"
proof -
  have undo: "fmupd (vjID j) old (fmupd (vjID j) j (fsJobs s)) = fsJobs s" using assms(3) by (auto intro!: fmap_ext)
  note undo2 = undo_rekey[OF fs_ok_index[OF assms(2)] assms(3)]
  have free: "\<not> (vjKey old \<noteq> vjKey j \<and> vjKey j \<noteq> [] \<and> (case fmlookup (fsIdem s) (vjKey j) of Some i \<Rightarrow> i \<noteq> vjID j | None \<Rightarrow> False))"
    using assms(5) by (auto split: option.split)
  show ?thesis
    unfolding fs_Update_def assms(1,3,4) option.case Let_def if_not_P[OF free]
    by (subst persist_cases) (use undo undo2 assms(5) in \<open>auto simp: attempt_def written_def Let_def\<close>)
qed

text \<open>
  A call either does what the store in memory does or is refused and changes nothing a client
  can see; and it either leaves the store alone or is one attempt to write the result.
\<close>

definition sim :: "job_codec \<Rightarrow> job_out \<Rightarrow> FileStore \<Rightarrow> job_out \<times> JobStore \<Rightarrow> FileStore \<Rightarrow> bool" where
  "sim cd r s' ref s \<longleftrightarrow> fs_ok s' \<and> ((r, fs_view s') = ref \<or> fs_view s' = fs_view s \<and> refused r) \<and>
     (s' = s \<or> usable s = None \<and> (\<exists>w. s' = attempt cd (jsJobs (snd ref)) (jsIdem (snd ref)) s w))"

lemma sim_attempt:
  assumes "fs_ok s" and "usable s = None" and "named op" and "js_step op (fs_view s) = (ok, \<lparr>jsJobs = jobs, jsIdem = idem\<rparr>)"
    and "refused bad"
  shows "sim cd (if landed cd w (jobs, idem) then ok else bad) (attempt cd jobs idem s w) (js_step op (fs_view s)) s"
  using attempt_ok[OF assms(1,3,4), of cd w] assms(2,4,5) by (auto simp: sim_def)

lemma sim_same: "fs_ok s \<Longrightarrow> ref = (r, fs_view s) \<or> refused r \<Longrightarrow> sim cd r s ref s"
  by (auto simp: sim_def)

lemma fs_Create_sim:
  assumes "fs_ok s" and "vjID j \<noteq> []"
  shows "sim cd (Wrote (fst (fs_Create cd w j s))) (snd (fs_Create cd w j s)) (js_step (OpCreateJob j) (fs_view s)) s"
proof -
  consider (stuck) e where "usable s = Some e"
    | (refuse) e where "usable s = None" "fs_Create cd w j s = (Some e, s)" "js_Create j (fs_view s) = (Some e, fs_view s)"
    | (go) "usable s = None" "fmlookup (fsJobs s) (vjID j) = None" "vjKey j = [] \<or> fmlookup (fsIdem s) (vjKey j) = None"
    using key_free[OF fs_ok_index[OF assms(1)], of "vjKey j"]
    by (cases "usable s"; cases "fmlookup (fsJobs s) (vjID j)"; cases "fmlookup (fsIdem s) (vjKey j)"; cases "vjKey j = []")
      (auto simp: fs_Create_def js_Create_def fs_view_def fm_has_def)
  then show ?thesis
  proof cases
    case stuck
    then show ?thesis using usable_refused[OF stuck] assms(1) by (simp add: fs_Create_def sim_same)
  next
    case refuse
    then show ?thesis using assms(1) by (simp add: sim_same)
  next
    case go
    have "js_Create j (fs_view s) = (None, \<lparr>jsJobs = fmupd (vjID j) j (fsJobs s),
        jsIdem = (if vjKey j \<noteq> [] then fmupd (vjKey j) (vjID j) (fsIdem s) else fsIdem s)\<rparr>)"
      using go by (auto simp: js_Create_def fs_view_def fm_has_def fm_get_def)
    then show ?thesis
      unfolding fs_Create_attempt[OF go] fst_conv snd_conv written_def if_distrib[where f = Wrote]
      by (intro sim_attempt[OF assms(1) go(1)]) (simp_all add: named_def assms(2))
  qed
qed

lemma fs_Update_sim:
  assumes "fs_ok s"
  shows "sim cd (Wrote (fst (fs_Update cd w j s))) (snd (fs_Update cd w j s)) (js_step (OpUpdateJob j) (fs_view s)) s"
proof -
  consider (stuck) e where "usable s = Some e"
    | (refuse) e where "usable s = None" "fs_Update cd w j s = (Some e, s)" "js_Update j (fs_view s) = (Some e, fs_view s)"
    | (go) old where "usable s = None" "fmlookup (fsJobs s) (vjID j) = Some old" "checkTerminalUpdate old j = None"
        "vjKey old \<noteq> vjKey j \<Longrightarrow> vjKey j = [] \<or> fmlookup (fsIdem s) (vjKey j) = None \<or> fmlookup (fsIdem s) (vjKey j) = Some (vjID j)"
  proof -
    assume c: "\<And>e. usable s = Some e \<Longrightarrow> thesis"
      "\<And>e. usable s = None \<Longrightarrow> fs_Update cd w j s = (Some e, s) \<Longrightarrow> js_Update j (fs_view s) = (Some e, fs_view s) \<Longrightarrow> thesis"
      "\<And>old. usable s = None \<Longrightarrow> fmlookup (fsJobs s) (vjID j) = Some old \<Longrightarrow> checkTerminalUpdate old j = None \<Longrightarrow>
        (vjKey old \<noteq> vjKey j \<Longrightarrow> vjKey j = [] \<or> fmlookup (fsIdem s) (vjKey j) = None \<or> fmlookup (fsIdem s) (vjKey j) = Some (vjID j))
        \<Longrightarrow> thesis"
    note d = fs_Update_def js_Update_def fs_view_def Let_def
    show thesis
    proof (cases "usable s")
      case u: None
      show thesis
      proof (cases "fmlookup (fsJobs s) (vjID j)")
        case None
        then show thesis using u c(2)[of JobNotFound] by (simp add: d)
      next
        case old: (Some old)
        show thesis
        proof (cases "checkTerminalUpdate old j")
          case (Some e)
          then show thesis using u old c(2)[of e] by (simp add: d)
        next
          case None
          show thesis
          proof (cases "vjKey old \<noteq> vjKey j \<longrightarrow> vjKey j = [] \<or> fmlookup (fsIdem s) (vjKey j) = None \<or> fmlookup (fsIdem s) (vjKey j) = Some (vjID j)")
            case True
            then show thesis using u old None c(3)[of old] by blast
          next
            case False
            then show thesis using u old None c(2)[of IdempotencyConflict] by (auto simp: d)
          qed
        qed
      qed
    qed (rule c(1))
  qed
  then show ?thesis
  proof cases
    case stuck
    then show ?thesis using usable_refused[OF stuck] assms(1) by (simp add: fs_Update_def sim_same)
  next
    case refuse
    then show ?thesis using assms(1) by (simp add: sim_same)
  next
    case (go old)
    have ref: "js_Update j (fs_view s) = (None, \<lparr>jsJobs = fmupd (vjID j) j (fsJobs s),
        jsIdem = (if vjKey old \<noteq> vjKey j then rekey old j (fsIdem s) else fsIdem s)\<rparr>)"
      using go by (auto simp: js_Update_def fs_view_def split: option.splits)
    have upd: "fs_Update cd w j s = (written cd w (fmupd (vjID j) j (fsJobs s), (if vjKey old \<noteq> vjKey j then rekey old j (fsIdem s) else fsIdem s)),
        attempt cd (fmupd (vjID j) j (fsJobs s)) (if vjKey old \<noteq> vjKey j then rekey old j (fsIdem s) else fsIdem s) s w)"
      by (rule fs_Update_attempt[OF go(1) assms go(2,3)]) (rule go(4))
    show ?thesis
      unfolding upd fst_conv snd_conv written_def if_distrib[where f = Wrote]
      by (rule sim_attempt[OF assms go(1)]) (simp_all add: named_def ref)
  qed
qed

lemma fs_Delete_sim:
  assumes "fs_ok s"
  shows "sim cd (Wrote (fst (fs_Delete cd w i s))) (snd (fs_Delete cd w i s)) (js_step (OpDeleteJob i) (fs_view s)) s"
proof (cases "usable s")
  case u: None
  show ?thesis
  proof (cases "fmlookup (fsJobs s) i")
    case None
    then show ?thesis using u assms by (simp add: fs_Delete_def js_Delete_def fs_view_def sim_same)
  next
    case (Some j)
    have "js_step (OpDeleteJob i) (fs_view s) =
        (Wrote None, \<lparr>jsJobs = fmdrop i (fsJobs s), jsIdem = (if vjKey j \<noteq> [] then fmdrop (vjKey j) (fsIdem s) else fsIdem s)\<rparr>)"
      using Some by (simp add: js_Delete_def fs_view_def)
    then show ?thesis
      unfolding fs_Delete_attempt[OF u assms Some] fst_conv snd_conv written_def if_distrib[where f = Wrote]
      by (intro sim_attempt[OF assms u]) (simp_all add: named_def)
  qed
next
  case (Some e)
  then show ?thesis using usable_refused[OF Some] assms by (simp add: fs_Delete_def sim_same)
qed

lemma fs_TryClaim_sim:
  assumes "fs_ok s"
  shows "sim cd (Claimed (fst (fs_TryClaim cd w i owner ttl now s))) (snd (fs_TryClaim cd w i owner ttl now s))
    (js_step (OpClaimJob i owner ttl now) (fs_view s)) s"
proof (cases "usable s")
  case u: None
  show ?thesis
  proof (cases "fmlookup (fsJobs s) i")
    case None
    then show ?thesis using u assms by (simp add: fs_TryClaim_def js_TryClaim_def fs_view_def sim_same)
  next
    case (Some j)
    show ?thesis
    proof (cases "claimable j owner now")
      case True
      have ref: "js_TryClaim i owner ttl now (fs_view s) = (Inr (Some (leased owner (Add now ttl) j)),
          \<lparr>jsJobs = fmupd i (leased owner (Add now ttl) j) (fsJobs s), jsIdem = fsIdem s\<rparr>)"
        using Some True by (simp add: js_TryClaim_def fs_view_def Let_def)
      show ?thesis
        unfolding fs_TryClaim_attempt[OF u Some True] fst_conv snd_conv if_distrib[where f = Claimed]
        by (rule sim_attempt[OF assms u]) (simp_all add: named_def ref)
    next
      case False
      then show ?thesis using u Some assms by (simp add: fs_TryClaim_def js_TryClaim_def fs_view_def sim_same)
    qed
  qed
next
  case (Some e)
  then show ?thesis using usable_refused[OF Some] assms by (simp add: fs_TryClaim_def sim_same)
qed

lemma fs_step_sim:
  assumes "fs_ok s" and "named op"
  shows "sim cd (fst (fs_step cd w op s)) (snd (fs_step cd w op s)) (js_step op (fs_view s)) s"
  using fs_Create_sim[OF assms(1)] fs_Update_sim[OF assms(1)] fs_Delete_sim[OF assms(1)] fs_TryClaim_sim[OF assms(1)] assms(2)
  by (cases op) (simp_all add: named_def del: js_step.simps)

section \<open>The contract of a job store\<close>

fun trace :: "('w \<Rightarrow> job_op \<Rightarrow> 's \<Rightarrow> job_out \<times> 's) \<Rightarrow> ('w \<times> job_op) list \<Rightarrow> 's \<Rightarrow> (job_op \<times> job_out) list \<times> 's" where
  "trace step [] s = ([], s)"
| "trace step ((w, op) # ws) s =
     (let (r, s1) = step w op s; (t, s2) = trace step ws s1 in ((op, r) # t, s2))"

definition answered :: "(job_op \<times> job_out) list \<Rightarrow> (job_op \<times> job_out) list" where
  "answered t = filter (\<lambda>(op, r). \<not> refused r) t"

definition all_named :: "('w \<times> job_op) list \<Rightarrow> bool" where
  "all_named ws \<longleftrightarrow> (\<forall>(w, op) \<in> set ws. named op)"

lemma all_named_simps [simp]: "all_named []" "all_named ((w, op) # ws) \<longleftrightarrow> named op \<and> all_named ws"
  by (simp_all add: all_named_def)

text \<open>Job \<open>i\<close> is leased to \<open>A\<close> until \<open>D\<close> at least, and operations that leave such a lease alone.\<close>

definition held :: "string \<Rightarrow> string \<Rightarrow> gotime \<Rightarrow> JobStore \<Rightarrow> bool" where
  "held i A D s \<longleftrightarrow> (case fmlookup (jsJobs s) i of None \<Rightarrow> False | Some j \<Rightarrow> vjLeaseOwner j = A \<and> D \<le> vjLeaseUntil j)"

definition keeps_lease :: "string \<Rightarrow> string \<Rightarrow> gotime \<Rightarrow> job_op \<Rightarrow> bool" where
  "keeps_lease i A D op \<longleftrightarrow>
     (case op of
        OpCreateJob j \<Rightarrow> True
      | OpUpdateJob j \<Rightarrow> vjID j = i \<longrightarrow> vjLeaseOwner j = A \<and> D \<le> vjLeaseUntil j
      | OpDeleteJob i' \<Rightarrow> i' \<noteq> i
      | OpClaimJob i' owner ttl now \<Rightarrow> i' = i \<longrightarrow> now < D \<and> (owner = A \<longrightarrow> D \<le> Add now ttl))"

lemma js_step_held:
  assumes "held i A D s" and "A \<noteq> []" and "keeps_lease i A D op"
  shows "held i A D (snd (js_step op s))"
proof -
  obtain j where j: "fmlookup (jsJobs s) i = Some j" "vjLeaseOwner j = A" "D \<le> vjLeaseUntil j"
    using assms(1) by (auto simp: held_def split: option.splits)
  show ?thesis
    using j assms(2,3)
    by (cases op)
      (auto simp: keeps_lease_def held_def js_Create_def js_Update_def js_Delete_def js_TryClaim_def claimable_def After_def
        Let_def fm_has_def leased_def split: option.splits if_splits)
qed

lemma js_claim_held:
  assumes "held i A D s" and "A \<noteq> []" and "B \<noteq> A" and "now < D"
  shows "js_step (OpClaimJob i B ttl now) s = (Claimed (Inr None), s)"
  using assms by (auto simp: held_def js_TryClaim_def claimable_def After_def split: option.splits)

lemma js_claim_holds:
  "js_step (OpClaimJob i A ttl now) s = (Claimed (Inr (Some j)), s') \<Longrightarrow> held i A (Add now ttl) s'"
  by (auto simp: held_def js_TryClaim_def leased_def Let_def split: option.splits if_splits)

text \<open>Job \<open>i\<close> is terminal job \<open>j\<close>, apart from its lease.\<close>

definition frozen :: "string \<Rightarrow> VideoJob \<Rightarrow> JobStore \<Rightarrow> bool" where
  "frozen i j s \<longleftrightarrow> (\<exists>owner until. fmlookup (jsJobs s) i = Some (leased owner until j))"

lemma js_step_frozen:
  assumes "frozen i j s" and "js_ok s" and "IsTerminal j" and "op \<noteq> OpDeleteJob i"
  shows "frozen i j (snd (js_step op s))"
proof -
  obtain p u where j: "fmlookup (jsJobs s) i = Some (leased p u j)" using assms(1) by (auto simp: frozen_def)
  show ?thesis
    using j assms(3,4)
    by (cases op)
      (auto simp: frozen_def js_Create_def js_Update_def js_Delete_def js_TryClaim_def checkTerminalUpdate_def
        Let_def fm_has_def split: option.splits if_splits, blast)
qed

lemma js_never_refuses: "\<not> refused (fst (js_step op s))"
  by (cases op)
    (auto simp: refused_def js_Create_def js_Update_def js_TryClaim_def checkTerminalUpdate_def Let_def
      split: option.splits if_splits)

text \<open>
  What a store promises its clients: every operation either does what the store in memory does
  or is refused and changes nothing a client can see.
\<close>

locale job_store =
  fixes step :: "'w \<Rightarrow> job_op \<Rightarrow> 's \<Rightarrow> job_out \<times> 's" and view :: "'s \<Rightarrow> JobStore" and ok :: "'s \<Rightarrow> bool"
  assumes ok_view: "ok s \<Longrightarrow> js_ok (view s)"
    and step_ok: "ok s \<Longrightarrow> named op \<Longrightarrow> ok (snd (step w op s))"
    and step_view: "ok s \<Longrightarrow> named op \<Longrightarrow>
      (fst (step w op s), view (snd (step w op s))) = js_step op (view s) \<or>
      view (snd (step w op s)) = view s \<and> refused (fst (step w op s))"
begin

lemma step_answer:
  "ok s \<Longrightarrow> named op \<Longrightarrow> \<not> refused (fst (step w op s)) \<Longrightarrow> js_step op (view s) = (fst (step w op s), view (snd (step w op s)))"
  using step_view[of s op w] by auto

lemma step_refused: "ok s \<Longrightarrow> named op \<Longrightarrow> refused (fst (step w op s)) \<Longrightarrow> view (snd (step w op s)) = view s"
  using step_view[of s op w] js_never_refuses[of op "view s"] by (metis fst_conv)

lemma trace_refines:
  "ok s \<Longrightarrow> all_named ws \<Longrightarrow> trace step ws s = (t, s') \<Longrightarrow>
   ok s' \<and> trace (\<lambda>_. js_step) (map (\<lambda>(op, r). ((), op)) (answered t)) (view s) = (answered t, view s')"
proof (induction ws arbitrary: s t)
  case (Cons a ws)
  obtain w op where a: "a = (w, op)" by (cases a)
  obtain r s1 where s1: "step w op s = (r, s1)" by fastforce
  obtain t1 where t1: "trace step ws s1 = (t1, s')" "t = (op, r) # t1"
    using Cons.prems(3) by (auto simp: a s1 split: prod.splits)
  have n: "named op" "all_named ws" using Cons.prems(2) by (simp_all add: a)
  have "ok s1" using step_ok[OF Cons.prems(1) n(1), of w] by (simp add: s1)
  note IH = Cons.IH[OF this n(2) t1(1)]
  show ?case
    using IH step_answer[OF Cons.prems(1) n(1), of w] step_refused[OF Cons.prems(1) n(1), of w] s1 t1(2)
    by (cases "refused r") (auto simp: answered_def simp del: js_step.simps)
qed (simp add: answered_def)

lemma trace_keeps:
  assumes "ok s" and "all_named ws" and "trace step ws s = (t, s')" and "P (view s)"
    and "\<And>v w op. P v \<Longrightarrow> js_ok v \<Longrightarrow> (w, op) \<in> set ws \<Longrightarrow> P (snd (js_step op v))"
  shows "ok s' \<and> P (view s')"
  using assms
proof (induction ws arbitrary: s t)
  case (Cons a ws)
  obtain w op where a: "a = (w, op)" by (cases a)
  obtain r s1 where s1: "step w op s = (r, s1)" by fastforce
  obtain t1 where t1: "trace step ws s1 = (t1, s')" using Cons.prems(3) by (auto simp: a s1 split: prod.splits)
  have n: "named op" "all_named ws" using Cons.prems(2) by (simp_all add: a)
  have ok1: "ok s1" using step_ok[OF Cons.prems(1) n(1), of w] by (simp add: s1)
  have "P (snd (js_step op (view s)))" using Cons.prems(5)[OF Cons.prems(4) ok_view[OF Cons.prems(1)], of w op] a by simp
  then have "P (view s1)" using step_view[OF Cons.prems(1) n(1), of w] Cons.prems(4) s1
    by (metis fst_conv snd_conv)
  then show ?case by (rule Cons.IH[OF ok1 n(2) t1]) (use Cons.prems(5) in \<open>blast intro: list.set_intros\<close>)
qed simp

lemma lease_excludes:
  assumes "ok s" and "step w (OpClaimJob i A ttl now) s = (Claimed (Inr (Some j)), s1)" and "A \<noteq> []"
    and "all_named ws" and "trace step ws s1 = (t, s2)" and "\<forall>(w, op) \<in> set ws. keeps_lease i A (Add now ttl) op"
    and "B \<noteq> A" and "now' < Add now ttl"
  shows "fst (step w' (OpClaimJob i B ttl' now') s2) \<noteq> Claimed (Inr (Some j'))"
proof -
  have n: "named (OpClaimJob i X ttl now)" for X ttl now by (simp add: named_def)
  have ok1: "ok s1" using step_ok[OF assms(1) n[of A ttl now], of w] by (simp add: assms(2))
  have "js_step (OpClaimJob i A ttl now) (view s) = (Claimed (Inr (Some j)), view s1)"
    using step_answer[OF assms(1) n[of A ttl now], of w] by (simp add: assms(2) refused_def image_iff)
  from js_claim_holds[OF this] have h1: "held i A (Add now ttl) (view s1)" .
  have h2: "ok s2 \<and> held i A (Add now ttl) (view s2)"
    by (rule trace_keeps[where P = "held i A (Add now ttl)", OF ok1 assms(4,5) h1]) (use assms(3,6) js_step_held in blast)
  show ?thesis
  proof
    assume c: "fst (step w' (OpClaimJob i B ttl' now') s2) = Claimed (Inr (Some j'))"
    then have "\<not> refused (fst (step w' (OpClaimJob i B ttl' now') s2))" by (simp add: refused_def image_iff)
    from step_answer[OF conjunct1[OF h2] n this] c have "fst (js_step (OpClaimJob i B ttl' now') (view s2)) = Claimed (Inr (Some j'))"
      by (simp only: fst_conv)
    then show False by (simp only: js_claim_held[OF conjunct2[OF h2] assms(3,7,8)] fst_conv job_out.inject sum.inject option.distinct)
  qed
qed

end

interpretation memory_store: job_store "\<lambda>_ :: unit. js_step" id js_ok
  by unfold_locales (simp_all add: js_step_ok)

interpretation file_store: job_store "fs_step cd" fs_view fs_ok
proof
  show "js_ok (fs_view s)" if "fs_ok s" for s using that by (simp add: fs_ok_def fs_view_def)
  show "fs_ok (snd (fs_step cd w op s))" if "fs_ok s" "named op" for s op w
    using fs_step_sim[OF that, of cd w] unfolding sim_def by blast
  show "(fst (fs_step cd w op s), fs_view (snd (fs_step cd w op s))) = js_step op (fs_view s) \<or>
      fs_view (snd (fs_step cd w op s)) = fs_view s \<and> refused (fst (fs_step cd w op s))" if "fs_ok s" "named op" for s op w
    using fs_step_sim[OF that, of cd w] unfolding sim_def by blast
qed

section \<open>Reopening\<close>

lemma index_jobs_rebuilds:
  assumes "index_ok jobs idem" and "set is \<subseteq> fset (fmdom jobs)" and "\<forall>k i. fmlookup acc k = Some i \<longrightarrow> fmlookup idem k = Some i"
  shows "\<exists>r. index_jobs jobs is acc = Some r \<and> (\<forall>k i. fmlookup acc k = Some i \<longrightarrow> fmlookup r k = Some i) \<and>
     (\<forall>k i. fmlookup r k = Some i \<longrightarrow> fmlookup idem k = Some i) \<and>
     (\<forall>i \<in> set is. \<forall>k. fmlookup idem k = Some i \<longrightarrow> fmlookup r k = Some i)"
  using assms(2,3)
proof (induction "is" arbitrary: acc)
  case (Cons i "is")
  obtain j where j: "fmlookup jobs i = Some j" using Cons.prems(1) by (auto simp: fmlookup_dom_iff)
  note acc = Cons.prems(2)[rule_format]
  have mine: "fmlookup idem k = Some i \<longleftrightarrow> k \<noteq> [] \<and> vjKey j = k" for k using index_key[OF assms(1), of k i] j by simp
  have named: "fmlookup acc k = Some [] \<Longrightarrow> False" for k
    using acc[of k "[]"] index_key[OF assms(1), of k "[]"] index_job[OF assms(1), of "[]"] by blast
  let ?acc = "if vjKey j = [] \<or> fmlookup acc (vjKey j) \<noteq> None then acc else fmupd (vjKey j) i acc"
  have step: "index_jobs jobs (i # is) acc = index_jobs jobs is ?acc"
  proof (cases "fmlookup acc (vjKey j)")
    case (Some i')
    then have "vjKey j \<noteq> [] \<Longrightarrow> i' = i" using acc[OF Some] mine[of "vjKey j"] by simp
    then show ?thesis using Some named[of "vjKey j"] by (auto simp: j fm_get_def Let_def)
  qed (simp add: j fm_get_def Let_def)
  have sub: "fmlookup ?acc k = Some a \<longrightarrow> fmlookup idem k = Some a" for k a
    using acc[of k a] mine[of k] by (cases "k = vjKey j") auto
  have "set is \<subseteq> fset (fmdom jobs)" using Cons.prems(1) by simp
  from Cons.IH[OF this allI[OF allI[OF sub]]] obtain r where R: "index_jobs jobs is ?acc = Some r"
    "\<forall>k a. fmlookup ?acc k = Some a \<longrightarrow> fmlookup r k = Some a" "\<forall>k a. fmlookup r k = Some a \<longrightarrow> fmlookup idem k = Some a"
    "\<forall>a \<in> set is. \<forall>k. fmlookup idem k = Some a \<longrightarrow> fmlookup r k = Some a"
    by (elim exE conjE) (rule that)
  note r = R(1) R(2)[rule_format]
  have own: "fmlookup r k = Some i" if "fmlookup idem k = Some i" for k
  proof (cases "fmlookup acc k")
    case None
    then show ?thesis using r(2)[of k i] that mine[of k] by simp
  next
    case (Some a)
    then have "a = i" using acc[OF Some] that by simp
    then show ?thesis using r(2)[of k i] Some by (simp split: if_splits)
  qed
  have acc_r: "fmlookup r k = Some a" if "fmlookup acc k = Some a" for k a
    using r(2)[of k a] that by (simp split: if_splits)
  show ?case
  proof (intro exI conjI allI impI ballI)
    show "index_jobs jobs (i # is) acc = Some r" by (simp only: step r(1))
    show "fmlookup r k = Some a" if "fmlookup acc k = Some a" for k a by (rule acc_r[OF that])
    show "fmlookup idem k = Some a" if "fmlookup r k = Some a" for k a using R(3) that by blast
    show "fmlookup r k = Some a" if "a \<in> set (i # is)" "fmlookup idem k = Some a" for k a
      using that(1) R(4)[rule_format, OF _ that(2)] own[of k] that(2) by (cases "a = i") simp_all
  qed
qed simp

lemma NewFileStore_rebuilds:
  assumes "index_ok jobs idem" and "map_order iter" and "path \<noteq> []" and "jcUnmarshal cd bytes = Some (jobs, idem)"
  shows "NewFileStore cd iter path (FileData bytes) =
    Some \<lparr>fsJobs = jobs, fsIdem = idem, fsClosed = False, fsUncertain = False, fsDisk = Some bytes\<rparr>"
proof -
  have "set (iter (fmdom jobs)) = fset (fmdom jobs)" by (rule map_order.iter_set[OF assms(2)])
  note keys = this
  have "\<forall>k i. fmlookup fmempty k = Some i \<longrightarrow> fmlookup idem k = Some i" by simp
  from index_jobs_rebuilds[OF assms(1) equalityD1[OF keys] this] obtain r where
    r: "index_jobs jobs (iter (fmdom jobs)) fmempty = Some r" "\<forall>k i. fmlookup r k = Some i \<longrightarrow> fmlookup idem k = Some i"
      "\<forall>i \<in> set (iter (fmdom jobs)). \<forall>k. fmlookup idem k = Some i \<longrightarrow> fmlookup r k = Some i"
    by (elim exE conjE) (rule that)
  have "fmlookup r k = fmlookup idem k" for k
  proof (cases "fmlookup idem k")
    case None
    then show ?thesis using r(2) by (cases "fmlookup r k") auto
  next
    case (Some i)
    then have "i \<in> set (iter (fmdom jobs))" using index_key[OF assms(1)] by (auto simp: keys fmlookup_dom_iff)
    then show ?thesis using r(3) Some by simp
  qed
  then have "r = idem" by (rule fmap_ext)
  then show ?thesis using r(1) assms(3,4) by (simp add: NewFileStore_def)
qed

subsection \<open>What JSON preserves\<close>

text \<open>
  The documents that come back from the file as they were: the strings are well-formed UTF-8, a
  state that is none of the declared ones does not have the name of one, and the numbers are
  values of their Go types.  A not-a-number or an infinity cannot be marshalled at all.
\<close>

definition readable_float :: "gofloat \<Rightarrow> bool" where
  "readable_float x \<longleftrightarrow> (case x of Fin r \<Rightarrow> gofl r = Fin r | _ \<Rightarrow> True)"

definition readable_state :: "JobState \<Rightarrow> bool" where
  "readable_state st \<longleftrightarrow> (case st of OtherJobState n \<Rightarrow> utf8 n \<and> n \<notin> snd ` set known_states | _ \<Rightarrow> True)"

definition readable_strings :: "(string, string) fmap \<Rightarrow> bool" where
  "readable_strings m \<longleftrightarrow> (\<forall>k v. fmlookup m k = Some v \<longrightarrow> utf8 k \<and> utf8 v)"

definition readable_asset :: "Asset \<Rightarrow> bool" where
  "readable_asset a \<longleftrightarrow> list_all utf8 [aURI a, aContentType a, aSHA256 a, aRest a] \<and> i64 (aSize a) = aSize a \<and>
     readable_strings (aMetadata a)"

definition readable_shot :: "ShotExecution \<Rightarrow> bool" where
  "readable_shot e \<longleftrightarrow> utf8 (seShotID e) \<and> utf8 (seProviderJobID e) \<and> readable_state (seState e)"

definition readable_job :: "VideoJob \<Rightarrow> bool" where
  "readable_job j \<longleftrightarrow>
     list_all utf8 [vjID j, vjKey j, vjLeaseOwner j, vjProject j, vjEpisode j, vjModelPreference j, vjProvider j, vjModel j,
       vjProviderJobID j, vjLastError j, vjBasis j, vjRest j] \<and>
     readable_state (vjState j) \<and> list_all readable_float [vjProgress j, vjEstimated j, vjActual j] \<and>
     (case vjDelta j of None \<Rightarrow> True | Some x \<Rightarrow> readable_float x) \<and>
     i64 (vjRetryCount j) = vjRetryCount j \<and> i64 (vjCurrentShot j) = vjCurrentShot j \<and>
     list_all readable_shot (vjShotExecutions j) \<and> list_all readable_asset (vjOutputs j) \<and> readable_strings (vjUsage j)"

definition readable_doc :: "job_doc \<Rightarrow> bool" where
  "readable_doc d \<longleftrightarrow> (\<forall>i j. fmlookup (fst d) i = Some j \<longrightarrow> utf8 i \<and> readable_job j) \<and> readable_strings (snd d)"

text \<open>What the file store relies on: such a document, once marshalled, is unmarshalled unchanged.\<close>

definition reads_back :: "job_codec \<Rightarrow> bool" where
  "reads_back cd \<longleftrightarrow> (\<forall>d bytes. readable_doc d \<and> jcMarshal cd d = Some bytes \<longrightarrow> jcUnmarshal cd bytes = Some d)"

definition readable_op :: "job_op \<Rightarrow> bool" where
  "readable_op op \<longleftrightarrow> (case op of OpCreateJob j \<Rightarrow> readable_job j | OpUpdateJob j \<Rightarrow> readable_job j
     | OpDeleteJob i \<Rightarrow> True | OpClaimJob i owner ttl now \<Rightarrow> utf8 owner)"

definition readable_jobs :: "JobStore \<Rightarrow> bool" where
  "readable_jobs v \<longleftrightarrow> (\<forall>i j. fmlookup (jsJobs v) i = Some j \<longrightarrow> readable_job j)"

lemma js_step_readable: "readable_jobs v \<Longrightarrow> readable_op op \<Longrightarrow> readable_jobs (snd (js_step op v))"
  by (cases op)
    (auto simp: readable_jobs_def readable_op_def js_Create_def js_Update_def js_Delete_def js_TryClaim_def leased_def
      readable_job_def Let_def split: option.splits if_splits)

lemma readable_index:
  assumes "js_ok v" and "readable_jobs v"
  shows "readable_doc (jsJobs v, jsIdem v)"
proof -
  have job: "utf8 (vjID j) \<and> utf8 (vjKey j) \<and> readable_job j \<and> vjID j = i" if "fmlookup (jsJobs v) i = Some j" for i j
    using that assms(2) index_job[OF assms(1) that] by (auto simp: readable_jobs_def readable_job_def)
  have "utf8 k \<and> utf8 i" if k: "fmlookup (jsIdem v) k = Some i" for k i
  proof -
    obtain j where "fmlookup (jsJobs v) i = Some j" "vjKey j = k" using k index_key[OF assms(1), of k i] by blast
    then show ?thesis using job[of i j] by auto
  qed
  with job show ?thesis by (auto simp: readable_doc_def readable_strings_def)
qed

subsection \<open>What is in the file\<close>

definition on_disk :: "job_codec \<Rightarrow> string option \<Rightarrow> JobStore \<Rightarrow> bool" where
  "on_disk cd file v \<longleftrightarrow> file \<noteq> None \<and> file = jcMarshal cd (jsJobs v, jsIdem v)"

text \<open>The file holds the jobs of the store or, after an uncertain write, those it would hold after one
of the operations in question.\<close>

definition disk_ok :: "job_codec \<Rightarrow> (job_op \<Rightarrow> bool) \<Rightarrow> FileStore \<Rightarrow> bool" where
  "disk_ok cd P s \<longleftrightarrow>
     (if fsUncertain s then \<exists>op. P op \<and> on_disk cd (fsDisk s) (snd (js_step op (fs_view s)))
      else on_disk cd (fsDisk s) (fs_view s) \<or> fsDisk s = None \<and> fs_view s = NewJobStore)"

lemma attempt_disk:
  assumes "disk_ok cd P s" and "usable s = None" and "P op" and "snd (js_step op (fs_view s)) = \<lparr>jsJobs = jobs, jsIdem = idem\<rparr>"
  shows "disk_ok cd P (attempt cd jobs idem s w)"
proof (cases "jcMarshal cd (jobs, idem) = None \<or> w = PersistFailed")
  case True
  then have "attempt cd jobs idem s w = s"
    by (cases s) (auto simp: attempt_def persist_def landed_def split: option.split)
  then show ?thesis using assms(1) by simp
next
  case False
  then obtain b where b: "jcMarshal cd (jobs, idem) = Some b" by auto
  show ?thesis
  proof (cases w)
    case PersistOk
    then show ?thesis using b assms(1,2)
      by (auto simp: attempt_def persist_def landed_def disk_ok_def on_disk_def fs_view_def usable_def split: if_splits)
  next
    case PersistUncertain
    then have "fs_view (attempt cd jobs idem s w) = fs_view s" "fsUncertain (attempt cd jobs idem s w)"
      "fsDisk (attempt cd jobs idem s w) = Some b"
      using b by (simp_all add: attempt_def persist_def landed_def fs_view_def)
    then show ?thesis using b assms(3,4) by (auto simp: disk_ok_def on_disk_def)
  qed (use False in simp)
qed

lemma step_disk:
  assumes "fs_ok s" and "named op" and "P op" and "disk_ok cd P s"
  shows "disk_ok cd P (snd (fs_step cd w op s))"
proof -
  obtain v where v: "snd (js_step op (fs_view s)) = v" by blast
  consider "snd (fs_step cd w op s) = s"
    | w' where "usable s = None" "snd (fs_step cd w op s) = attempt cd (jsJobs v) (jsIdem v) s w'"
    using fs_step_sim[OF assms(1,2), of cd w] unfolding sim_def v by blast
  then show ?thesis
  proof cases
    case 2
    then show ?thesis using attempt_disk[OF assms(4) 2(1) assms(3), of "jsJobs v" "jsIdem v"] v by (cases v) simp
  qed (use assms(4) in simp)
qed

lemma trace_disk:
  assumes "fs_ok s" and "all_named ws" and "\<forall>(w, op) \<in> set ws. P op" and "disk_ok cd P s" and "trace (fs_step cd) ws s = (t, s')"
  shows "disk_ok cd P s'"
  using assms
proof (induction ws arbitrary: s t)
  case (Cons a ws)
  obtain w op where a: "a = (w, op)" by (cases a)
  obtain r s1 where s1: "fs_step cd w op s = (r, s1)" by fastforce
  obtain t1 where t1: "trace (fs_step cd) ws s1 = (t1, s')" using Cons.prems(5) by (auto simp: a s1 split: prod.splits)
  have n: "named op" "P op" "all_named ws" "\<forall>(w, op) \<in> set ws. P op" using Cons.prems(2,3) by (auto simp: a)
  have "disk_ok cd P s1" using step_disk[OF Cons.prems(1) n(1,2) Cons.prems(4), of w] by (simp add: s1)
  moreover have "fs_ok s1" using file_store.step_ok[OF Cons.prems(1) n(1), of cd w] by (simp add: s1)
  ultimately show ?case by (intro Cons.IH[OF _ n(3,4) _ t1])
qed simp

definition stored :: "string option \<Rightarrow> file_read" where
  "stored file = (case file of None \<Rightarrow> FileMissing | Some bytes \<Rightarrow> FileData bytes)"

lemma reopen_on_disk:
  assumes "reads_back cd" and "map_order iter" and "path \<noteq> []" and "js_ok v" and "readable_jobs v" and "on_disk cd file v"
  shows "\<exists>s'. NewFileStore cd iter path (stored file) = Some s' \<and> usable s' = None \<and> fs_view s' = v"
proof -
  obtain b where b: "file = Some b" "jcMarshal cd (jsJobs v, jsIdem v) = Some b" using assms(6) by (auto simp: on_disk_def)
  then have "jcUnmarshal cd b = Some (jsJobs v, jsIdem v)"
    using assms(1) readable_index[OF assms(4,5)] by (simp add: reads_back_def)
  from NewFileStore_rebuilds[OF assms(4,2,3) this] show ?thesis
    by (simp add: stored_def b(1) usable_def fs_view_def)
qed

section \<open>What the stores guarantee\<close>

definition new_file :: FileStore where
  "new_file = \<lparr>fsJobs = fmempty, fsIdem = fmempty, fsClosed = False, fsUncertain = False, fsDisk = None\<rparr>"

lemma new_file_ok [simp]: "fs_ok new_file" "disk_ok cd P new_file" "fs_view new_file = NewJobStore" "usable new_file = None"
  by (simp_all add: new_file_def fs_ok_def disk_ok_def fs_view_def NewJobStore_def usable_def)

lemma NewFileStore_fresh: "path \<noteq> [] \<Longrightarrow> NewFileStore cd iter path FileMissing = Some new_file"
  by (simp add: NewFileStore_def new_file_def)

definition demo_job :: VideoJob where
  "demo_job = zero_VideoJob\<lparr>vjID := ''vid_1'', vjKey := ''order-7'', vjState := StateQueued\<rparr>"

text \<open>C17: The file store is the in-memory store with refused writes taken out.  Whatever sequence of
  creates, updates, deletes and claims runs on a new file store, however each write of the
  file ends and whichever documents can be marshalled, the operations it did not refuse get
  exactly the answers the in-memory store would give to just those operations, and leave the
  same jobs and the same index of keys.  The jobs created have a non-empty identifier, as every
  job of the service has; on an empty one the two stores differ.
\<close>

theorem file_store_refines_memory:
  assumes "NewFileStore cd iter path FileMissing = Some s0" and "all_named ws" and "trace (fs_step cd) ws s0 = (t, s)"
  shows "trace (\<lambda>_. js_step) (map (\<lambda>(op, r). ((), op)) (answered t)) NewJobStore = (answered t, fs_view s)"
proof -
  have "s0 = new_file" using assms(1) by (auto simp: NewFileStore_def new_file_def split: if_splits)
  then show ?thesis using file_store.trace_refines[OF new_file_ok(1) assms(2), of cd t s] assms(3) by simp
qed

definition demo_ops :: "(persist_result \<times> job_op) list" where
  "demo_ops = [(PersistOk, OpCreateJob demo_job), (PersistFailed, OpClaimJob ''vid_1'' ''w1'' 5 100),
     (PersistOk, OpCreateJob (demo_job\<lparr>vjID := ''vid_2''\<rparr>)), (PersistUncertain, OpDeleteJob ''vid_1'')]"

lemma demo_named: "all_named demo_ops"
  by (simp add: demo_ops_def named_def demo_job_def)

definition demo_doc :: job_doc where
  "demo_doc = (fmupd ''vid_1'' demo_job fmempty, fmupd ''order-7'' ''vid_1'' fmempty)"

text \<open>A codec for two documents.\<close>

definition demo_codec :: job_codec where
  "demo_codec = \<lparr>jcMarshal = (\<lambda>d. if d = demo_doc then Some ''{1}'' else if d = (fmempty, fmempty) then Some ''{}'' else None),
     jcUnmarshal = (\<lambda>b. if b = ''{1}'' then Some demo_doc else if b = ''{}'' then Some (fmempty, fmempty) else None)\<rparr>"

lemma demo_reads_back: "reads_back demo_codec"
  by (auto simp: reads_back_def demo_codec_def)

lemma demo_create:
  "jcMarshal cd demo_doc = Some b \<Longrightarrow> fs_Create cd PersistOk demo_job new_file =
     (None, \<lparr>fsJobs = fst demo_doc, fsIdem = snd demo_doc, fsClosed = False, fsUncertain = False, fsDisk = Some b\<rparr>)"
  by (simp add: new_file_def demo_doc_def demo_job_def fs_Create_def usable_def persist_def fm_has_def Let_def)

lemma persist_failed [simp]: "persist cd PersistFailed s = (Some PersistError, s)"
  by (simp add: persist_def split: option.split)

lemma demo_trace:
  "trace (fs_step demo_codec) demo_ops new_file =
    ([(OpCreateJob demo_job, Wrote None), (OpClaimJob ''vid_1'' ''w1'' 5 100, Claimed (Inl PersistError)),
      (OpCreateJob (demo_job\<lparr>vjID := ''vid_2''\<rparr>), Wrote (Some IdempotencyConflict)),
      (OpDeleteJob ''vid_1'', Wrote (Some CommitUncertain))],
     \<lparr>fsJobs = fst demo_doc, fsIdem = snd demo_doc, fsClosed = False, fsUncertain = True, fsDisk = Some ''{}''\<rparr>)"
proof -
  have m: "jcMarshal demo_codec demo_doc = Some ''{1}''" "jcMarshal demo_codec (fmempty, fmempty) = Some ''{}''"
    by (simp_all add: demo_codec_def demo_doc_def)
  let ?s = "\<lparr>fsJobs = fst demo_doc, fsIdem = snd demo_doc, fsClosed = False, fsUncertain = False, fsDisk = Some ''{1}''\<rparr>"
  have j: "vjID demo_job = ''vid_1''" "vjKey demo_job = ''order-7''" "vjLeaseOwner demo_job = []"
    by (simp_all add: demo_job_def zero_VideoJob_def)
  have e: "fmdrop ''vid_1'' (fst demo_doc) = fmempty" "fmdrop ''order-7'' (snd demo_doc) = fmempty"
    "fmupd ''vid_1'' demo_job fmempty = fst demo_doc" "fmupd ''order-7'' ''vid_1'' fmempty = snd demo_doc"
    by (auto simp: demo_doc_def intro!: fmap_ext)
  have l: "fmlookup (fst demo_doc) ''vid_1'' = Some demo_job" "fmlookup (fst demo_doc) ''vid_2'' = None"
    "fmlookup (snd demo_doc) ''order-7'' = Some ''vid_1''"
    by (simp_all add: demo_doc_def)
  have "fs_TryClaim demo_codec PersistFailed ''vid_1'' ''w1'' 5 100 ?s = (Inl PersistError, ?s)"
    using l by (auto simp: fs_TryClaim_def usable_def claimable_def j demo_doc_def Let_def intro!: fmap_ext)
  moreover have "fs_Create demo_codec PersistOk (demo_job\<lparr>vjID := ''vid_2''\<rparr>) ?s = (Some IdempotencyConflict, ?s)"
    by (simp add: fs_Create_def usable_def fm_has_def l j)
  moreover have "fs_Delete demo_codec PersistUncertain ''vid_1'' ?s = (Some CommitUncertain, ?s\<lparr>fsUncertain := True, fsDisk := Some ''{}''\<rparr>)"
    by (simp add: fs_Delete_def usable_def persist_def l j e m Let_def)
  ultimately show ?thesis using demo_create[OF m(1)] by (simp add: demo_ops_def)
qed

theorem file_store_refines_memory_witness:
  "\<exists>t s. trace (fs_step demo_codec) demo_ops new_file = (t, s) \<and> length (answered t) = 2 \<and>
     trace (\<lambda>_. js_step) (map (\<lambda>(op, r). ((), op)) (answered t)) NewJobStore = (answered t, fs_view s)"
proof -
  have "NewFileStore demo_codec sorted_list_of_fset ''jobs.json'' FileMissing = Some new_file" by (rule NewFileStore_fresh) simp
  from file_store_refines_memory[OF this demo_named demo_trace] demo_trace show ?thesis
    by (auto simp: answered_def refused_def image_iff simp del: trace.simps)
qed

text \<open>With an empty identifier the stores do differ: a key registered for the job without
identifier is free for the store in memory and taken for the file store.\<close>

lemma empty_identifier_differs:
  fixes k :: string
  assumes "k \<noteq> []" and "\<And>d. jcMarshal cd d \<noteq> None"
  defines "ops \<equiv> [OpCreateJob (zero_VideoJob\<lparr>vjKey := k\<rparr>), OpCreateJob (zero_VideoJob\<lparr>vjID := ''v'', vjKey := k\<rparr>)]"
  shows "map snd (fst (trace (\<lambda>_. js_step) (map (Pair ()) ops) NewJobStore)) = [Wrote None, Wrote None]"
    and "map snd (fst (trace (fs_step cd) (map (Pair PersistOk) ops) new_file)) = [Wrote None, Wrote (Some IdempotencyConflict)]"
proof -
  show "map snd (fst (trace (\<lambda>_. js_step) (map (Pair ()) ops) NewJobStore)) = [Wrote None, Wrote None]"
    using assms(1) by (simp add: ops_def js_Create_def NewJobStore_def zero_VideoJob_def fm_has_def)
  obtain b where "jcMarshal cd (fmupd [] (zero_VideoJob\<lparr>vjKey := k\<rparr>) fmempty, fmupd k [] fmempty) = Some b" using assms(2) by blast
  then show "map snd (fst (trace (fs_step cd) (map (Pair PersistOk) ops) new_file)) = [Wrote None, Wrote (Some IdempotencyConflict)]"
    using assms(1) by (simp add: ops_def fs_Create_def new_file_def usable_def persist_def fm_has_def zero_VideoJob_def Let_def)
qed

text \<open>C18: The file can always be opened again.  After any run the file is accepted, whatever
  order Go visits its jobs in; if no write ended in uncertainty the reopened store holds
  exactly the jobs and keys of the running one, and otherwise exactly those it would hold if
  one more operation of the run had succeeded.  This relies on JSON reading a document back
  when its strings are well-formed UTF-8 and its numbers and states are values of their
  types, and on the operations being given only such values and non-empty identifiers.
\<close>

theorem reopen_restores:
  assumes "reads_back cd" and "all_named ws" and "\<forall>(w, op) \<in> set ws. readable_op op"
    and "trace (fs_step cd) ws new_file = (t, s)" and "map_order iter" and "path \<noteq> []"
  shows "\<exists>s'. NewFileStore cd iter path (stored (fsDisk s)) = Some s' \<and> usable s' = None \<and>
    (if fsUncertain s then \<exists>(w, op) \<in> set ws. fs_view s' = snd (js_step op (fs_view s)) else fs_view s' = fs_view s)"
proof -
  let ?P = "\<lambda>op. op \<in> snd ` set ws"
  have "readable_jobs (fs_view new_file)" by (simp add: readable_jobs_def NewJobStore_def)
  from file_store.trace_keeps[where P = readable_jobs, OF new_file_ok(1) assms(2,4) this]
  have ok: "fs_ok s" "readable_jobs (fs_view s)" using js_step_readable assms(3) by blast+
  note v = file_store.ok_view[OF ok(1)]
  have "disk_ok cd ?P s"
    by (rule trace_disk[OF new_file_ok(1) assms(2) _ new_file_ok(2) assms(4)]) force
  then consider (sure) "\<not> fsUncertain s" "on_disk cd (fsDisk s) (fs_view s)"
    | (fresh) "\<not> fsUncertain s" "fsDisk s = None" "fs_view s = NewJobStore"
    | (unsure) w op where "fsUncertain s" "(w, op) \<in> set ws" "on_disk cd (fsDisk s) (snd (js_step op (fs_view s)))"
    by (auto simp: disk_ok_def simp del: js_step.simps split: if_splits)
  then show ?thesis
  proof cases
    case sure
    then show ?thesis using reopen_on_disk[OF assms(1,5,6) v ok(2) sure(2)] by simp
  next
    case fresh
    then show ?thesis using NewFileStore_fresh[OF assms(6), of cd iter] by (simp add: stored_def)
  next
    case unsure
    have op: "named op" "readable_op op" using assms(2,3) unsure(2) by (auto simp: all_named_def)
    obtain s' where s': "NewFileStore cd iter path (stored (fsDisk s)) = Some s'" "usable s' = None"
      "fs_view s' = snd (js_step op (fs_view s))"
      using reopen_on_disk[OF assms(1,5,6) js_step_ok[OF v op(1)] js_step_readable[OF ok(2) op(2)] unsure(3)] by blast
    then show ?thesis using unsure(1,2) by (intro exI[of _ s']) (simp del: js_step.simps, blast)
  qed
qed

lemma demo_readable: "\<forall>(w, op) \<in> set demo_ops. readable_op op"
proof -
  have "readable_float (Fin 0)" "i64 0 = 0" by (simp_all add: readable_float_def gofl_def fl64_def i64_def)
  then show ?thesis
    by (simp add: demo_ops_def readable_op_def readable_job_def demo_job_def zero_VideoJob_def readable_state_def readable_strings_def)
qed

theorem reopen_restores_witness:
  "\<exists>t s s'. trace (fs_step demo_codec) demo_ops new_file = (t, s) \<and> fsUncertain s \<and>
     NewFileStore demo_codec sorted_list_of_fset ''jobs.json'' (stored (fsDisk s)) = Some s' \<and> usable s' = None"
  using reopen_restores[OF demo_reads_back demo_named demo_readable demo_trace sorted_order.map_order_axioms, of "''jobs.json''"]
    demo_trace
  by (auto simp del: trace.simps js_step.simps)

text \<open>C19: An idempotency key names one job.  After any run of a file store, looking a key up gives a
  job exactly when the key is not empty and that job is stored under its own identifier with that
  key.  The jobs created have non-empty identifiers.
\<close>

theorem one_job_per_key:
  assumes "all_named ws" and "trace (fs_step cd) ws new_file = (t, s)" and "usable s = None"
  shows "fs_GetByIdempotency key s = Inr j \<longleftrightarrow> key \<noteq> [] \<and> vjKey j = key \<and> fs_Get (vjID j) s = Inr j"
proof -
  have "fs_ok s" using file_store.trace_refines[OF new_file_ok(1) assms(1,2)] by blast
  note idx = fs_ok_index[OF this]
  show ?thesis
  proof (cases "fmlookup (fsIdem s) key")
    case None
    then have "key = [] \<or> vjKey j \<noteq> key \<or> fmlookup (fsJobs s) (vjID j) \<noteq> Some j" using index_key[OF idx, of key "vjID j"] by auto
    moreover have "fmlookup (fsJobs s) [] = None" using index_job[OF idx, of "[]"] by (cases "fmlookup (fsJobs s) []") auto
    ultimately show ?thesis
      using None assms(3) by (auto simp: fs_GetByIdempotency_def fs_Get_def fm_get_def split: option.splits)
  next
    case (Some i)
    obtain x where x: "key \<noteq> []" "fmlookup (fsJobs s) i = Some x" "vjKey x = key" using Some index_key[OF idx] by blast
    have "vjID x = i" using index_job[OF idx x(2)] by simp
    moreover have "vjID j = i" if "fmlookup (fsJobs s) (vjID j) = Some j" "vjKey j = key"
      using index_key[OF idx, of key "vjID j"] that x(1) Some by auto
    ultimately show ?thesis
      using Some x assms(3) by (auto simp: fs_GetByIdempotency_def fs_Get_def fm_get_def split: option.splits)
  qed
qed

definition any_codec :: job_codec where
  "any_codec = \<lparr>jcMarshal = (\<lambda>_. Some ''doc''), jcUnmarshal = (\<lambda>_. None)\<rparr>"

definition demo_file :: "VideoJob \<Rightarrow> FileStore" where
  "demo_file j = \<lparr>fsJobs = fmupd ''vid_1'' j fmempty, fsIdem = fmupd ''order-7'' ''vid_1'' fmempty, fsClosed = False,
      fsUncertain = False, fsDisk = Some ''doc''\<rparr>"

lemma demo_file_ok: "vjID j = ''vid_1'' \<Longrightarrow> vjKey j = ''order-7'' \<Longrightarrow> fs_ok (demo_file j)"
  using index_add[of fmempty fmempty j] by (simp add: demo_file_def fs_ok_def)

lemma demo_claim:
  "claimable j owner now \<Longrightarrow> fs_step any_codec PersistOk (OpClaimJob ''vid_1'' owner ttl now) (demo_file j) =
    (Claimed (Inr (Some (leased owner (Add now ttl) j))), demo_file (leased owner (Add now ttl) j))"
  by (simp add: demo_file_def fs_TryClaim_def usable_def persist_def any_codec_def Let_def)

theorem one_job_per_key_witness:
  "\<exists>t s. trace (fs_step any_codec) [(PersistOk, OpCreateJob demo_job)] new_file = (t, s) \<and> fs_GetByIdempotency ''order-7'' s = Inr demo_job"
proof -
  have t: "trace (fs_step any_codec) [(PersistOk, OpCreateJob demo_job)] new_file = ([(OpCreateJob demo_job, Wrote None)], demo_file demo_job)"
    by (simp add: new_file_def demo_file_def demo_job_def fs_Create_def usable_def persist_def any_codec_def fm_has_def Let_def)
  have "all_named [(PersistOk, OpCreateJob demo_job)]" by (simp add: named_def demo_job_def)
  from one_job_per_key[OF this t, of "''order-7''" demo_job] t show ?thesis
    by (auto simp: usable_def fs_Get_def demo_file_def demo_job_def)
qed

text \<open>C20: A live lease has one holder.  Once the claim of a job by a worker with a non-empty name has
  been granted, and while every later operation creates only jobs with a non-empty identifier,
  leaves the job in place, writes it only with that lease or a longer one, and claims it only
  before the lease ends, nobody else's claim of that job is granted before the lease ends.
\<close>

theorem single_lease_winner:
  assumes "fs_ok s" and "fs_step cd w (OpClaimJob i A ttl now) s = (Claimed (Inr (Some j)), s1)" and "A \<noteq> []"
    and "all_named ws" and "trace (fs_step cd) ws s1 = (t, s2)" and "\<forall>(w, op) \<in> set ws. keeps_lease i A (Add now ttl) op"
    and "B \<noteq> A" and "now' < Add now ttl"
  shows "fst (fs_step cd w' (OpClaimJob i B ttl' now') s2) \<noteq> Claimed (Inr (Some j'))"
  using file_store.lease_excludes[OF assms] .

theorem single_lease_winner_witness:
  "\<exists>t s2. trace (fs_step any_codec) [(PersistOk, OpClaimJob ''vid_1'' ''w1'' 60 110)] (demo_file (leased ''w1'' 150 demo_job)) = (t, s2) \<and>
     fst (fs_step any_codec PersistOk (OpClaimJob ''vid_1'' ''w2'' 50 140) s2) \<noteq> Claimed (Inr (Some demo_job))"
proof -
  let ?ws = "[(PersistOk, OpClaimJob ''vid_1'' ''w1'' 60 110)]"
  have c: "claimable demo_job ''w1'' 100" "claimable (leased ''w1'' 150 demo_job) ''w1'' 110"
    by (simp_all add: claimable_def demo_job_def zero_VideoJob_def leased_def)
  have ok: "fs_ok (demo_file demo_job)" by (rule demo_file_ok) (simp_all add: demo_job_def)
  have add: "Add 100 50 = 150" "Add 110 60 = 170" by (simp_all add: Add_def)
  have claim: "fs_step any_codec PersistOk (OpClaimJob ''vid_1'' ''w1'' 50 100) (demo_file demo_job) =
      (Claimed (Inr (Some (leased ''w1'' 150 demo_job))), demo_file (leased ''w1'' 150 demo_job))"
    using demo_claim[OF c(1), of 50] by (simp add: add)
  have renew: "trace (fs_step any_codec) ?ws (demo_file (leased ''w1'' 150 demo_job)) =
      ([(OpClaimJob ''vid_1'' ''w1'' 60 110, Claimed (Inr (Some (leased ''w1'' 170 demo_job))))], demo_file (leased ''w1'' 170 demo_job))"
    using demo_claim[OF c(2), of 60] by (simp add: add del: fs_step.simps)
  have "fst (fs_step any_codec PersistOk (OpClaimJob ''vid_1'' ''w2'' 50 140) (demo_file (leased ''w1'' 170 demo_job))) \<noteq> Claimed (Inr (Some demo_job))"
    by (rule single_lease_winner[OF ok claim _ _ renew]) (simp_all add: named_def keeps_lease_def add)
  with renew show ?thesis by (simp del: trace.simps fs_step.simps)
qed

text \<open>C21: Finished jobs stay finished.  Once a job is terminal, any run that does not delete
  it, and creates only jobs with a non-empty identifier, leaves it as it was in everything but
  its lease.
\<close>

theorem terminal_job_frozen:
  assumes "fs_ok s" and "fmlookup (fsJobs s) i = Some j" and "IsTerminal j"
    and "all_named ws" and "\<forall>(w, op) \<in> set ws. op \<noteq> OpDeleteJob i" and "trace (fs_step cd) ws s = (t, s')"
  shows "\<exists>owner until. fmlookup (fsJobs s') i = Some (leased owner until j)"
proof -
  have "j = leased (vjLeaseOwner j) (vjLeaseUntil j) j" by (simp add: leased_def)
  then have "frozen i j (fs_view s)" using assms(2) unfolding frozen_def fs_view_def by (metis JobStore.select_convs(1))
  from file_store.trace_keeps[where P = "frozen i j", OF assms(1,4,6) this] have "frozen i j (fs_view s')"
    using js_step_frozen[OF _ _ assms(3)] assms(5) by blast
  then show ?thesis by (simp add: frozen_def fs_view_def)
qed

theorem terminal_job_frozen_witness:
  "\<exists>t s' owner until. trace (fs_step any_codec) [(PersistOk, OpUpdateJob demo_job)] (demo_file (demo_job\<lparr>vjState := StateCompleted\<rparr>)) = (t, s') \<and>
     fmlookup (fsJobs s') ''vid_1'' = Some (leased owner until (demo_job\<lparr>vjState := StateCompleted\<rparr>))"
proof -
  let ?j = "demo_job\<lparr>vjState := StateCompleted\<rparr>" and ?ws = "[(PersistOk, OpUpdateJob demo_job)]"
  obtain t s' where t: "trace (fs_step any_codec) ?ws (demo_file ?j) = (t, s')" by fastforce
  have "fs_ok (demo_file ?j)" by (rule demo_file_ok) (simp_all add: demo_job_def)
  moreover have "fmlookup (fsJobs (demo_file ?j)) ''vid_1'' = Some ?j" by (simp add: demo_file_def)
  moreover have "IsTerminal ?j" by (simp add: IsTerminal_def IsTerminalState_def)
  ultimately have "\<exists>owner until. fmlookup (fsJobs s') ''vid_1'' = Some (leased owner until ?j)"
    by (rule terminal_job_frozen[OF _ _ _ _ _ t]) (simp_all add: named_def)
  with t show ?thesis by blast
qed

section \<open>The queue\<close>






end
