(* ===== verification/VideoCost.thy ===== *)
theory VideoCost
  imports Float64 Hashes
begin

text \<open>
  The cost book and the cost ledger of the video jobs (\<^verbatim>\<open>src/internal/video/cost/ledger.go\<close>):
  reservations by job, settlement of an actual or an estimated amount, and the totals.  Amounts
  are \<open>float64\<close> values; the totals are kept by floating-point additions and subtractions, so
  their exactness is a theorem with a condition on the amounts.  The breakdown map of an estimate,
  which this code only carries along, is left out, and the state of a record made up for an
  unknown job is overwritten before it is stored.
\<close>

section \<open>Estimates and prices\<close>

record CostEstimate =
  vcProvider :: string
  vcModel :: string
  vcCurrency :: string
  vcEstimated :: gofloat
  vcUpper :: gofloat
  vcKnown :: bool
  vcSeconds :: gofloat

definition zero_CostEstimate :: CostEstimate where
  "zero_CostEstimate = \<lparr>vcProvider = [], vcModel = [], vcCurrency = [], vcEstimated = Fin 0, vcUpper = Fin 0,
     vcKnown = False, vcSeconds = Fin 0\<rparr>"

record VideoPrice =
  vpPerSecond :: gofloat
  vpFixed :: gofloat
  vpKnown :: bool

datatype cost_error = BudgetExceeded | UnknownPrice | InvalidEstimate | JobIDRequired
  | AlreadyFinalized string | ConflictingSettlement string

type_synonym VideoBook = "(string, VideoPrice) fmap"

definition vb_Set :: "string \<Rightarrow> string \<Rightarrow> VideoPrice \<Rightarrow> VideoBook \<Rightarrow> VideoBook" where
  "vb_Set provider model p b = fmupd (provider @ ''/'' @ model) p b"

definition bad_amount :: "gofloat \<Rightarrow> bool" where
  "bad_amount x \<longleftrightarrow> glt x (Fin 0) \<or> IsNaN x \<or> IsInf x"

definition vb_Estimate :: "string \<Rightarrow> string \<Rightarrow> gofloat \<Rightarrow> VideoBook \<Rightarrow> CostEstimate \<times> cost_error option" where
  "vb_Estimate provider model seconds b =
     (case fmlookup b (provider @ ''/'' @ model) of
        None \<Rightarrow> (zero_CostEstimate\<lparr>vcProvider := provider, vcModel := model\<rparr>, Some UnknownPrice)
      | Some p \<Rightarrow>
          if \<not> vpKnown p then (zero_CostEstimate\<lparr>vcProvider := provider, vcModel := model\<rparr>, Some UnknownPrice)
          else if bad_amount (vpPerSecond p) \<or> bad_amount (vpFixed p) then (zero_CostEstimate, Some InvalidEstimate)
          else let v = gadd (vpFixed p) (gmul (vpPerSecond p) seconds)
               in if IsNaN v \<or> IsInf v then (zero_CostEstimate, Some InvalidEstimate)
                  else (\<lparr>vcProvider = provider, vcModel = model, vcCurrency = ''USD'', vcEstimated = v, vcUpper = v,
                          vcKnown = True, vcSeconds = seconds\<rparr>, None))"

section \<open>The ledger\<close>

datatype reservationState = ReservedState | ActualSettledState | EstimateSettledState | ReleasedState

record reservation =
  rvEstimate :: CostEstimate
  rvState :: reservationState
  rvActual :: gofloat

record CostLedger =
  clSpent :: gofloat
  clEstimatedSpent :: gofloat
  clReserved :: gofloat
  clEntries :: "CostEstimate list"
  clByJob :: "(string, reservation) fmap"
  clLegacySeq :: "64 word"

definition zero_CostLedger :: CostLedger where
  "zero_CostLedger = \<lparr>clSpent = Fin 0, clEstimatedSpent = Fin 0, clReserved = Fin 0, clEntries = [], clByJob = fmempty, clLegacySeq = 0\<rparr>"

definition validEstimate :: "CostEstimate \<Rightarrow> bool" where
  "validEstimate e \<longleftrightarrow>
     vcKnown e \<and> gle (Fin 0) (vcEstimated e) \<and> gle (vcEstimated e) (vcUpper e) \<and> gle (Fin 0) (vcUpper e) \<and>
     \<not> IsNaN (vcEstimated e) \<and> \<not> IsInf (vcEstimated e) \<and> \<not> IsNaN (vcUpper e) \<and> \<not> IsInf (vcUpper e)"

definition ReserveForJob :: "string \<Rightarrow> CostEstimate \<Rightarrow> gofloat \<Rightarrow> CostLedger \<Rightarrow> cost_error option \<times> CostLedger" where
  "ReserveForJob job e mx l =
     (if job = [] then (Some JobIDRequired, l)
      else if \<not> validEstimate e then (Some (if \<not> vcKnown e then UnknownPrice else InvalidEstimate), l)
      else if glt mx (Fin 0) \<or> IsNaN mx \<or> IsInf mx then (Some InvalidEstimate, l)
      else if glt (Fin 0) mx \<and> glt mx (vcUpper e) then (Some BudgetExceeded, l)
      else case fmlookup (clByJob l) job of
        Some old \<Rightarrow> ((if rvState old = ReservedState then None else Some (AlreadyFinalized job)), l)
      | None \<Rightarrow> (None, l\<lparr>clByJob := fmupd job \<lparr>rvEstimate = e, rvState = ReservedState, rvActual = Fin 0\<rparr> (clByJob l),
                         clReserved := gadd (clReserved l) (vcUpper e),
                         clEntries := clEntries l @ [e]\<rparr>))"

definition legacy_id :: "64 word \<Rightarrow> string" where
  "legacy_id n = ''legacy-'' @ FormatUint n"

definition cl_Reserve :: "CostEstimate \<Rightarrow> gofloat \<Rightarrow> CostLedger \<Rightarrow> cost_error option \<times> CostLedger" where
  "cl_Reserve e mx l =
     (let l1 = l\<lparr>clLegacySeq := clLegacySeq l + 1\<rparr>
      in ReserveForJob (legacy_id (clLegacySeq l1)) e mx l1)"

text \<open>A subtraction that stops at zero.\<close>

definition take_off :: "gofloat \<Rightarrow> gofloat \<Rightarrow> gofloat" where
  "take_off x y = (let d = gsub x y in if glt d (Fin 0) then Fin 0 else d)"

definition ReleaseForJob :: "string \<Rightarrow> CostLedger \<Rightarrow> CostLedger" where
  "ReleaseForJob job l =
     (case fmlookup (clByJob l) job of
        None \<Rightarrow> l
      | Some r \<Rightarrow>
          if rvState r \<noteq> ReservedState then l
          else l\<lparr>clReserved := take_off (clReserved l) (vcUpper (rvEstimate r)),
                 clByJob := fmupd job (r\<lparr>rvState := ReleasedState\<rparr>) (clByJob l)\<rparr>)"

definition fallback_estimate :: "gofloat \<Rightarrow> reservation" where
  "fallback_estimate x = \<lparr>rvEstimate = zero_CostEstimate\<lparr>vcEstimated := x, vcUpper := x, vcKnown := True\<rparr>,
     rvState = ReleasedState, rvActual = Fin 0\<rparr>"

definition charge :: "string \<Rightarrow> gofloat \<Rightarrow> gofloat \<Rightarrow> reservation \<Rightarrow> CostLedger \<Rightarrow> CostLedger" where
  "charge job actual fallback r l =
     (let e = rvEstimate r;
          e' = (if vcEstimated e = Fin 0 then e\<lparr>vcEstimated := fallback\<rparr> else e)
      in l\<lparr>clSpent := gadd (clSpent l) actual,
           clByJob := fmupd job \<lparr>rvEstimate = e', rvState = ActualSettledState, rvActual = actual\<rparr> (clByJob l)\<rparr>)"

definition SettleActual :: "string \<Rightarrow> gofloat \<Rightarrow> gofloat \<Rightarrow> CostLedger \<Rightarrow> cost_error option \<times> CostLedger" where
  "SettleActual job actual fallback l =
     (if job = [] \<or> bad_amount actual \<or> bad_amount fallback then (Some InvalidEstimate, l)
      else case fmlookup (clByJob l) job of
        None \<Rightarrow> (None, charge job actual fallback (fallback_estimate fallback) l)
      | Some r \<Rightarrow>
          (case rvState r of
             ActualSettledState \<Rightarrow> ((if rvActual r = actual then None else Some (ConflictingSettlement job)), l)
           | EstimateSettledState \<Rightarrow>
               (None, charge job actual fallback r (l\<lparr>clEstimatedSpent := take_off (clEstimatedSpent l) (vcEstimated (rvEstimate r))\<rparr>))
           | ReservedState \<Rightarrow>
               (None, charge job actual fallback r (l\<lparr>clReserved := take_off (clReserved l) (vcUpper (rvEstimate r))\<rparr>))
           | ReleasedState \<Rightarrow> (None, charge job actual fallback r l)))"

definition charge_estimate :: "string \<Rightarrow> gofloat \<Rightarrow> reservation \<Rightarrow> CostLedger \<Rightarrow> CostLedger" where
  "charge_estimate job estimate r l =
     l\<lparr>clByJob := fmupd job (r\<lparr>rvState := EstimateSettledState, rvEstimate := (rvEstimate r)\<lparr>vcEstimated := estimate\<rparr>\<rparr>) (clByJob l),
       clEstimatedSpent := gadd (clEstimatedSpent l) estimate\<rparr>"

definition SettleEstimate :: "string \<Rightarrow> gofloat \<Rightarrow> CostLedger \<Rightarrow> cost_error option \<times> CostLedger" where
  "SettleEstimate job estimate l =
     (if job = [] \<or> bad_amount estimate then (Some InvalidEstimate, l)
      else case fmlookup (clByJob l) job of
        None \<Rightarrow> (None, charge_estimate job estimate (fallback_estimate estimate) l)
      | Some r \<Rightarrow>
          (case rvState r of
             ReservedState \<Rightarrow>
               (None, charge_estimate job estimate r (l\<lparr>clReserved := take_off (clReserved l) (vcUpper (rvEstimate r))\<rparr>))
           | ReleasedState \<Rightarrow> (None, charge_estimate job estimate r l)
           | _ \<Rightarrow> (None, l)))"

text \<open>Estimate, actual amount, difference, whether the two were reconciled, and whether the job is known.\<close>

definition Reconciliation :: "string \<Rightarrow> CostLedger \<Rightarrow> gofloat \<times> gofloat \<times> gofloat \<times> bool \<times> bool" where
  "Reconciliation job l =
     (case fmlookup (clByJob l) job of
        None \<Rightarrow> (Fin 0, Fin 0, Fin 0, False, False)
      | Some r \<Rightarrow>
          let est0 = vcEstimated (rvEstimate r);
              estimateValid = (\<not> IsNaN est0 \<and> \<not> IsInf est0 \<and> gle (Fin 0) est0);
              est = (if estimateValid then est0 else Fin 0);
              act0 = rvActual r;
              actualValid = (\<not> IsNaN act0 \<and> \<not> IsInf act0 \<and> gle (Fin 0) act0);
              act = (if actualValid then act0 else Fin 0)
          in if rvState r = ActualSettledState then
               (if \<not> estimateValid \<or> \<not> actualValid then (est, act, Fin 0, False, True)
                else (est, act, gsub act est, True, True))
             else (est, Fin 0, Fin 0, False, True))"

section \<open>Runs\<close>

datatype cost_op = CostReserve string CostEstimate gofloat | CostReserveLegacy CostEstimate gofloat
  | CostRelease string | CostSettle string gofloat gofloat | CostSettleEstimate string gofloat

fun cost_step :: "cost_op \<Rightarrow> CostLedger \<Rightarrow> CostLedger" where
  "cost_step (CostReserve job e mx) l = snd (ReserveForJob job e mx l)"
| "cost_step (CostReserveLegacy e mx) l = snd (cl_Reserve e mx l)"
| "cost_step (CostRelease job) l = ReleaseForJob job l"
| "cost_step (CostSettle job actual fallback) l = snd (SettleActual job actual fallback l)"
| "cost_step (CostSettleEstimate job estimate) l = snd (SettleEstimate job estimate l)"

definition cost_run :: "cost_op list \<Rightarrow> CostLedger \<Rightarrow> CostLedger" where
  "cost_run ops l = fold cost_step ops l"

lemma cost_run_simps [simp]: "cost_run [] l = l" "cost_run (op # ops) l = cost_run ops (cost_step op l)"
  by (simp_all add: cost_run_def)

section \<open>What an operation changes\<close>

text \<open>The amount a record stands for, and the total it is part of.\<close>

definition value_of :: "reservation \<Rightarrow> gofloat" where
  "value_of r = (case rvState r of
     ReservedState \<Rightarrow> vcUpper (rvEstimate r) | ActualSettledState \<Rightarrow> rvActual r
   | EstimateSettledState \<Rightarrow> vcEstimated (rvEstimate r) | ReleasedState \<Rightarrow> Fin 0)"

definition cost_total :: "reservationState \<Rightarrow> CostLedger \<Rightarrow> gofloat" where
  "cost_total p l = (case p of ReservedState \<Rightarrow> clReserved l | ActualSettledState \<Rightarrow> clSpent l
     | EstimateSettledState \<Rightarrow> clEstimatedSpent l | ReleasedState \<Rightarrow> Fin 0)"

lemma cost_total_simps [simp]:
  "cost_total ReservedState l = clReserved l" "cost_total ActualSettledState l = clSpent l"
  "cost_total EstimateSettledState l = clEstimatedSpent l" "cost_total ReleasedState l = Fin 0"
  by (simp_all add: cost_total_def)

definition amount_of :: "cost_op \<Rightarrow> gofloat" where
  "amount_of op = (case op of CostReserve job e mx \<Rightarrow> vcUpper e | CostReserveLegacy e mx \<Rightarrow> vcUpper e
     | CostRelease job \<Rightarrow> Fin 0 | CostSettle job actual fallback \<Rightarrow> actual | CostSettleEstimate job estimate \<Rightarrow> estimate)"

definition in_state :: "reservationState \<Rightarrow> reservation option \<Rightarrow> bool" where
  "in_state p r \<longleftrightarrow> (case r of None \<Rightarrow> False | Some x \<Rightarrow> rvState x = p)"

lemma in_state_simps [simp]: "\<not> in_state p None" "in_state p (Some r) \<longleftrightarrow> rvState r = p"
  by (simp_all add: in_state_def)

definition same_accounts :: "CostLedger \<Rightarrow> CostLedger \<Rightarrow> bool" where
  "same_accounts l l' \<longleftrightarrow> clByJob l' = clByJob l \<and> (\<forall>p. cost_total p l' = cost_total p l)"

text \<open>The record of one job is replaced: it leaves the total of its old state and enters that of the new one.\<close>

definition moved :: "string \<Rightarrow> reservation \<Rightarrow> CostLedger \<Rightarrow> CostLedger \<Rightarrow> bool" where
  "moved job r l l' \<longleftrightarrow>
     \<not> in_state ActualSettledState (fmlookup (clByJob l) job) \<and> clByJob l' = fmupd job r (clByJob l) \<and>
     (\<forall>p. p \<noteq> ReleasedState \<longrightarrow> cost_total p l' =
        (let t = (case fmlookup (clByJob l) job of
                    None \<Rightarrow> cost_total p l
                  | Some old \<Rightarrow> if rvState old = p then take_off (cost_total p l) (value_of old) else cost_total p l)
         in if rvState r = p then gadd t (value_of r) else t))"

lemma all_states: "(\<forall>p. p \<noteq> ReleasedState \<longrightarrow> P p) \<longleftrightarrow> P ReservedState \<and> P ActualSettledState \<and> P EstimateSettledState"
  by (metis reservationState.distinct(5) reservationState.distinct(9) reservationState.distinct(11) reservationState.exhaust)

lemma good_amount: "\<not> bad_amount x \<Longrightarrow> \<exists>a \<ge> 0. x = Fin a"
  by (cases x) (auto simp: bad_amount_def IsNaN_def IsInf_def)

lemma good_estimate: "validEstimate e \<Longrightarrow> \<not> bad_amount (vcUpper e)"
  by (cases "vcUpper e") (auto simp: validEstimate_def bad_amount_def IsNaN_def IsInf_def)

definition changes :: "gofloat \<Rightarrow> CostLedger \<Rightarrow> CostLedger \<Rightarrow> bool" where
  "changes x l l' \<longleftrightarrow> same_accounts l l' \<or>
     (\<exists>job r. moved job r l l' \<and> (rvState r \<noteq> ReleasedState \<longrightarrow> value_of r = x \<and> \<not> bad_amount x))"

lemma same_changes: "same_accounts l l' \<Longrightarrow> changes x l l'"
  by (simp add: changes_def)

lemma moved_changes: "moved job r l l' \<Longrightarrow> rvState r = ReleasedState \<or> value_of r = x \<and> \<not> bad_amount x \<Longrightarrow> changes x l l'"
  by (auto simp: changes_def)

lemma Reserve_changes: "changes (vcUpper e) l (snd (ReserveForJob job e mx l))"
proof (cases "validEstimate e \<and> fmlookup (clByJob l) job = None \<and> snd (ReserveForJob job e mx l) \<noteq> l")
  case True
  then have r: "snd (ReserveForJob job e mx l) =
      l\<lparr>clByJob := fmupd job \<lparr>rvEstimate = e, rvState = ReservedState, rvActual = Fin 0\<rparr> (clByJob l),
        clReserved := gadd (clReserved l) (vcUpper e), clEntries := clEntries l @ [e]\<rparr>"
    by (auto simp: ReserveForJob_def split: if_splits option.splits)
  show ?thesis
    unfolding r
    by (rule moved_changes[of job "\<lparr>rvEstimate = e, rvState = ReservedState, rvActual = Fin 0\<rparr>"])
      (use True good_estimate[of e] in \<open>simp_all add: moved_def all_states value_of_def\<close>)
next
  case False
  then have "snd (ReserveForJob job e mx l) = l"
    by (auto simp: ReserveForJob_def split: if_splits option.splits)
  then show ?thesis by (simp add: same_changes same_accounts_def)
qed

lemma changes_cong:
  assumes "clByJob l0 = clByJob l" and "\<And>p. cost_total p l0 = cost_total p l"
  shows "changes x l0 l' \<longleftrightarrow> changes x l l'"
  by (simp only: changes_def same_accounts_def moved_def assms)

lemma legacy_changes: "changes (vcUpper e) l (snd (cl_Reserve e mx l))"
proof -
  let ?l = "l\<lparr>clLegacySeq := clLegacySeq l + 1\<rparr>"
  have "changes x ?l l' \<longleftrightarrow> changes x l l'" for x l'
    by (rule changes_cong) (simp_all add: cost_total_def split: reservationState.split)
  then show ?thesis
    using Reserve_changes[of e ?l "legacy_id (clLegacySeq ?l)" mx] unfolding cl_Reserve_def Let_def by blast
qed

lemma Release_changes: "changes (Fin 0) l (ReleaseForJob job l)"
proof (cases "fmlookup (clByJob l) job")
  case (Some r)
  show ?thesis
  proof (cases "rvState r = ReservedState")
    case True
    then show ?thesis
      by (intro moved_changes[of job "r\<lparr>rvState := ReleasedState\<rparr>"])
        (simp_all add: Some ReleaseForJob_def moved_def all_states value_of_def)
  qed (simp add: Some ReleaseForJob_def same_changes same_accounts_def)
qed (simp add: ReleaseForJob_def same_changes same_accounts_def)

lemma Settle_changes: "changes actual l (snd (SettleActual job actual fallback l))"
proof (cases "job = [] \<or> bad_amount actual \<or> bad_amount fallback \<or> in_state ActualSettledState (fmlookup (clByJob l) job)")
  case True
  then have "snd (SettleActual job actual fallback l) = l" by (auto simp: SettleActual_def split: option.splits)
  then show ?thesis by (simp add: same_changes same_accounts_def)
next
  case False
  let ?old = "case fmlookup (clByJob l) job of None \<Rightarrow> fallback_estimate fallback | Some r \<Rightarrow> r"
  let ?e = "if vcEstimated (rvEstimate ?old) = Fin 0 then (rvEstimate ?old)\<lparr>vcEstimated := fallback\<rparr> else rvEstimate ?old"
  show ?thesis
    by (rule moved_changes[of job "\<lparr>rvEstimate = ?e, rvState = ActualSettledState, rvActual = actual\<rparr>"])
      (use False in \<open>auto simp: SettleActual_def charge_def Let_def moved_def all_states value_of_def
        split: option.splits reservationState.splits\<close>)
qed

lemma SettleEstimate_changes: "changes estimate l (snd (SettleEstimate job estimate l))"
proof (cases "job = [] \<or> bad_amount estimate \<or> in_state ActualSettledState (fmlookup (clByJob l) job) \<or>
    in_state EstimateSettledState (fmlookup (clByJob l) job)")
  case True
  then have "snd (SettleEstimate job estimate l) = l" by (auto simp: SettleEstimate_def split: option.splits)
  then show ?thesis by (simp add: same_changes same_accounts_def)
next
  case False
  let ?old = "case fmlookup (clByJob l) job of None \<Rightarrow> fallback_estimate estimate | Some r \<Rightarrow> r"
  show ?thesis
    by (rule moved_changes[of job "?old\<lparr>rvState := EstimateSettledState, rvEstimate := (rvEstimate ?old)\<lparr>vcEstimated := estimate\<rparr>\<rparr>"])
      (use False in \<open>auto simp: SettleEstimate_def charge_estimate_def Let_def moved_def all_states value_of_def
        split: option.splits reservationState.splits\<close>)
qed

lemma cost_step_changes: "changes (amount_of op) l (cost_step op l)"
  by (cases op)
    (simp_all add: amount_of_def Reserve_changes legacy_changes Release_changes Settle_changes SettleEstimate_changes)

section \<open>Every job is charged once\<close>

text \<open>The actual amount the ledger has on record for a job.\<close>

definition settled_as :: "CostLedger \<Rightarrow> string \<Rightarrow> gofloat option" where
  "settled_as l job = (case fmlookup (clByJob l) job of
     None \<Rightarrow> None | Some r \<Rightarrow> if rvState r = ActualSettledState then Some (rvActual r) else None)"

text \<open>
  What should be charged, read off the calls alone: the first well-formed settlement of each job,
  in the order of the calls.
\<close>

definition note_settlement :: "cost_op \<Rightarrow> (string \<times> gofloat) list \<Rightarrow> (string \<times> gofloat) list" where
  "note_settlement op xs = (case op of
     CostSettle job actual fallback \<Rightarrow>
       (if job = [] \<or> bad_amount actual \<or> bad_amount fallback \<or> job \<in> fst ` set xs then xs
        else xs @ [(job, actual)])
   | _ \<Rightarrow> xs)"

definition settlement_log :: "cost_op list \<Rightarrow> (string \<times> gofloat) list" where
  "settlement_log ops = fold note_settlement ops []"

definition charged :: "(string \<times> gofloat) list \<Rightarrow> CostLedger \<Rightarrow> bool" where
  "charged xs l \<longleftrightarrow> distinct (map fst xs) \<and> map_of xs = settled_as l \<and>
     clSpent l = foldl gadd (Fin 0) (map snd xs)"

lemma charged_same:
  "charged xs l \<Longrightarrow> clSpent l' = clSpent l \<Longrightarrow> settled_as l' = settled_as l \<Longrightarrow> charged xs l'"
  by (simp add: charged_def)

lemma Reserve_settled: "settled_as (snd (ReserveForJob job e mx l)) = settled_as l" "clSpent (snd (ReserveForJob job e mx l)) = clSpent l"
  by (auto simp: ReserveForJob_def settled_as_def fun_eq_iff split: option.split)

lemma legacy_settled: "settled_as (snd (cl_Reserve e mx l)) = settled_as l" "clSpent (snd (cl_Reserve e mx l)) = clSpent l"
  by (simp_all add: cl_Reserve_def Let_def Reserve_settled, simp add: settled_as_def fun_eq_iff)

lemma Release_settled: "settled_as (ReleaseForJob job l) = settled_as l" "clSpent (ReleaseForJob job l) = clSpent l"
  by (auto simp: ReleaseForJob_def settled_as_def fun_eq_iff split: option.split)

lemma SettleEstimate_settled:
  "settled_as (snd (SettleEstimate job x l)) = settled_as l" "clSpent (snd (SettleEstimate job x l)) = clSpent l"
  by (auto simp: SettleEstimate_def charge_estimate_def settled_as_def fun_eq_iff split: option.split reservationState.split)

lemma Settle_settled:
  assumes "job \<noteq> []" and "\<not> bad_amount actual" and "\<not> bad_amount fallback" and "settled_as l job = None"
  shows "settled_as (snd (SettleActual job actual fallback l)) = (settled_as l)(job \<mapsto> actual)"
    and "clSpent (snd (SettleActual job actual fallback l)) = gadd (clSpent l) actual"
  using assms by (auto simp: SettleActual_def charge_def settled_as_def fun_eq_iff Let_def
      split: option.splits reservationState.split)

lemma Settle_refused:
  assumes "job = [] \<or> bad_amount actual \<or> bad_amount fallback \<or> settled_as l job \<noteq> None"
  shows "snd (SettleActual job actual fallback l) = l"
  using assms by (auto simp: SettleActual_def settled_as_def split: option.splits if_splits)

lemma charged_step:
  assumes "charged xs l"
  shows "charged (note_settlement op xs) (cost_step op l)"
proof (cases op)
  case (CostSettle job actual fallback)
  have known: "job \<in> fst ` set xs \<longleftrightarrow> settled_as l job \<noteq> None"
    using assms unfolding charged_def by (metis map_of_eq_None_iff)
  show ?thesis
  proof (cases "job = [] \<or> bad_amount actual \<or> bad_amount fallback \<or> settled_as l job \<noteq> None")
    case True
    then show ?thesis using assms known Settle_refused[OF True] by (auto simp: CostSettle note_settlement_def)
  next
    case False
    then have lg: "note_settlement op xs = xs @ [(job, actual)]" and new: "job \<notin> set (map fst xs)"
      using known by (auto simp: CostSettle note_settlement_def)
    from new have "map_of xs job = None" by (simp add: map_of_eq_None_iff)
    then have "map_of (xs @ [(job, actual)]) = (map_of xs)(job \<mapsto> actual)"
      by (auto simp: fun_eq_iff map_add_def split: option.split)
    then show ?thesis
      using assms False new Settle_settled[of job actual fallback l] by (simp add: CostSettle lg[unfolded CostSettle] charged_def)
  qed
qed (use assms in \<open>auto simp: note_settlement_def charged_def Reserve_settled legacy_settled Release_settled SettleEstimate_settled\<close>)

lemma charged_run: "charged xs l \<Longrightarrow> charged (fold note_settlement ops xs) (cost_run ops l)"
  by (induction ops arbitrary: xs l) (simp_all add: charged_step)

text \<open>The totals are numbers and at least zero.\<close>

definition sound_totals :: "CostLedger \<Rightarrow> bool" where
  "sound_totals l \<longleftrightarrow> (\<forall>p. gnonneg (cost_total p l)) \<and>
     (\<forall>job r. fmlookup (clByJob l) job = Some r \<and> rvState r \<noteq> ReleasedState \<longrightarrow> \<not> bad_amount (value_of r))"

lemma take_off_nonneg: "gnonneg x \<Longrightarrow> \<not> bad_amount y \<Longrightarrow> gnonneg (take_off x y)"
proof -
  assume "gnonneg x" "\<not> bad_amount y"
  then obtain b where y: "y = Fin b" using good_amount by blast
  show ?thesis
  proof (cases "gsub x y")
    case NaN
    then show ?thesis using \<open>gnonneg x\<close> by (cases x) (auto simp: y gsub_def gofl_def Let_def split: if_splits)
  qed (auto simp: take_off_def Let_def not_less)
qed

lemma bad_amount_nonneg: "\<not> bad_amount x \<Longrightarrow> gnonneg x"
  using good_amount by fastforce

lemma changes_sound:
  assumes "sound_totals l" and "changes x l l'"
  shows "sound_totals l'"
proof -
  consider (same) "same_accounts l l'"
    | (moved) job r where "moved job r l l'" "rvState r \<noteq> ReleasedState \<longrightarrow> \<not> bad_amount (value_of r)"
    using assms(2) by (auto simp: changes_def)
  then show ?thesis
  proof cases
    case same
    then show ?thesis using assms(1) by (auto simp: same_accounts_def sound_totals_def)
  next
    case moved
    have "gnonneg (cost_total p l')" for p
    proof (cases "p = ReleasedState")
      case False
      let ?t = "case fmlookup (clByJob l) job of None \<Rightarrow> cost_total p l
          | Some old \<Rightarrow> if rvState old = p then take_off (cost_total p l) (value_of old) else cost_total p l"
      have "gnonneg ?t"
        using assms(1) False take_off_nonneg by (auto simp: sound_totals_def split: option.split)
      moreover have "cost_total p l' = (if rvState r = p then gadd ?t (value_of r) else ?t)"
        using moved(1) False unfolding moved_def Let_def by blast
      ultimately show ?thesis using moved(2) False by (auto intro: gadd_nonneg bad_amount_nonneg)
    qed simp
    then show ?thesis
      using assms(1) moved by (auto simp: sound_totals_def moved_def split: if_splits)
  qed
qed

lemma cost_run_induct:
  assumes "P l" and "\<And>l op. P l \<Longrightarrow> P (cost_step op l)"
  shows "P (cost_run ops l)"
  using assms by (induction ops arbitrary: l) simp_all

text \<open>C23: Every video job is charged exactly once.  After any sequence of reservations, releases
  and settlements, the money spent is the floating-point sum, in the order of the calls, of the
  amounts of the first well-formed settlement of each job, whatever later calls said; the ledger
  has exactly these jobs on record as settled, each with that amount.  Spent, reserved and
  estimated totals are never negative and never NaN.
\<close>

theorem video_jobs_charged_once:
  "distinct (map fst (settlement_log ops)) \<and>
   clSpent (cost_run ops zero_CostLedger) = foldl gadd (Fin 0) (map snd (settlement_log ops)) \<and>
   (\<forall>job. settled_as (cost_run ops zero_CostLedger) job = map_of (settlement_log ops) job) \<and>
   gnonneg (clSpent (cost_run ops zero_CostLedger)) \<and> gnonneg (clReserved (cost_run ops zero_CostLedger)) \<and>
   gnonneg (clEstimatedSpent (cost_run ops zero_CostLedger))"
proof -
  have "charged [] zero_CostLedger" by (auto simp: charged_def settled_as_def zero_CostLedger_def)
  from charged_run[OF this, of ops]
  have c: "charged (settlement_log ops) (cost_run ops zero_CostLedger)" by (simp add: settlement_log_def)
  have "sound_totals zero_CostLedger" by (auto simp: sound_totals_def zero_CostLedger_def cost_total_def split: reservationState.split)
  then have "sound_totals (cost_run ops zero_CostLedger)"
    by (rule cost_run_induct) (use changes_sound[OF _ cost_step_changes] in blast)
  then have "gnonneg (cost_total p (cost_run ops zero_CostLedger))" for p by (simp add: sound_totals_def)
  from this[of ActualSettledState] this[of ReservedState] this[of EstimateSettledState] c
  show ?thesis by (simp add: charged_def)
qed

lemma demo_charges:
  "settlement_log [CostSettle ''j'' (Fin 2) (Fin 0), CostSettle ''k'' (Fin 1) (Fin 0), CostSettle ''j'' (Fin 3) (Fin 0)] =
     [(''j'', Fin 2), (''k'', Fin 1)]"
  by (simp add: settlement_log_def note_settlement_def bad_amount_def IsNaN_def IsInf_def)

text \<open>C24: A settlement is final.  Once the actual cost of a job is recorded no operation changes
  its record; settling it again with the same amount is accepted and with another amount is refused, and neither changes
  anything.
\<close>

theorem settlement_is_final:
  assumes "fmlookup (clByJob l) job = Some r" and "rvState r = ActualSettledState"
    and "job \<noteq> []" and "\<not> bad_amount actual" and "\<not> bad_amount fallback"
  shows "fmlookup (clByJob (cost_run ops l)) job = Some r \<and>
    SettleActual job actual fallback (cost_run ops l) =
      ((if actual = rvActual r then None else Some (ConflictingSettlement job)), cost_run ops l)"
proof -
  have step: "fmlookup (clByJob (cost_step op l)) job = Some r" if "fmlookup (clByJob l) job = Some r" for op l
    using cost_step_changes[of op l] that assms(2)
    by (auto simp: changes_def same_accounts_def moved_def simp del: cost_step.simps split: if_splits)
  have "fmlookup (clByJob (cost_run ops l)) job = Some r"
    using assms(1) by (rule cost_run_induct) (rule step)
  then show ?thesis using assms(2-5) by (simp add: SettleActual_def)
qed

theorem settlement_is_final_witness:
  "snd (SettleActual ''j'' (Fin 2) (Fin 0) (cost_run [CostRelease ''j''] (snd (SettleActual ''j'' (Fin 1) (Fin 0) zero_CostLedger)))) =
   cost_run [CostRelease ''j''] (snd (SettleActual ''j'' (Fin 1) (Fin 0) zero_CostLedger))"
proof -
  let ?l = "snd (SettleActual ''j'' (Fin 1) (Fin 0) zero_CostLedger)"
  obtain r where "fmlookup (clByJob ?l) ''j'' = Some r" "rvState r = ActualSettledState"
    by (simp add: SettleActual_def bad_amount_def IsNaN_def IsInf_def zero_CostLedger_def charge_def Let_def)
  from settlement_is_final[OF this, of "Fin 2" "Fin 0" "[CostRelease ''j'']"] show ?thesis
    by (simp add: bad_amount_def IsNaN_def IsInf_def)
qed

section \<open>Exact totals\<close>

text \<open>The exact sum over all records.\<close>

definition tot :: "(reservation \<Rightarrow> rat) \<Rightarrow> (string, reservation) fmap \<Rightarrow> rat" where
  "tot f m = (\<Sum>job \<in> fset (fmdom m). f (the (fmlookup m job)))"

lemma tot_upd: "tot f (fmupd job r m) = tot f m - (case fmlookup m job of None \<Rightarrow> 0 | Some old \<Rightarrow> f old) + f r"
proof -
  let ?D = "fset (fmdom m) - {job}"
  have rest: "(\<Sum>i \<in> ?D. f (the (fmlookup (fmupd job r m) i))) = (\<Sum>i \<in> ?D. f (the (fmlookup m i)))" by (rule sum.cong) auto
  have new: "tot f (fmupd job r m) = f r + (\<Sum>i \<in> ?D. f (the (fmlookup m i)))"
    using rest by (simp add: tot_def sum.insert_remove)
  show ?thesis
  proof (cases "fmlookup m job")
    case None
    then have "job \<notin> fset (fmdom m)" by (simp add: fmlookup_dom_iff)
    then show ?thesis using new None by (simp add: tot_def)
  next
    case (Some old)
    then have "job \<in> fset (fmdom m)" by (auto simp: fmlookup_dom_iff)
    then have "tot f m = f old + (\<Sum>i \<in> ?D. f (the (fmlookup m i)))"
      unfolding tot_def using Some by (subst sum.remove) auto
    then show ?thesis using new Some by simp
  qed
qed

definition share :: "reservationState \<Rightarrow> reservation \<Rightarrow> rat" where
  "share p r = (if rvState r = p then fin_val (value_of r) else 0)"

text \<open>Amounts in units of 2 to the power -20, about a millionth of a dollar.\<close>

definition whole :: "rat \<Rightarrow> bool" where
  "whole x \<longleftrightarrow> (\<exists>n :: int. x = of_int n * power_int 2 (- 20))"

lemma whole_0 [simp]: "whole 0"
  unfolding whole_def by (rule exI[of _ 0]) simp

lemma whole_add: "whole x \<Longrightarrow> whole y \<Longrightarrow> whole (x + y)"
  unfolding whole_def by (metis distrib_right of_int_add)

lemma whole_diff: "whole x \<Longrightarrow> whole y \<Longrightarrow> whole (x - y)"
  unfolding whole_def by (metis left_diff_distrib of_int_diff)

lemma whole_exact:
  assumes "whole x" and "0 \<le> x" and "x \<le> 2 ^ 32"
  shows "gofl x = Fin x"
proof -
  obtain n where n: "x = of_int n * power_int 2 (- 20)" using assms(1) by (auto simp: whole_def)
  have x: "x * 2 ^ 20 = of_int n" by (simp add: n power_int_minus)
  have "0 \<le> x * 2 ^ 20" "x * 2 ^ 20 \<le> 2 ^ 32 * 2 ^ 20" using assms(2,3) by simp_all
  then have "0 \<le> (of_int n :: rat)" "of_int n \<le> (of_int (2 ^ 52) :: rat)" unfolding x by simp_all
  then have "\<bar>n\<bar> < 2 ^ 53" by (simp only: of_int_le_iff of_int_0_le_iff) simp
  then have "fl64 x = x" by (rule fl64_exact[OF n]) simp
  moreover have "(2 :: rat) ^ 32 < 2 ^ 1024" by (rule power_strict_increasing) simp_all
  ultimately show ?thesis using assms(2,3) by (simp add: gofl_def)
qed

text \<open>
  The books balance: the three totals are the exact sums of the amounts the records stand for,
  each of them whole, and no more than has come in altogether.
\<close>

definition balanced :: "rat \<Rightarrow> CostLedger \<Rightarrow> bool" where
  "balanced bound l \<longleftrightarrow>
     (\<forall>p. p \<noteq> ReleasedState \<longrightarrow> cost_total p l = Fin (tot (share p) (clByJob l)) \<and> whole (tot (share p) (clByJob l))) \<and>
     (\<forall>job r. fmlookup (clByJob l) job = Some r \<longrightarrow> (\<exists>x \<ge> 0. value_of r = Fin x \<and> whole x)) \<and>
     tot (\<lambda>r. fin_val (value_of r)) (clByJob l) \<le> bound"

lemma tot_mono:
  assumes "\<And>job r. fmlookup m job = Some r \<Longrightarrow> f r \<le> g r"
  shows "tot f m \<le> tot g m"
  unfolding tot_def by (rule sum_mono) (use assms in \<open>auto simp: fmlookup_dom_iff\<close>)

lemma tot_nonneg:
  assumes "\<And>job r. fmlookup m job = Some r \<Longrightarrow> 0 \<le> f r"
  shows "0 \<le> tot f m"
  unfolding tot_def by (rule sum_nonneg) (use assms in \<open>auto simp: fmlookup_dom_iff\<close>)

lemma balanced_value: "balanced bound l \<Longrightarrow> fmlookup (clByJob l) job = Some r \<Longrightarrow> \<exists>x \<ge> 0. value_of r = Fin x \<and> whole x"
  by (simp add: balanced_def)

lemma balanced_nonneg: "balanced bound l \<Longrightarrow> fmlookup (clByJob l) job = Some r \<Longrightarrow> 0 \<le> fin_val (value_of r)"
  using balanced_value by fastforce

lemma balanced_parts:
  assumes "balanced bound l"
  shows "0 \<le> tot (share p) (clByJob l)" "tot (share p) (clByJob l) \<le> bound"
proof -
  have v: "0 \<le> fin_val (value_of r)" if "fmlookup (clByJob l) job = Some r" for job r
    by (rule balanced_nonneg[OF assms that])
  show "0 \<le> tot (share p) (clByJob l)" by (rule tot_nonneg) (simp add: share_def v)
  have "tot (share p) (clByJob l) \<le> tot (\<lambda>r. fin_val (value_of r)) (clByJob l)" by (rule tot_mono) (simp add: share_def v)
  then show "tot (share p) (clByJob l) \<le> bound" using assms by (simp add: balanced_def)
qed

lemma balanced_share:
  assumes "balanced bound l" and "fmlookup (clByJob l) job = Some r"
  shows "\<exists>x. value_of r = Fin x \<and> whole x \<and> 0 \<le> x \<and> (\<forall>p. rvState r = p \<longrightarrow> x \<le> tot (share p) (clByJob l))"
proof -
  obtain x where x: "value_of r = Fin x" "whole x" "0 \<le> x" using balanced_value[OF assms] by blast
  have "x \<le> tot (share (rvState r)) (clByJob l)"
  proof -
    let ?m = "clByJob l" and ?f = "share (rvState r)"
    have v: "0 \<le> ?f s" if "fmlookup ?m i = Some s" for i s
      using balanced_nonneg[OF assms(1) that] by (simp add: share_def)
    have "job \<in> fset (fmdom ?m)" using assms(2) by (auto simp: fmlookup_dom_iff)
    then have "?f (the (fmlookup ?m job)) \<le> tot ?f ?m"
      unfolding tot_def by (rule member_le_sum) (use v in \<open>auto simp: fmlookup_dom_iff\<close>)
    then show ?thesis using assms(2) x(1) by (simp add: share_def)
  qed
  then show ?thesis using x by blast
qed

lemma take_off_exact:
  assumes "whole a" and "whole b" and "0 \<le> b" and "b \<le> a" and "a \<le> 2 ^ 32"
  shows "take_off (Fin a) (Fin b) = Fin (a - b)"
  using whole_exact[OF whole_diff[OF assms(1,2)]] assms by (simp add: take_off_def gsub_def)

lemma moved_balanced:
  assumes bal: "balanced bound l" and mv: "moved job r l l'" and v: "value_of r = Fin x" "whole x" "0 \<le> x"
    and fits: "bound + x \<le> 2 ^ 32"
  shows "balanced (bound + x) l'"
proof -
  let ?m = "clByJob l"
  have m': "clByJob l' = fmupd job r ?m" using mv by (simp add: moved_def)
  define old where "old p = (case fmlookup ?m job of None \<Rightarrow> 0 | Some s \<Rightarrow> share p s)" for p
  define t where "t p = (case fmlookup ?m job of None \<Rightarrow> cost_total p l
      | Some s \<Rightarrow> if rvState s = p then take_off (cost_total p l) (value_of s) else cost_total p l)" for p
  have t: "t p = Fin (tot (share p) ?m - old p) \<and> whole (tot (share p) ?m - old p) \<and> 0 \<le> tot (share p) ?m - old p \<and>
      tot (share p) ?m - old p \<le> bound"
    if p: "p \<noteq> ReleasedState" for p
  proof -
    have tp: "cost_total p l = Fin (tot (share p) ?m)" "whole (tot (share p) ?m)" using bal p by (auto simp: balanced_def)
    note parts = balanced_parts[OF bal, of p]
    show ?thesis
    proof (cases "fmlookup ?m job")
      case None
      then show ?thesis using tp parts by (simp add: t_def old_def)
    next
      case (Some s)
      obtain y where y: "value_of s = Fin y" "whole y" "0 \<le> y" "rvState s = p \<longrightarrow> y \<le> tot (share p) ?m"
        using balanced_share[OF bal Some] by blast
      have "tot (share p) ?m \<le> 2 ^ 32" using parts(2) fits v(3) by linarith
      then show ?thesis
        using Some tp parts y take_off_exact[OF tp(2) y(2,3)] by (auto simp: t_def old_def share_def intro: whole_diff)
    qed
  qed
  have totals: "cost_total p l' = Fin (tot (share p) (clByJob l')) \<and> whole (tot (share p) (clByJob l'))"
    if p: "p \<noteq> ReleasedState" for p
  proof -
    have eq: "tot (share p) (clByJob l') = tot (share p) ?m - old p + share p r" unfolding m' tot_upd old_def by simp
    have "cost_total p l' = (if rvState r = p then gadd (t p) (value_of r) else t p)"
      using mv p unfolding moved_def t_def Let_def by blast
    moreover have "gofl (tot (share p) ?m - old p + x) = Fin (tot (share p) ?m - old p + x)"
      by (rule whole_exact) (use t[OF p] v fits in \<open>auto intro: whole_add\<close>)
    ultimately show ?thesis using t[OF p] v by (auto simp: eq share_def intro: whole_add)
  qed
  have "tot (\<lambda>r. fin_val (value_of r)) (clByJob l') \<le> bound + x"
  proof -
    have "0 \<le> (case fmlookup ?m job of None \<Rightarrow> 0 | Some s \<Rightarrow> fin_val (value_of s))"
      using balanced_share[OF bal, of job] by (auto split: option.split)
    then show ?thesis using bal v(1) unfolding m' tot_upd balanced_def by simp
  qed
  moreover have "\<exists>y \<ge> 0. value_of s = Fin y \<and> whole y" if "fmlookup (clByJob l') i = Some s" for i s
    using bal that v unfolding m' balanced_def by (auto split: if_splits)
  ultimately show ?thesis using totals unfolding balanced_def by blast
qed

lemma released_value: "rvState r = ReleasedState \<Longrightarrow> value_of r = Fin 0"
  by (simp add: value_of_def)

lemma balanced_weaken: "balanced bound l \<Longrightarrow> bound \<le> bound' \<Longrightarrow> balanced bound' l"
  unfolding balanced_def by (meson order_trans)

lemma changes_balanced:
  assumes "balanced bound l" and "changes (Fin x) l l'" and "whole x" and "0 \<le> x" and "bound + x \<le> 2 ^ 32"
  shows "balanced (bound + x) l'"
proof -
  consider (same) "same_accounts l l'"
    | (released) job r where "moved job r l l'" "value_of r = Fin 0"
    | (valued) job r where "moved job r l l'" "value_of r = Fin x"
    using assms(2) released_value unfolding changes_def by blast
  then show ?thesis
  proof cases
    case same
    then have "balanced bound l'" using assms(1) unfolding balanced_def same_accounts_def by simp
    then show ?thesis by (rule balanced_weaken) (use assms(4) in simp)
  next
    case released
    have "balanced (bound + 0) l'" by (rule moved_balanced[OF assms(1) released]) (use assms(4,5) in simp_all)
    then show ?thesis by (rule balanced_weaken) (use assms(4) in simp)
  next
    case valued
    then show ?thesis by (rule moved_balanced[OF assms(1) _ _ assms(3-5)])
  qed
qed

definition whole_amount :: "cost_op \<Rightarrow> bool" where
  "whole_amount op \<longleftrightarrow> (case amount_of op of Fin x \<Rightarrow> 0 \<le> x \<and> whole x | _ \<Rightarrow> False)"

definition volume :: "cost_op list \<Rightarrow> rat" where
  "volume ops = (\<Sum>op \<leftarrow> ops. fin_val (amount_of op))"

lemma whole_nonneg: "whole_amount op \<Longrightarrow> 0 \<le> fin_val (amount_of op)"
  by (simp add: whole_amount_def split: gofloat.splits)

lemma cost_run_balanced:
  assumes "balanced bound l" and "list_all whole_amount ops" and "bound + volume ops \<le> 2 ^ 32"
  shows "balanced (bound + volume ops) (cost_run ops l)"
  using assms
proof (induction ops arbitrary: bound l)
  case (Cons op ops)
  obtain x where x: "amount_of op = Fin x" "0 \<le> x" "whole x"
    using Cons.prems(2) by (auto simp: whole_amount_def split: gofloat.splits)
  have vol: "volume (op # ops) = x + volume ops" by (simp add: volume_def x(1))
  have "0 \<le> volume ops" using Cons.prems(2) unfolding volume_def
    by (intro sum_list_nonneg) (auto simp: list_all_iff whole_nonneg)
  then have fits: "bound + x \<le> 2 ^ 32" using Cons.prems(3) vol by linarith
  have "changes (Fin x) l (cost_step op l)" using cost_step_changes[of op l] x(1) by simp
  from Cons.IH[OF changes_balanced[OF Cons.prems(1) this x(3,2) fits]] Cons.prems(2,3) vol
  show ?case by (simp add: add.assoc)
qed (simp add: volume_def)

text \<open>C22: The totals of the ledger are exact although they are kept in floating point.  If every amount is
  a whole number of units of 2 to the power -20 dollars and all amounts together are at most 2 to the power 32,
  then after any run the reserved, spent and estimated totals are exactly the sums of the
  open reservations, of the actual settlements and of the estimated settlements.
\<close>

theorem ledger_totals_exact:
  assumes "list_all whole_amount ops" and "volume ops \<le> 2 ^ 32"
  shows "let l = cost_run ops zero_CostLedger in
    clReserved l = Fin (tot (share ReservedState) (clByJob l)) \<and>
    clSpent l = Fin (tot (share ActualSettledState) (clByJob l)) \<and>
    clEstimatedSpent l = Fin (tot (share EstimateSettledState) (clByJob l))"
proof -
  have "balanced 0 zero_CostLedger" by (simp add: balanced_def zero_CostLedger_def tot_def all_states)
  from cost_run_balanced[OF this assms(1)] assms(2) have "balanced (volume ops) (cost_run ops zero_CostLedger)" by simp
  then show ?thesis by (simp add: balanced_def all_states Let_def)
qed

theorem ledger_totals_exact_witness:
  "let l = cost_run [CostSettleEstimate ''a'' (Fin 3), CostSettle ''a'' (Fin 2) (Fin 0)] zero_CostLedger in
    clSpent l = Fin 2 \<and> clEstimatedSpent l = Fin 0"
proof -
  let ?ops = "[CostSettleEstimate ''a'' (Fin 3), CostSettle ''a'' (Fin 2) (Fin 0)]"
  have w: "whole 3" "whole 2" unfolding whole_def by (rule exI[of _ "3 * 2 ^ 20"], simp add: power_int_minus) (rule exI[of _ "2 * 2 ^ 20"], simp add: power_int_minus)
  have "list_all whole_amount ?ops" "volume ?ops \<le> 2 ^ 32" using w by (simp_all add: whole_amount_def amount_of_def volume_def)
  note ex = ledger_totals_exact[OF this]
  have "\<exists>r. clByJob (cost_run ?ops zero_CostLedger) = fmupd ''a'' r fmempty \<and> rvState r = ActualSettledState \<and> rvActual r = Fin 2"
    by (simp add: SettleActual_def SettleEstimate_def zero_CostLedger_def bad_amount_def IsNaN_def IsInf_def charge_def charge_estimate_def Let_def)
      (rule exI conjI refl | simp)+
  then obtain r where r: "clByJob (cost_run ?ops zero_CostLedger) = fmupd ''a'' r fmempty" "rvState r = ActualSettledState" "rvActual r = Fin 2"
    by blast
  have "tot f (fmupd ''a'' r fmempty) = f r" for f by (simp add: tot_def)
  then show ?thesis using ex r unfolding Let_def by (simp add: share_def value_of_def del: cost_run_simps)
qed

end
