(* ===== verification/Spec2Isabelle.thy ===== *)
theory Spec2Isabelle
  imports HealthBreaker RouterInvariant Resolver Budget Cache BreakerSync RetrySafety Egress VideoStores VideoCost
begin

text \<open>
  NexaRoute is a gateway in front of model providers.  A request names a model; the router
  picks deployments that may serve it, in an order that depends on a strategy, on measured
  health, on prices and on session pins; an attempt that fails is judged by the retry rules
  and the next deployment is tried.  Around this core stand circuit breakers and their
  synchronisation between replicas, a price book, budgets, a response cache, the egress
  boundary and a job service for videos.  This development models these parts as functions on
  explicit states and proves what each promises and how they fit together.

  \<^bold>\<open>Conventions.\<close>  One definition stands for one function, method or loop of the source and has
  its name, with a suffix where the name is taken.  A struct is a record, an enumeration a
  datatype, a mutex-protected object a record that operations take and return.  Go's \<open>int\<close> and
  \<open>int64\<close> are \<open>int\<close> with \<open>i64\<close> for the wrap-around, \<open>uint64\<close> is a 64-bit word, \<open>float64\<close> is the
  rational it denotes after rounding (\<open>fl64\<close>) or a \<open>gofloat\<close> where infinities and NaN can
  occur, an instant is the number of nanoseconds since the zero time, a string is its bytes, a
  map is a finite map.  Go's map iteration order is a parameter \<open>iter\<close> constrained only by the
  locale \<open>map_order\<close>, so every theorem holds for each order.  Clock readings, cancellations, the
  choice of a select statement, failures of a write and answers of other systems are arguments.
  Errors are values.

  \<^bold>\<open>Foundations.\<close>
  \<^item> \<open>Prelude\<close>: Go values, maps with zero defaults, truncating division, strings, the stable sort
    with its contract, map order.
  \<^item> \<open>Float64\<close>: rounding to the nearest double, ties to even, and its monotonicity; the extended
    operations.
  \<^item> \<open>Hashes\<close>: FNV-1a, SHA-256 and hexadecimal printing; \<open>GoTime\<close>: RFC 3339 parsing; \<open>Utf8\<close>: the
    byte strings that JSON preserves.

  \<^bold>\<open>Health\<close> (\<^verbatim>\<open>src/internal/health\<close>).  \<open>Health\<close> models every method of \<^verbatim>\<open>Manager\<close> in
  \<^verbatim>\<open>manager.go\<close>, the histograms of \<^verbatim>\<open>histogram.go\<close> and the states of \<^verbatim>\<open>derived.go\<close>.
  \<open>HealthInvariant\<close> has the step relation of the manager, its reachable states and their
  invariant.  \<open>HealthBreaker\<close> shows that a cooldown ends, that thresholds trip, that one
  deployment alone never opens a provider circuit, that retirement is final, and that the
  reads with two locked sections (\<^verbatim>\<open>GetWithScopes\<close>, \<^verbatim>\<open>ProviderAvailable\<close>, \<^verbatim>\<open>Snapshot\<close>) are
  linearizable: whatever happens between the sections, they answer and change the manager as one
  atomic read does.

  \<^bold>\<open>Routing.\<close>  \<open>Config\<close> has the configuration data (\<^verbatim>\<open>src/internal/config/config.go\<close>), \<open>Pricing\<close>
  the versioned book (\<^verbatim>\<open>src/internal/pricing/pricing.go\<close>), \<open>Conformance\<close> the provider manifest
  (\<^verbatim>\<open>src/internal/providers/conformance.go\<close>).  \<open>Router\<close> follows \<^verbatim>\<open>src/internal/router/router.go\<close>:
  tables, the eligibility funnel \<^verbatim>\<open>evaluateDeployment\<close>, \<^verbatim>\<open>Candidates\<close>, \<^verbatim>\<open>Eligible\<close>, the ordering
  strategies, session pins, readiness.  \<open>Explain\<close> follows \<^verbatim>\<open>explain.go\<close>.  \<open>RouterTables\<close>,
  \<open>RouterOrder\<close> and \<open>RouterStrategies\<close> show that tables are built right and that orderings
  permute, alternate providers, put a live pin first and the cheapest priced candidate ahead.
  \<open>RouterFunnel\<close> and \<open>RouterAgreement\<close> show that selection fails closed, that it returns exactly
  the eligible deployments of the configuration, and that the re-check and the explanation
  agree with it.  \<open>RouterInvariant\<close> has the
  router as a state machine and bounds its pins.  \<open>Resolver\<close> follows
  \<^verbatim>\<open>src/internal/route/resolver.go\<close>: the candidates come from the first pool that serves, in the
  order of the configuration.

  \<^bold>\<open>Money.\<close>  \<open>Budget\<close> follows \<^verbatim>\<open>src/internal/budget/ledger.go\<close> with its saturating 64-bit sums:
  spending and reservations never exceed the budget, admission is exact, alerts fire once.
  \<open>Pricing\<close> shows that the latest effective price applies and that costs are finite.

  \<^bold>\<open>Cache\<close> (\<^verbatim>\<open>src/internal/cache/cache.go\<close>).  \<open>LinkedList\<close> is the intrusive list on a heap of
  nodes, \<open>LruTable\<close> the table over it, \<open>Cache\<close> the operations; the cache refines a plain list in
  recency order, and a hit is the last store of that key.

  \<^bold>\<open>Replicas.\<close>  \<open>ControlPlane\<close> follows the revision store, the manager and the migration registry of
  \<^verbatim>\<open>src/internal/controlplane\<close> (\<^verbatim>\<open>types.go\<close>, \<^verbatim>\<open>memory.go\<close>, \<^verbatim>\<open>manager.go\<close>,
  \<^verbatim>\<open>migrations.go\<close>).  \<open>SharedState\<close> follows \<^verbatim>\<open>src/internal/sharedstate\<close>: merging is a
  join, and a publication under any interference of other writers loses no update.
  \<open>BreakerSync\<close> follows \<^verbatim>\<open>src/internal/breakersync/breakersync.go\<close>: it composes the health
  manager, the markers and the store, so that a cooldown of one replica reaches the others, never
  makes a deployment available that was not, and excludes one only for a bounded time.

  \<^bold>\<open>Attempts and the network.\<close>  \<open>RetrySafety\<close> follows \<^verbatim>\<open>src/internal/retrysafety/retrysafety.go\<close>
  and gives the replay decision for every outcome the package builds.
  \<open>Egress\<close> follows \<^verbatim>\<open>src/internal/egress\<close>: the block list is exactly the special-purpose
  space, every address that is dialled has passed the policy, and redirects stay at their origin.

  \<^bold>\<open>Video jobs\<close> (\<^verbatim>\<open>src/internal/video\<close>).  \<open>VideoJobs\<close> has the states of \<^verbatim>\<open>job.go\<close> and the stores and
  the queue of \<^verbatim>\<open>queue/\<close>.  \<open>VideoStores\<close> states the contract of a store as a locale, interprets it on
  both stores, and shows the refinement, reopening, one job per idempotency key, one lease
  holder, and that terminal jobs are frozen, for jobs with non-empty identifiers.  The file holds
  bytes; that JSON reads a document back is a hypothesis, made only for documents with
  well-formed strings.  Jobs are values, so sharing of slices and maps between a stored job and
  a caller's copy is not modelled.  \<open>VideoCost\<close> follows \<^verbatim>\<open>cost/ledger.go\<close>: every job is
  charged once, a settlement is final, and the floating-point totals are exact for amounts that
  are whole multiples of 2 to the power -20 and together at most 2 to the power 32.

  \<^bold>\<open>Interfaces.\<close>  A locale stands for each contract between components: map iteration, the
  comparison of a stable sort, rounding, a read in two locked sections, a document under revision
  control, a job store.  Each is
  interpreted on the model's definitions, and the properties rest on those facts.

  \<^bold>\<open>Bounds and fuel.\<close>  No definition runs on fuel.  Recursions that are not structural have
  termination proofs: the binary search of the histograms by the length of its range, the address
  check because an embedded address is an IPv4 address, the eviction loop of the cache by the
  number of its entries.  The retry loop of a publication recurses on the number of attempts the
  source allows.

  \<^bold>\<open>Not modelled.\<close>  Three kinds of code are left out.
  \<^item> Input and output: HTTP handlers and the command line programs, provider adapters, probes and
    canaries, stores in SQL databases and Redis, telemetry, log files, TLS settings, renderers,
    speech and other external programs.  The failover loop that joins the router, the
    health manager and the retry rules is part of the HTTP handlers and therefore missing.
  \<^item> Code that needs a model of a large library: conversion of JSON wire formats (\<^verbatim>\<open>protocol\<close>,
    \<^verbatim>\<open>translate\<close>, \<^verbatim>\<open>core\<close>, \<^verbatim>\<open>feature\<close>), regular expressions (\<^verbatim>\<open>guardrail\<close>), cryptography
    (\<^verbatim>\<open>secrets\<close>), and loading and validation of configuration files.
  \<^item> Code that could be modelled in the same way and is not: the semantic cache, the decision engine
    and its policies, the workflow engine, the video orchestrator, the audit chain, the event bus,
    autopilot, evaluation and quality gates, scorecards, task profiles, roles, usage counters.

  A critical section is one step; goroutine scheduling inside it is not modelled.  Standard library
  calls are either modelled (sorting, hashing, time parsing, addresses) or parameters
  (encoding/json, DNS, URL parsing, connections).
\<close>

end
